theory Spec2Isabelle
  imports Main
begin

section \<open>Data model of the combat engine (src/WHG.cpp)\<close>

text \<open>
  All stats are C++ \<^verbatim>\<open>int\<close>, a 32-bit two's complement integer. A stat is modelled as
  an \<^typ>\<open>int\<close> that lies in the 32-bit range, and a sum or difference of stats is
  brought back into that range by \<open>int32\<close> (below): a result that leaves the range
  wraps around, as it does in the compiled program.
  Console output (\<^verbatim>\<open>cout\<close>), screen clearing and sleeping have no effect on the
  engine state and are left out; the battle log, which the engine stores, is kept.
\<close>

datatype StatusEffect = NONE | POISON | BLEED | STUN | STRENGTH_UP | WEAKNESS

text \<open>The global table \<^verbatim>\<open>statusNames\<close>; it has an entry for every enumerator.\<close>

fun statusNames :: "StatusEffect \<Rightarrow> string" where
  "statusNames NONE = ''None''"
| "statusNames POISON = ''Poison''"
| "statusNames BLEED = ''Bleed''"
| "statusNames STUN = ''Stun''"
| "statusNames STRENGTH_UP = ''Strength Up''"
| "statusNames WEAKNESS = ''Weakness''"

text \<open>
  \<^verbatim>\<open>std::map<StatusEffect, int>\<close> holds one value per key and iterates in ascending key
  order; the enumerators ascend in declaration order. The table is a partial function
  and \<open>map_keys\<close> lists its keys the way a range-for over the map visits them.
\<close>

definition all_effects :: "StatusEffect list" where
  "all_effects = [NONE, POISON, BLEED, STUN, STRENGTH_UP, WEAKNESS]"

definition map_keys :: "(StatusEffect \<Rightarrow> int option) \<Rightarrow> StatusEffect list" where
  "map_keys m = filter (\<lambda>e. m e \<noteq> None) all_effects"

datatype ItemType = WEAPON | ARMOR | ACCESSORY | POTION

record Potion =
  potionName :: string
  amount :: int
  isHealthPotion :: bool

text \<open>
  The subclasses of \<^verbatim>\<open>Item\<close>. Each subclass constructor fixes the fields of the base
  class, so the getters are functions of the subclass; the constructor's defaults
  (\<^verbatim>\<open>atk = 0, hp = 0, def = 0, mp = 0\<close>) are written out.
\<close>

datatype Item =
  FireSword | IceShield | VampireRing | PoisonDagger | DragonScale | LightningOrb
  | HealthPotion | ManaPotion

fun getItemName :: "Item \<Rightarrow> string" where
  "getItemName FireSword = ''Fire Sword''"
| "getItemName IceShield = ''Ice Shield''"
| "getItemName VampireRing = ''Vampire Ring''"
| "getItemName PoisonDagger = ''Poison Dagger''"
| "getItemName DragonScale = ''Dragon Scale''"
| "getItemName LightningOrb = ''Lightning Orb''"
| "getItemName HealthPotion = ''Health Potion''"
| "getItemName ManaPotion = ''Mana Potion''"

fun getType :: "Item \<Rightarrow> ItemType" where
  "getType FireSword = WEAPON"
| "getType IceShield = ARMOR"
| "getType VampireRing = ACCESSORY"
| "getType PoisonDagger = WEAPON"
| "getType DragonScale = ARMOR"
| "getType LightningOrb = ACCESSORY"
| "getType HealthPotion = POTION"
| "getType ManaPotion = POTION"

fun getAttackBonus :: "Item \<Rightarrow> int" where
  "getAttackBonus FireSword = 15"
| "getAttackBonus IceShield = 0"
| "getAttackBonus VampireRing = 5"
| "getAttackBonus PoisonDagger = 8"
| "getAttackBonus DragonScale = 10"
| "getAttackBonus LightningOrb = 12"
| "getAttackBonus HealthPotion = 0"
| "getAttackBonus ManaPotion = 0"

fun getHealthBonus :: "Item \<Rightarrow> int" where
  "getHealthBonus FireSword = 0"
| "getHealthBonus IceShield = 20"
| "getHealthBonus VampireRing = 0"
| "getHealthBonus PoisonDagger = 0"
| "getHealthBonus DragonScale = 30"
| "getHealthBonus LightningOrb = 0"
| "getHealthBonus HealthPotion = 30"
| "getHealthBonus ManaPotion = 0"

fun getDefenseBonus :: "Item \<Rightarrow> int" where
  "getDefenseBonus FireSword = 0"
| "getDefenseBonus IceShield = 10"
| "getDefenseBonus VampireRing = 0"
| "getDefenseBonus PoisonDagger = 0"
| "getDefenseBonus DragonScale = 5"
| "getDefenseBonus LightningOrb = 0"
| "getDefenseBonus HealthPotion = 0"
| "getDefenseBonus ManaPotion = 0"

fun getManaBonus :: "Item \<Rightarrow> int" where
  "getManaBonus ManaPotion = 20"
| "getManaBonus _ = 0"

text \<open>
  The dynamic type of a \<^verbatim>\<open>Unit\<close>. \<^verbatim>\<open>BossUnit\<close> carries its own fields, the three skill
  names. Its three cost fields are private, set to 15, 20 and 25 by the only constructor
  and never assigned again, so they are constants.
\<close>

datatype UnitClass =
  Warrior | Archer | Mage
  | BossUnit (skillName1: string) (skillName2: string) (skillName3: string)

definition skillCost1 :: int where
  "skillCost1 = 15"

definition skillCost2 :: int where
  "skillCost2 = 20"

definition skillCost3 :: int where
  "skillCost3 = 25"

record Unit =
  name :: string
  maxHealth :: int
  health :: int
  maxMana :: int
  mana :: int
  baseAttack :: int
  currentAttack :: int
  defense :: int
  statusEffects :: "StatusEffect \<Rightarrow> int option"
  equipment :: "Item list"
  potions :: "Potion list"
  battleLog :: "string list"
  cls :: UnitClass

subsection \<open>Arithmetic on \<^verbatim>\<open>int\<close>, \<^verbatim>\<open>std::to_string(int)\<close> and integer division\<close>

text \<open>
  The 32-bit value of a mathematical result: the representative of \<open>x\<close> modulo
  \<open>2^32 = 4294967296\<close> between \<open>-2^31 = -2147483648\<close> and \<open>2^31 - 1\<close>. It is applied
  wherever the source adds or subtracts stats: in \<^verbatim>\<open>takeDamage\<close>, \<^verbatim>\<open>heal\<close>,
  \<^verbatim>\<open>restoreMana\<close>, the four \<^verbatim>\<open>increase...\<close> members, the attack modifiers of the status
  effects and the damage of the skills. It is not applied where a guard of the source
  keeps the result in range (a skill's mana debit follows the test \<^verbatim>\<open>mana < cost\<close>, an
  inventory index comes from \<^verbatim>\<open>getValidInput\<close>), to the arguments of the boss
  constructor (the stage runs from 1 to 5), nor to the decrement of a status duration,
  which leaves the range only for the least \<^verbatim>\<open>int\<close>, a duration that no caller stores
  (the callers pass 1, 2 and 3).
\<close>

definition int32 :: "int \<Rightarrow> int" where
  "int32 x = (x + 2147483648) mod 4294967296 - 2147483648"

function nat_to_string :: "nat \<Rightarrow> string" where
  "nat_to_string n =
     (if n < 10 then [''0123456789'' ! n]
      else nat_to_string (n div 10) @ [''0123456789'' ! (n mod 10)])"
  by pat_completeness auto
termination
  by (relation "measure id") auto

declare nat_to_string.simps [simp del]

definition to_string :: "int \<Rightarrow> string" where
  "to_string i = (if i < 0 then CHR ''-'' # nat_to_string (nat (- i)) else nat_to_string (nat i))"

text \<open>C++ \<^verbatim>\<open>/\<close> on \<^verbatim>\<open>int\<close> truncates towards zero.\<close>

definition cpp_div :: "int \<Rightarrow> int \<Rightarrow> int" where
  "cpp_div a b = sgn a * sgn b * (\<bar>a\<bar> div \<bar>b\<bar>)"

subsection \<open>Constructors\<close>

definition new_Unit :: "UnitClass \<Rightarrow> string \<Rightarrow> int \<Rightarrow> int \<Rightarrow> int \<Rightarrow> int \<Rightarrow> Unit" where
  "new_Unit c n hp mp atk def =
     \<lparr> name = n, maxHealth = hp, health = hp, maxMana = mp, mana = mp,
       baseAttack = atk, currentAttack = atk, defense = def,
       statusEffects = Map.empty, equipment = [], potions = [], battleLog = [],
       cls = c \<rparr>"

definition new_Warrior :: "string \<Rightarrow> Unit" where
  "new_Warrior n = new_Unit Warrior n 120 50 20 2"

definition new_Archer :: "string \<Rightarrow> Unit" where
  "new_Archer n = new_Unit Archer n 80 35 30 1"

definition new_Mage :: "string \<Rightarrow> Unit" where
  "new_Mage n = new_Unit Mage n 70 80 25 0"

definition new_BossUnit :: "string \<Rightarrow> string \<Rightarrow> string \<Rightarrow> string \<Rightarrow> int \<Rightarrow> int \<Rightarrow> int \<Rightarrow> Unit" where
  "new_BossUnit n sk1 sk2 sk3 atk hp def =
     new_Unit (BossUnit sk1 sk2 sk3) n hp 60 atk def"

subsection \<open>Members of \<^verbatim>\<open>Unit\<close>\<close>

definition isAlive :: "Unit \<Rightarrow> bool" where
  "isAlive u = (health u > 0)"

definition clearBattleLog :: "Unit \<Rightarrow> Unit" where
  "clearBattleLog u = u\<lparr>battleLog := []\<rparr>"

definition addToBattleLog :: "Unit \<Rightarrow> string \<Rightarrow> Unit" where
  "addToBattleLog u message = u\<lparr>battleLog := battleLog u @ [message]\<rparr>"

text \<open>
  \<^verbatim>\<open>takeDamage(int dmg, bool showBlock = true, string source = "")\<close>; callers that rely
  on the defaults pass \<open>True\<close> and the empty string.
\<close>

definition takeDamage :: "Unit \<Rightarrow> int \<Rightarrow> bool \<Rightarrow> string \<Rightarrow> Unit" where
  "takeDamage u dmg showBlock source =
     (let actualDamage = max 1 (int32 (dmg - defense u));
          prevHealth = health u;
          u1 = u\<lparr>health := max 0 (int32 (health u - actualDamage))\<rparr>;
          msg0 = name u1 @ '' took '' @ to_string actualDamage @ '' damage'';
          msg1 = (if source \<noteq> [] then msg0 @ '' from '' @ source else msg0);
          msg2 = msg1 @ ''! ['' @ to_string prevHealth @ '' -> '' @ to_string (health u1)
                   @ ''/'' @ to_string (maxHealth u1) @ '' HP]'';
          u2 = addToBattleLog u1 msg2
      in if showBlock \<and> defense u2 > 0 \<and> actualDamage < dmg
         then addToBattleLog u2
                (name u2 @ '' blocked '' @ to_string (int32 (dmg - actualDamage)) @ '' damage!'')
         else u2)"

definition heal :: "Unit \<Rightarrow> int \<Rightarrow> Unit" where
  "heal u amt =
     (let oldHealth = health u;
          u1 = u\<lparr>health := min (maxHealth u) (int32 (health u + amt))\<rparr>;
          healedAmount = int32 (health u1 - oldHealth)
      in addToBattleLog u1
           (name u1 @ '' healed '' @ to_string healedAmount @ '' HP! ('' @ to_string (health u1)
              @ ''/'' @ to_string (maxHealth u1) @ '')''))"

definition restoreMana :: "Unit \<Rightarrow> int \<Rightarrow> Unit" where
  "restoreMana u amt =
     (let oldMana = mana u;
          u1 = u\<lparr>mana := min (maxMana u) (int32 (mana u + amt))\<rparr>;
          restoredAmount = int32 (mana u1 - oldMana)
      in addToBattleLog u1
           (name u1 @ '' restored '' @ to_string restoredAmount @ '' MP! ('' @ to_string (mana u1)
              @ ''/'' @ to_string (maxMana u1) @ '')''))"

definition increaseMaxHealth :: "Unit \<Rightarrow> int \<Rightarrow> Unit" where
  "increaseMaxHealth u amt =
     addToBattleLog (u\<lparr>maxHealth := int32 (maxHealth u + amt), health := int32 (health u + amt)\<rparr>)
       (name u @ [CHR 0x27] @ ''s max HP increased by '' @ to_string amt @ ''!'')"

definition increaseMaxMana :: "Unit \<Rightarrow> int \<Rightarrow> Unit" where
  "increaseMaxMana u amt =
     addToBattleLog (u\<lparr>maxMana := int32 (maxMana u + amt), mana := int32 (mana u + amt)\<rparr>)
       (name u @ [CHR 0x27] @ ''s max MP increased by '' @ to_string amt @ ''!'')"

definition increaseAttack :: "Unit \<Rightarrow> int \<Rightarrow> Unit" where
  "increaseAttack u amt =
     addToBattleLog
       (u\<lparr>baseAttack := int32 (baseAttack u + amt), currentAttack := int32 (baseAttack u + amt)\<rparr>)
       (name u @ [CHR 0x27] @ ''s attack increased by '' @ to_string amt @ ''!'')"

definition increaseDefense :: "Unit \<Rightarrow> int \<Rightarrow> Unit" where
  "increaseDefense u amt =
     addToBattleLog (u\<lparr>defense := int32 (defense u + amt)\<rparr>)
       (name u @ [CHR 0x27] @ ''s defense increased by '' @ to_string amt @ ''!'')"

text \<open>\<^verbatim>\<open>Item::applyEffect\<close> as overridden by each subclass.\<close>

fun applyEffect :: "Item \<Rightarrow> Unit \<Rightarrow> Unit" where
  "applyEffect FireSword unit = increaseAttack unit (getAttackBonus FireSword)"
| "applyEffect IceShield unit =
     increaseDefense (increaseMaxHealth unit (getHealthBonus IceShield)) (getDefenseBonus IceShield)"
| "applyEffect VampireRing unit = increaseAttack unit (getAttackBonus VampireRing)"
| "applyEffect PoisonDagger unit = increaseAttack unit (getAttackBonus PoisonDagger)"
| "applyEffect DragonScale unit =
     increaseDefense
       (increaseMaxHealth (increaseAttack unit (getAttackBonus DragonScale))
          (getHealthBonus DragonScale))
       (getDefenseBonus DragonScale)"
| "applyEffect LightningOrb unit = increaseAttack unit (getAttackBonus LightningOrb)"
| "applyEffect HealthPotion unit = heal unit (getHealthBonus HealthPotion)"
| "applyEffect ManaPotion unit = restoreMana unit (getManaBonus ManaPotion)"

text \<open>
  \<^verbatim>\<open>addItem\<close>: a potion item becomes a \<^verbatim>\<open>Potion\<close> of the inventory
  (\<^verbatim>\<open>dynamic_cast<HealthPotion *>\<close> succeeds exactly for a \<^verbatim>\<open>HealthPotion\<close>); any other
  item is stored and applied at once.
\<close>

definition addItem :: "Unit \<Rightarrow> Item \<Rightarrow> Unit" where
  "addItem u item =
     (if getType item = POTION then
        (if item = HealthPotion
         then u\<lparr>potions := potions u @
                [\<lparr>potionName = getItemName item, amount = getHealthBonus item, isHealthPotion = True\<rparr>]\<rparr>
         else u\<lparr>potions := potions u @
                [\<lparr>potionName = getItemName item, amount = getManaBonus item, isHealthPotion = False\<rparr>]\<rparr>)
      else
        (let u1 = u\<lparr>equipment := equipment u @ [item]\<rparr>;
             u2 = applyEffect item u1
         in addToBattleLog u2 (name u2 @ '' equipped '' @ getItemName item @ ''!'')))"

definition usePotion :: "Unit \<Rightarrow> int \<Rightarrow> bool \<times> Unit" where
  "usePotion u index =
     (if index < 0 \<or> int (length (potions u)) \<le> index then (False, u)
      else
        (let potion = potions u ! nat index;
             u1 = (if isHealthPotion potion then heal u (amount potion)
                   else restoreMana u (amount potion));
             u2 = addToBattleLog u1 (name u1 @ '' used '' @ potionName potion @ ''!'')
         in (True, u2\<lparr>potions := take (nat index) (potions u2) @ drop (Suc (nat index)) (potions u2)\<rparr>)))"

subsection \<open>Status effects\<close>

definition addStatus :: "Unit \<Rightarrow> StatusEffect \<Rightarrow> int \<Rightarrow> string \<Rightarrow> Unit" where
  "addStatus u effect duration source =
     addToBattleLog (u\<lparr>statusEffects := (statusEffects u)(effect \<mapsto> duration)\<rparr>)
       (source @ '' applied '' @ statusNames effect @ '' to '' @ name u @ ''!'')"

definition hasStatus :: "Unit \<Rightarrow> StatusEffect \<Rightarrow> bool" where
  "hasStatus u effect = (case statusEffects u effect of None \<Rightarrow> False | Some d \<Rightarrow> d > 0)"

definition clearStatus :: "Unit \<Rightarrow> StatusEffect \<Rightarrow> Unit" where
  "clearStatus u effect = u\<lparr>statusEffects := (statusEffects u)(effect := None)\<rparr>"

text \<open>The \<^verbatim>\<open>switch\<close> of \<^verbatim>\<open>processStatusEffects\<close>: the per-tick effect of one entry.\<close>

fun applyTick :: "StatusEffect \<Rightarrow> Unit \<Rightarrow> Unit" where
  "applyTick POISON u = takeDamage u 5 False ''Poison''"
| "applyTick BLEED u = takeDamage u 3 False ''Bleed''"
| "applyTick STRENGTH_UP u = u\<lparr>currentAttack := int32 (baseAttack u + 10)\<rparr>"
| "applyTick WEAKNESS u = u\<lparr>currentAttack := max 1 (int32 (baseAttack u - 5))\<rparr>"
| "applyTick _ u = u"

text \<open>
  The body of the first loop for the entry with key \<open>effect\<close>: apply the effect,
  decrement the stored duration in place, and note the key in \<open>toRemove\<close> when the
  duration is used up.
\<close>

definition tickEntry :: "StatusEffect \<Rightarrow> Unit \<times> StatusEffect list \<Rightarrow> Unit \<times> StatusEffect list" where
  "tickEntry effect st =
     (case st of (u, toRemove) \<Rightarrow>
        (case statusEffects u effect of
           None \<Rightarrow> (u, toRemove)
         | Some duration \<Rightarrow>
             (let u1 = applyTick effect u;
                  u2 = u1\<lparr>statusEffects := (statusEffects u1)(effect \<mapsto> duration - 1)\<rparr>
              in if duration - 1 \<le> 0
                 then (addToBattleLog u2
                         (name u2 @ [CHR 0x27] @ ''s '' @ statusNames effect @ '' wore off!''),
                       toRemove @ [effect])
                 else (u2, toRemove))))"

text \<open>The body of the second loop, over \<open>toRemove\<close>.\<close>

definition removeExpired :: "StatusEffect \<Rightarrow> Unit \<Rightarrow> Unit" where
  "removeExpired effect u =
     (let u1 = u\<lparr>statusEffects := (statusEffects u)(effect := None)\<rparr>
      in if effect = STRENGTH_UP \<or> effect = WEAKNESS
         then u1\<lparr>currentAttack := baseAttack u1\<rparr> else u1)"

text \<open>
  The first loop does not add or erase a key, so it visits the keys the table has when
  the loop starts, in key order.
\<close>

definition processStatusEffects :: "Unit \<Rightarrow> Unit" where
  "processStatusEffects u =
     (case fold tickEntry (map_keys (statusEffects u)) (u, []) of
        (u1, toRemove) \<Rightarrow> fold removeExpired toRemove u1)"

subsection \<open>Basic attack\<close>

text \<open>
  A method that changes both the caller and its target is a function of the pair
  \<open>(self, target)\<close>; in the game the two are always different objects (the player and
  the boss). The line \<^verbatim>\<open>"<target>'s HP: <before> -> <after>/<max>"\<close> that most actions
  log is \<open>hpLine\<close>.
\<close>

definition hpLine :: "Unit \<Rightarrow> int \<Rightarrow> string" where
  "hpLine u prevHealth =
     name u @ [CHR 0x27] @ ''s HP: '' @ to_string prevHealth @ '' -> '' @ to_string (health u)
       @ ''/'' @ to_string (maxHealth u)"

definition Unit_attack :: "Unit \<Rightarrow> Unit \<Rightarrow> Unit \<times> Unit" where
  "Unit_attack self target =
     (let targetPrevHealth = health target;
          self1 = addToBattleLog self
                    (name self @ '' attacks '' @ name target @ '' for ''
                       @ to_string (currentAttack self) @ '' damage!'');
          target1 = takeDamage target (currentAttack self1) True [];
          self2 = addToBattleLog self1 (hpLine target1 targetPrevHealth)
      in (self2, target1))"

text \<open>\<^verbatim>\<open>BossUnit::attack\<close> overrides \<^verbatim>\<open>Unit::attack\<close> with the same statements.\<close>

definition BossUnit_attack :: "Unit \<Rightarrow> Unit \<Rightarrow> Unit \<times> Unit" where
  "BossUnit_attack self target =
     (let targetPrevHealth = health target;
          self1 = addToBattleLog self
                    (name self @ '' attacks '' @ name target @ '' for ''
                       @ to_string (currentAttack self) @ '' damage!'');
          target1 = takeDamage target (currentAttack self1) True [];
          self2 = addToBattleLog self1 (hpLine target1 targetPrevHealth)
      in (self2, target1))"

definition attack :: "Unit \<Rightarrow> Unit \<Rightarrow> Unit \<times> Unit" where
  "attack self target =
     (case cls self of
        BossUnit n1 n2 n3 \<Rightarrow> BossUnit_attack self target
      | _ \<Rightarrow> Unit_attack self target)"

subsection \<open>Skills\<close>

text \<open>
  Every skill returns \<open>(success, self, target)\<close>. The costs are the values the class's
  own \<^verbatim>\<open>getSkillNCost\<close> returns.
\<close>

definition Warrior_useSkill1 :: "Unit \<Rightarrow> Unit \<Rightarrow> bool \<times> Unit \<times> Unit" where
  "Warrior_useSkill1 self target =
     (if mana self < 15 then (False, addToBattleLog self ''Not enough MP for Power Strike!'', target)
      else
        (let self1 = self\<lparr>mana := mana self - 15\<rparr>;
             dmg = int32 (currentAttack self1 + 25);
             targetPrevHealth = health target;
             self2 = addToBattleLog self1
                       (name self1 @ '' uses Power Strike on '' @ name target @ '' for ''
                          @ to_string dmg @ '' damage!'');
             target1 = takeDamage target dmg True [];
             self3 = addToBattleLog self2 (hpLine target1 targetPrevHealth)
         in (True, self3, target1)))"

definition Warrior_useSkill2 :: "Unit \<Rightarrow> Unit \<Rightarrow> bool \<times> Unit \<times> Unit" where
  "Warrior_useSkill2 self target =
     (if mana self < 10
      then (False, addToBattleLog self ''Not enough MP for Demoralizing Shout!'', target)
      else
        (let self1 = self\<lparr>mana := mana self - 10\<rparr>;
             targetPrevAttack = currentAttack target;
             self2 = addToBattleLog self1
                       (name self1 @ '' uses Demoralizing Shout on '' @ name target @ ''!'');
             target1 = addStatus target WEAKNESS 3 (name self2);
             self3 = addToBattleLog self2
                       (name target1 @ [CHR 0x27] @ ''s ATK: '' @ to_string targetPrevAttack
                          @ '' -> '' @ to_string (currentAttack target1))
         in (True, self3, target1)))"

definition Warrior_useSkill3 :: "Unit \<Rightarrow> Unit \<Rightarrow> bool \<times> Unit \<times> Unit" where
  "Warrior_useSkill3 self target =
     (if mana self < 20 then (False, addToBattleLog self ''Not enough MP for Battle Rage!'', target)
      else
        (let self1 = self\<lparr>mana := mana self - 20\<rparr>;
             prevAttack = currentAttack self1;
             self2 = addToBattleLog self1 (name self1 @ '' enters Battle Rage!'');
             self3 = addStatus self2 STRENGTH_UP 3 (name self2);
             self4 = addToBattleLog self3
                       (name self3 @ [CHR 0x27] @ ''s ATK: '' @ to_string prevAttack
                          @ '' -> '' @ to_string (currentAttack self3))
         in (True, self4, target)))"

definition Archer_useSkill1 :: "Unit \<Rightarrow> Unit \<Rightarrow> bool \<times> Unit \<times> Unit" where
  "Archer_useSkill1 self target =
     (if mana self < 10 then (False, addToBattleLog self ''Not enough MP for Poison Arrow!'', target)
      else
        (let self1 = self\<lparr>mana := mana self - 10\<rparr>;
             dmg = currentAttack self1;
             targetPrevHealth = health target;
             self2 = addToBattleLog self1
                       (name self1 @ '' shoots Poison Arrow at '' @ name target @ '' for ''
                          @ to_string dmg @ '' damage!'');
             target1 = takeDamage target dmg True [];
             target2 = addStatus target1 POISON 3 (name self2);
             self3 = addToBattleLog self2 (hpLine target2 targetPrevHealth)
         in (True, self3, target2)))"

definition Archer_useSkill2 :: "Unit \<Rightarrow> Unit \<Rightarrow> bool \<times> Unit \<times> Unit" where
  "Archer_useSkill2 self target =
     (if mana self < 15 then (False, addToBattleLog self ''Not enough MP for Piercing Shot!'', target)
      else
        (let self1 = self\<lparr>mana := mana self - 15\<rparr>;
             dmg = int32 (currentAttack self1 + 10);
             targetPrevHealth = health target;
             self2 = addToBattleLog self1
                       (name self1 @ '' uses Piercing Shot on '' @ name target @ '' for ''
                          @ to_string dmg @ '' damage!'');
             target1 = takeDamage target dmg True [];
             target2 = addStatus target1 BLEED 2 (name self2);
             self3 = addToBattleLog self2 (hpLine target2 targetPrevHealth)
         in (True, self3, target2)))"

definition Archer_useSkill3 :: "Unit \<Rightarrow> Unit \<Rightarrow> bool \<times> Unit \<times> Unit" where
  "Archer_useSkill3 self target =
     (if mana self < 20 then (False, addToBattleLog self ''Not enough MP for Double Shot!'', target)
      else
        (let self1 = self\<lparr>mana := mana self - 20\<rparr>;
             targetPrevHealth = health target;
             self2 = addToBattleLog self1
                       (name self1 @ '' uses Double Shot on '' @ name target @ ''!'');
             target1 = takeDamage target (currentAttack self2) True [];
             target2 = takeDamage target1 (currentAttack self2) True [];
             self3 = addToBattleLog self2 (hpLine target2 targetPrevHealth)
         in (True, self3, target2)))"

definition Mage_useSkill1 :: "Unit \<Rightarrow> Unit \<Rightarrow> bool \<times> Unit \<times> Unit" where
  "Mage_useSkill1 self target =
     (if mana self < 20 then (False, addToBattleLog self ''Not enough MP for Fireball!'', target)
      else
        (let self1 = self\<lparr>mana := mana self - 20\<rparr>;
             dmg = int32 (currentAttack self1 + 20);
             targetPrevHealth = health target;
             self2 = addToBattleLog self1
                       (name self1 @ '' casts Fireball on '' @ name target @ '' for ''
                          @ to_string dmg @ '' damage!'');
             target1 = takeDamage target dmg True [];
             self3 = addToBattleLog self2 (hpLine target1 targetPrevHealth)
         in (True, self3, target1)))"

definition Mage_useSkill2 :: "Unit \<Rightarrow> Unit \<Rightarrow> bool \<times> Unit \<times> Unit" where
  "Mage_useSkill2 self target =
     (if mana self < 15 then (False, addToBattleLog self ''Not enough MP for Ice Nova!'', target)
      else
        (let self1 = self\<lparr>mana := mana self - 15\<rparr>;
             self2 = addToBattleLog self1 (name self1 @ '' casts Ice Nova on '' @ name target @ ''!'');
             target1 = addStatus target STUN 1 (name self2);
             self3 = addToBattleLog self2 (name target1 @ '' is stunned for 1 turn!'')
         in (True, self3, target1)))"

definition Mage_useSkill3 :: "Unit \<Rightarrow> Unit \<Rightarrow> bool \<times> Unit \<times> Unit" where
  "Mage_useSkill3 self target =
     (if mana self < 25 then (False, addToBattleLog self ''Not enough MP for Life Drain!'', target)
      else
        (let self1 = self\<lparr>mana := mana self - 25\<rparr>;
             dmg = int32 (currentAttack self1 + 5);
             targetPrevHealth = health target;
             prevHealth = health self1;
             self2 = addToBattleLog self1
                       (name self1 @ '' drains life from '' @ name target @ '' for ''
                          @ to_string dmg @ '' damage!'');
             target1 = takeDamage target dmg True [];
             self3 = heal self2 (cpp_div dmg 2);
             self4 = addToBattleLog self3 (hpLine target1 targetPrevHealth);
             self5 = addToBattleLog self4 (hpLine self4 prevHealth)
         in (True, self5, target1)))"

text \<open>
  The skills of \<^verbatim>\<open>BossUnit\<close> read the boss's own skill name field, passed here as
  \<open>skillName\<close>.
\<close>

definition BossUnit_useSkill1 :: "string \<Rightarrow> Unit \<Rightarrow> Unit \<Rightarrow> bool \<times> Unit \<times> Unit" where
  "BossUnit_useSkill1 skillName self target =
     (if mana self < skillCost1
      then (False, addToBattleLog self
                     (name self @ '' doesn'' @ [CHR 0x27] @ ''t have enough MP for '' @ skillName @ ''!''),
            target)
      else
        (let self1 = self\<lparr>mana := mana self - skillCost1\<rparr>;
             dmg = int32 (currentAttack self1 + 20);
             targetPrevHealth = health target;
             self2 = addToBattleLog self1
                       (name self1 @ '' uses '' @ skillName @ '' on '' @ name target @ '' for ''
                          @ to_string dmg @ '' damage!'');
             target1 = takeDamage target dmg True [];
             self3 = addToBattleLog self2 (hpLine target1 targetPrevHealth)
         in (True, self3, target1)))"

definition BossUnit_useSkill2 :: "string \<Rightarrow> Unit \<Rightarrow> Unit \<Rightarrow> bool \<times> Unit \<times> Unit" where
  "BossUnit_useSkill2 skillName self target =
     (if mana self < skillCost2
      then (False, addToBattleLog self
                     (name self @ '' doesn'' @ [CHR 0x27] @ ''t have enough MP for '' @ skillName @ ''!''),
            target)
      else
        (let self1 = self\<lparr>mana := mana self - skillCost2\<rparr>;
             dmg = int32 (currentAttack self1 + 15);
             targetPrevHealth = health target;
             self2 = addToBattleLog self1
                       (name self1 @ '' uses '' @ skillName @ '' on '' @ name target @ '' for ''
                          @ to_string dmg @ '' damage!'');
             target1 = takeDamage target dmg True [];
             target2 = addStatus target1 POISON 3 (name self2);
             self3 = addToBattleLog self2 (hpLine target2 targetPrevHealth);
             self4 = addToBattleLog self3 (name target2 @ '' is poisoned for 3 turns!'')
         in (True, self4, target2)))"

definition BossUnit_useSkill3 :: "string \<Rightarrow> Unit \<Rightarrow> Unit \<Rightarrow> bool \<times> Unit \<times> Unit" where
  "BossUnit_useSkill3 skillName self target =
     (if mana self < skillCost3
      then (False, addToBattleLog self
                     (name self @ '' doesn'' @ [CHR 0x27] @ ''t have enough MP for '' @ skillName @ ''!''),
            target)
      else
        (let self1 = self\<lparr>mana := mana self - skillCost3\<rparr>;
             dmg = int32 (currentAttack self1 + 10);
             targetPrevHealth = health target;
             prevHealth = health self1;
             self2 = addToBattleLog self1
                       (name self1 @ '' uses '' @ skillName @ '' on '' @ name target @ '' for ''
                          @ to_string dmg @ '' damage!'');
             target1 = takeDamage target dmg True [];
             target2 = addStatus target1 STUN 1 (name self2);
             self3 = heal self2 20;
             self4 = addToBattleLog self3 (hpLine target2 targetPrevHealth);
             self5 = addToBattleLog self4 (name target2 @ '' is stunned for 1 turn!'');
             self6 = addToBattleLog self5 (hpLine self5 prevHealth)
         in (True, self6, target2)))"

text \<open>Virtual dispatch on the dynamic type.\<close>

definition useSkill1 :: "Unit \<Rightarrow> Unit \<Rightarrow> bool \<times> Unit \<times> Unit" where
  "useSkill1 self target =
     (case cls self of
        Warrior \<Rightarrow> Warrior_useSkill1 self target
      | Archer \<Rightarrow> Archer_useSkill1 self target
      | Mage \<Rightarrow> Mage_useSkill1 self target
      | BossUnit n1 n2 n3 \<Rightarrow> BossUnit_useSkill1 n1 self target)"

definition useSkill2 :: "Unit \<Rightarrow> Unit \<Rightarrow> bool \<times> Unit \<times> Unit" where
  "useSkill2 self target =
     (case cls self of
        Warrior \<Rightarrow> Warrior_useSkill2 self target
      | Archer \<Rightarrow> Archer_useSkill2 self target
      | Mage \<Rightarrow> Mage_useSkill2 self target
      | BossUnit n1 n2 n3 \<Rightarrow> BossUnit_useSkill2 n2 self target)"

definition useSkill3 :: "Unit \<Rightarrow> Unit \<Rightarrow> bool \<times> Unit \<times> Unit" where
  "useSkill3 self target =
     (case cls self of
        Warrior \<Rightarrow> Warrior_useSkill3 self target
      | Archer \<Rightarrow> Archer_useSkill3 self target
      | Mage \<Rightarrow> Mage_useSkill3 self target
      | BossUnit n1 n2 n3 \<Rightarrow> BossUnit_useSkill3 n3 self target)"

fun getSkill1Name :: "UnitClass \<Rightarrow> string" where
  "getSkill1Name Warrior = ''Power Strike''"
| "getSkill1Name Archer = ''Poison Arrow''"
| "getSkill1Name Mage = ''Fireball''"
| "getSkill1Name (BossUnit n1 n2 n3) = n1"

fun getSkill2Name :: "UnitClass \<Rightarrow> string" where
  "getSkill2Name Warrior = ''Demoralizing Shout''"
| "getSkill2Name Archer = ''Piercing Shot''"
| "getSkill2Name Mage = ''Ice Nova''"
| "getSkill2Name (BossUnit n1 n2 n3) = n2"

fun getSkill3Name :: "UnitClass \<Rightarrow> string" where
  "getSkill3Name Warrior = ''Battle Rage''"
| "getSkill3Name Archer = ''Double Shot''"
| "getSkill3Name Mage = ''Life Drain''"
| "getSkill3Name (BossUnit n1 n2 n3) = n3"

fun getSkill1Cost :: "UnitClass \<Rightarrow> int" where
  "getSkill1Cost Warrior = 15"
| "getSkill1Cost Archer = 10"
| "getSkill1Cost Mage = 20"
| "getSkill1Cost (BossUnit n1 n2 n3) = skillCost1"

fun getSkill2Cost :: "UnitClass \<Rightarrow> int" where
  "getSkill2Cost Warrior = 10"
| "getSkill2Cost Archer = 15"
| "getSkill2Cost Mage = 15"
| "getSkill2Cost (BossUnit n1 n2 n3) = skillCost2"

fun getSkill3Cost :: "UnitClass \<Rightarrow> int" where
  "getSkill3Cost Warrior = 20"
| "getSkill3Cost Archer = 20"
| "getSkill3Cost Mage = 25"
| "getSkill3Cost (BossUnit n1 n2 n3) = skillCost3"

text \<open>
  The entry a skill writes to the caller's battle log when the mana does not cover the
  cost: the three player classes log \<^verbatim>\<open>"Not enough MP for <skill>!"\<close>, a boss logs
  \<^verbatim>\<open>"<name> doesn't have enough MP for <skill>!"\<close>.
\<close>

definition insufficientMP :: "Unit \<Rightarrow> string \<Rightarrow> string" where
  "insufficientMP self skillName =
     (case cls self of
        BossUnit n1 n2 n3 \<Rightarrow>
          name self @ '' doesn'' @ [CHR 0x27] @ ''t have enough MP for '' @ skillName @ ''!''
      | _ \<Rightarrow> ''Not enough MP for '' @ skillName @ ''!'')"

section \<open>The game functions\<close>

text \<open>
  The two sources of input. \<open>cin\<close> is the sequence of integers the user enters, one per
  line; \<open>rng\<close> is the sequence of values \<^verbatim>\<open>rand()\<close> returns (never negative). A function
  that needs a value when the sequence is used up does not return (\<^verbatim>\<open>getValidInput\<close>
  would ask again forever): its result is \<open>None\<close>. The "Press Enter" pauses carry no
  decision and are left out.
\<close>

record Console =
  cin :: "int list"
  rng :: "nat list"

text \<open>\<^verbatim>\<open>getValidInput\<close>: ask again until the entry is within \<open>[minChoice, maxChoice]\<close>.\<close>

fun getValidInput :: "int \<Rightarrow> int \<Rightarrow> int list \<Rightarrow> (int \<times> int list) option" where
  "getValidInput minChoice maxChoice [] = None"
| "getValidInput minChoice maxChoice (choice # rest) =
     (if choice < minChoice \<or> choice > maxChoice then getValidInput minChoice maxChoice rest
      else Some (choice, rest))"

definition coinFlip :: "Console \<Rightarrow> (bool \<times> Console) option" where
  "coinFlip io =
     (case getValidInput 1 2 (cin io) of
        None \<Rightarrow> None
      | Some (choice, rest) \<Rightarrow>
          (case rng io of
             [] \<Rightarrow> None
           | r # rs \<Rightarrow>
               (let coinResult = (r mod 2 = 0);
                    playerWon = ((choice = 1 \<and> coinResult) \<or> (choice = 2 \<and> \<not> coinResult))
                in Some (playerWon, io\<lparr>cin := rest, rng := rs\<rparr>))))"

definition showSkillsMenu :: "Unit \<Rightarrow> Unit \<Rightarrow> Console \<Rightarrow> (Unit \<times> Unit \<times> Console) option" where
  "showSkillsMenu player target io =
     (case getValidInput 1 3 (cin io) of
        None \<Rightarrow> None
      | Some (skillChoice, rest) \<Rightarrow>
          (case (if skillChoice = 1 then useSkill1 player target
                 else if skillChoice = 2 then useSkill2 player target
                 else if skillChoice = 3 then useSkill3 player target
                 else (False, player, target)) of
             (skillUsed, player1, target1) \<Rightarrow>
               if \<not> skillUsed
               then (case attack player1 target1 of
                       (player2, target2) \<Rightarrow> Some (player2, target2, io\<lparr>cin := rest\<rparr>))
               else Some (player1, target1, io\<lparr>cin := rest\<rparr>)))"

text \<open>
  \<^verbatim>\<open>showInventory\<close> returns \<open>True\<close> exactly when a potion was used (the reference parameter
  \<^verbatim>\<open>usedPotion\<close> is set at the same place and never read by the caller).
\<close>

definition showInventory :: "Unit \<Rightarrow> Console \<Rightarrow> (bool \<times> Unit \<times> Console) option" where
  "showInventory u io =
     (if equipment u = [] \<and> potions u = [] then Some (False, u, io)
      else if potions u \<noteq> [] then
        (case getValidInput 0 (int (length (potions u))) (cin io) of
           None \<Rightarrow> None
         | Some (choice, rest) \<Rightarrow>
             if choice > 0 then Some (True, snd (usePotion u (choice - 1)), io\<lparr>cin := rest\<rparr>)
             else Some (False, u, io\<lparr>cin := rest\<rparr>))
      else Some (False, u, io))"

text \<open>
  The player's turn, written twice in \<^verbatim>\<open>gameLoop\<close> (once per branch of
  \<^verbatim>\<open>if (playerFirst)\<close>) with the same statements. The first component of the result says
  whether the turn ended in the \<^verbatim>\<open>continue\<close> of \<^verbatim>\<open>case 3\<close>; the call of
  \<^verbatim>\<open>processStatusEffects\<close> just before that \<^verbatim>\<open>continue\<close> is part of it.
\<close>

definition playerTurn :: "Unit \<Rightarrow> Unit \<Rightarrow> Console \<Rightarrow> (bool \<times> Unit \<times> Unit \<times> Console) option" where
  "playerTurn player boss io =
     (if hasStatus player STUN
      then Some (False,
                 clearStatus
                   (addToBattleLog player
                      ([CHR 0x1B] @ ''[1;35mYou are stunned and skip your turn!'' @ [CHR 0x1B] @ ''[0m''))
                   STUN,
                 boss, io)
      else
        (let player1 = addToBattleLog player ''\<newline>=== YOUR TURN ==='' in
         case getValidInput 1 4 (cin io) of
           None \<Rightarrow> None
         | Some (action, rest) \<Rightarrow>
             (let io1 = io\<lparr>cin := rest\<rparr> in
              if action = 1 then
                (case attack player1 boss of (player2, boss2) \<Rightarrow> Some (False, player2, boss2, io1))
              else if action = 2 then
                (case showSkillsMenu player1 boss io1 of
                   None \<Rightarrow> None
                 | Some (player2, boss2, io2) \<Rightarrow> Some (False, player2, boss2, io2))
              else if action = 3 then
                (case showInventory player1 io1 of
                   None \<Rightarrow> None
                 | Some (used, player2, io2) \<Rightarrow>
                     if used then Some (True, processStatusEffects player2, boss, io2)
                     else Some (False, player2, boss, io2))
              else if action = 4 then
                Some (False, addToBattleLog player1 ''You pass your turn.'', boss, io1)
              else Some (False, player1, boss, io1))))"

text \<open>
  The boss's turn, also written twice with the same statements. The results of
  \<^verbatim>\<open>useSkill1..3\<close> are discarded, as in the source.
\<close>

definition bossTurn :: "Unit \<Rightarrow> Unit \<Rightarrow> Console \<Rightarrow> (Unit \<times> Unit \<times> Console) option" where
  "bossTurn player boss io =
     (let player1 = addToBattleLog player
                      (''\<newline>=== '' @ name boss @ [CHR 0x27] @ ''s TURN ==='') in
      if hasStatus boss STUN
      then Some (addToBattleLog player1
                   ([CHR 0x1B] @ ''[1;35m'' @ name boss @ '' is stunned and skips turn!''
                      @ [CHR 0x1B] @ ''[0m''),
                 clearStatus boss STUN, io)
      else
        (case rng io of
           [] \<Rightarrow> None
         | r # rs \<Rightarrow>
             (let bossAction = r mod 4; io1 = io\<lparr>rng := rs\<rparr> in
              if bossAction = 3 then
                (case attack boss (addToBattleLog player1 (name boss @ '' chooses to attack!'')) of
                   (boss2, player2) \<Rightarrow> Some (player2, boss2, io1))
              else if bossAction = 0 then
                (case useSkill1 boss
                        (addToBattleLog player1
                           (name boss @ '' uses '' @ getSkill1Name (cls boss) @ ''!'')) of
                   (used, boss2, player2) \<Rightarrow> Some (player2, boss2, io1))
              else if bossAction = 1 then
                (case useSkill2 boss
                        (addToBattleLog player1
                           (name boss @ '' uses '' @ getSkill2Name (cls boss) @ ''!'')) of
                   (used, boss2, player2) \<Rightarrow> Some (player2, boss2, io1))
              else if bossAction = 2 then
                (case useSkill3 boss
                        (addToBattleLog player1
                           (name boss @ '' uses '' @ getSkill3Name (cls boss) @ ''!'')) of
                   (used, boss2, player2) \<Rightarrow> Some (player2, boss2, io1))
              else Some (player1, boss, io1))))"

subsection \<open>One battle\<close>

text \<open>
  To state who acts when, the model records a trace of events beside the state: the start
  of a stage, the result of its coin flip, the start of each iteration of the combat
  loop, and each turn (a turn skipped because of a stun is still that side's turn). The
  trace is only written, never read.
\<close>

datatype Side = PlayerSide | BossSide

datatype Event = StageStart int | CoinFlipped bool | RoundStart | Turn Side

text \<open>How one iteration of the combat loop ends.\<close>

datatype LoopCtl =
  NextIteration  \<comment> \<open>the end of the body, or \<^verbatim>\<open>continue\<close>\<close>
  | Break        \<comment> \<open>\<^verbatim>\<open>break\<close> out of the combat loop\<close>
  | Return       \<comment> \<open>\<^verbatim>\<open>return\<close> out of \<^verbatim>\<open>gameLoop\<close>\<close>

type_synonym BattleState = "Unit \<times> Unit \<times> Console \<times> Event list"

text \<open>The body of \<^verbatim>\<open>while (player->isAlive() && boss->isAlive())\<close>.\<close>

definition combatRound :: "bool \<Rightarrow> BattleState \<Rightarrow> (LoopCtl \<times> BattleState) option" where
  "combatRound playerFirst st =
     (case st of (player0, boss0, io, tr0) \<Rightarrow>
        (let player = clearBattleLog player0;
             boss = clearBattleLog boss0;
             tr = tr0 @ [RoundStart]
         in
         if playerFirst then
           (case playerTurn player boss io of
              None \<Rightarrow> None
            | Some (continued, player1, boss1, io1) \<Rightarrow>
                if continued then Some (NextIteration, player1, boss1, io1, tr @ [Turn PlayerSide])
                else
                  (let player2 = processStatusEffects player1 in
                   if \<not> isAlive boss1
                   then Some (Break, player2, boss1, io1, tr @ [Turn PlayerSide])
                   else
                     (case bossTurn player2 boss1 io1 of
                        None \<Rightarrow> None
                      | Some (player3, boss3, io3) \<Rightarrow>
                          Some (NextIteration, player3, processStatusEffects boss3, io3,
                                tr @ [Turn PlayerSide, Turn BossSide]))))
         else
           (case bossTurn player boss io of
              None \<Rightarrow> None
            | Some (player1, boss1, io1) \<Rightarrow>
                (let boss2 = clearBattleLog (processStatusEffects boss1);
                     player2 = clearBattleLog player1
                 in
                 if \<not> isAlive player2
                 then Some (Return, player2, boss2, io1, tr @ [Turn BossSide])
                 else
                   (case playerTurn player2 boss2 io1 of
                      None \<Rightarrow> None
                    | Some (continued, player3, boss3, io3) \<Rightarrow>
                        if continued
                        then Some (NextIteration, player3, boss3, io3,
                                   tr @ [Turn BossSide, Turn PlayerSide])
                        else Some (NextIteration, processStatusEffects player3, boss3, io3,
                                   tr @ [Turn BossSide, Turn PlayerSide]))))))"

text \<open>
  The combat loop. It can run forever (both sides can go on without hurting each other),
  so \<open>battle fuel\<close> runs at most \<open>fuel\<close> iterations, and every prefix of a run is a
  result: \<open>NextIteration\<close> with the state reached says that the loop has not ended after
  \<open>fuel\<close> iterations and goes on from that state. \<open>None\<close> means that the input ran out
  within these iterations. When the loop condition fails the loop ends like a
  \<^verbatim>\<open>break\<close>.
\<close>

fun battle :: "nat \<Rightarrow> bool \<Rightarrow> BattleState \<Rightarrow> (LoopCtl \<times> BattleState) option" where
  "battle 0 playerFirst (player, boss, io, tr) =
     (if \<not> (isAlive player \<and> isAlive boss) then Some (Break, player, boss, io, tr)
      else Some (NextIteration, player, boss, io, tr))"
| "battle (Suc fuel) playerFirst (player, boss, io, tr) =
     (if \<not> (isAlive player \<and> isAlive boss) then Some (Break, player, boss, io, tr)
      else
        (case combatRound playerFirst (player, boss, io, tr) of
           None \<Rightarrow> None
         | Some (NextIteration, st') \<Rightarrow> battle fuel playerFirst st'
         | Some (Break, st') \<Rightarrow> Some (Break, st')
         | Some (Return, st') \<Rightarrow> Some (Return, st')))"

subsection \<open>The campaign\<close>

definition bossNames :: "string list" where
  "bossNames = [''Goblin King'', ''Shadow Knight'', ''Crimson Wraith'', ''Lich Queen'', ''Doom Reaper'']"

definition bossSkill1 :: "string list" where
  "bossSkill1 = [''Goblin Smash'', ''Shadow Blade'', ''Crimson Slash'', ''Necroflame'', ''Void Strike'']"

definition bossSkill2 :: "string list" where
  "bossSkill2 = [''Poison Cloud'', ''Dark Mist'', ''Blood Curse'', ''Soul Drain'', ''Void Corruption'']"

definition bossSkill3 :: "string list" where
  "bossSkill3 = [''Stunning Roar'', ''Shadow Bind'', ''Crimson Howl'', ''Necrotic Heal'', ''Void Stasis'']"

text \<open>The boss of a stage; \<open>stage\<close> runs from 1 to 5, so every index is in range.\<close>

definition createBoss :: "int \<Rightarrow> Unit" where
  "createBoss stage =
     (let bossIndex = nat (stage - 1)
      in new_BossUnit (bossNames ! bossIndex) (bossSkill1 ! bossIndex) (bossSkill2 ! bossIndex)
           (bossSkill3 ! bossIndex) (10 + stage * 5) (70 + stage * 20) (stage - 1))"

text \<open>The loop of \<^verbatim>\<open>generateRandomPotions\<close>, \<open>numPotions\<close> iterations.\<close>

fun potionLoop :: "nat \<Rightarrow> nat list \<Rightarrow> (Item list \<times> nat list) option" where
  "potionLoop 0 rs = Some ([], rs)"
| "potionLoop (Suc n) [] = None"
| "potionLoop (Suc n) (r # rs) =
     (case potionLoop n rs of
        None \<Rightarrow> None
      | Some (ps, rs') \<Rightarrow> Some ((if r mod 2 = 0 then HealthPotion else ManaPotion) # ps, rs'))"

definition generateRandomPotions :: "nat list \<Rightarrow> (Item list \<times> nat list) option" where
  "generateRandomPotions rs0 =
     (case rs0 of [] \<Rightarrow> None | r # rs \<Rightarrow> potionLoop (r mod 3 + 1) rs)"

definition allItems :: "Item list" where
  "allItems = [FireSword, IceShield, VampireRing, PoisonDagger, DragonScale, LightningOrb]"

text \<open>
  The \<^verbatim>\<open>do ... while\<close> of \<^verbatim>\<open>generateRandomItems\<close>: draw until the index is not among
  \<open>usedIndices\<close>.
\<close>

fun drawIndex :: "nat list \<Rightarrow> nat list \<Rightarrow> (nat \<times> nat list) option" where
  "drawIndex usedIndices [] = None"
| "drawIndex usedIndices (r # rs) =
     (let randomIndex = r mod length allItems
      in if randomIndex \<in> set usedIndices then drawIndex usedIndices rs
         else Some (randomIndex, rs))"

definition generateRandomItems :: "nat list \<Rightarrow> (Item list \<times> nat list) option" where
  "generateRandomItems rs0 =
     (case drawIndex [] rs0 of
        None \<Rightarrow> None
      | Some (i1, rs1) \<Rightarrow>
          (case drawIndex [i1] rs1 of
             None \<Rightarrow> None
           | Some (i2, rs2) \<Rightarrow>
               (case drawIndex [i1, i2] rs2 of
                  None \<Rightarrow> None
                | Some (i3, rs3) \<Rightarrow> Some ([allItems ! i1, allItems ! i2, allItems ! i3], rs3))))"

text \<open>The \<^verbatim>\<open>switch (upgrade)\<close> after a stage.\<close>

definition applyUpgrade :: "int \<Rightarrow> Unit \<Rightarrow> Unit" where
  "applyUpgrade upgrade player =
     (if upgrade = 1 then heal player 30
      else if upgrade = 2 then restoreMana player 20
      else if upgrade = 3 then increaseAttack player 5
      else if upgrade = 4 then increaseDefense player 3
      else player)"

text \<open>What follows a won battle: the potion drop and, before stage 5, the upgrade and the item.\<close>

definition stageRewards :: "int \<Rightarrow> Unit \<Rightarrow> Console \<Rightarrow> (Unit \<times> Console) option" where
  "stageRewards stage player io =
     (case generateRandomPotions (rng io) of
        None \<Rightarrow> None
      | Some (droppedPotions, rs1) \<Rightarrow>
          (let player1 = fold (\<lambda>potion p. addItem p potion) droppedPotions player in
           if stage < 5 then
             (case getValidInput 1 4 (cin io) of
                None \<Rightarrow> None
              | Some (upgrade, rest1) \<Rightarrow>
                  (case generateRandomItems rs1 of
                     None \<Rightarrow> None
                   | Some (itemChoices, rs2) \<Rightarrow>
                       (case getValidInput 1 3 rest1 of
                          None \<Rightarrow> None
                        | Some (itemChoice, rest2) \<Rightarrow>
                            Some (addItem (applyUpgrade upgrade player1)
                                    (itemChoices ! nat (itemChoice - 1)),
                                  io\<lparr>cin := rest2, rng := rs2\<rparr>))))
           else Some (player1, io\<lparr>rng := rs1\<rparr>)))"

text \<open>
  The \<^verbatim>\<open>for (int stage = 1; stage <= 5; ++stage)\<close> loop over the stages still to play;
  each combat loop is run for at most \<open>fuel\<close> iterations. The result is the player, the
  input left and the trace at the point reached, with a flag: \<open>True\<close> when the loop over
  the stages has ended (all stages played, or the player defeated), \<open>False\<close> when a combat
  loop has not ended after \<open>fuel\<close> iterations.
\<close>

fun stagesLoop :: "nat \<Rightarrow> int list \<Rightarrow> Unit \<Rightarrow> Console \<Rightarrow> Event list
    \<Rightarrow> (Unit \<times> Console \<times> Event list \<times> bool) option" where
  "stagesLoop fuel [] player io tr = Some (player, io, tr, True)"
| "stagesLoop fuel (stage # stages) player io tr =
     (case coinFlip io of
        None \<Rightarrow> None
      | Some (playerFirst, io1) \<Rightarrow>
          (case battle fuel playerFirst
                  (player, createBoss stage, io1, tr @ [StageStart stage, CoinFlipped playerFirst]) of
             None \<Rightarrow> None
           | Some (ctl, player1, boss1, io2, tr2) \<Rightarrow>
               if ctl = NextIteration then Some (player1, io2, tr2, False)
               else if ctl = Return then Some (player1, io2, tr2, True)
               else if \<not> isAlive player1 then Some (player1, io2, tr2, True)
               else
                 (case stageRewards stage player1 io2 of
                    None \<Rightarrow> None
                  | Some (player2, io3) \<Rightarrow> stagesLoop fuel stages player2 io3 tr2)))"

definition gameLoop :: "nat \<Rightarrow> Unit \<Rightarrow> Console \<Rightarrow> (Unit \<times> Console \<times> Event list \<times> bool) option" where
  "gameLoop fuel player io = stagesLoop fuel [1, 2, 3, 4, 5] player io []"

section \<open>Notions used in the statements\<close>

subsection \<open>The trace and the order of the turns\<close>

text \<open>
  The side that the coin flip puts first, and the events of one iteration of the combat
  loop under that order: the iteration opens with the turn of the first side, and the
  other side's turn may follow.
\<close>

definition firstSide :: "bool \<Rightarrow> Side" where
  "firstSide playerFirst = (if playerFirst then PlayerSide else BossSide)"

definition roundOf :: "bool \<Rightarrow> Event list \<Rightarrow> bool" where
  "roundOf playerFirst r =
     (r = [RoundStart, Turn (firstSide playerFirst)]
      \<or> r = [RoundStart, Turn (firstSide playerFirst), Turn (firstSide (\<not> playerFirst))])"

text \<open>
  The events of one stage, given its number, the result of its coin flip and the events
  of its iterations: the stage starts, the coin is flipped once, the iterations follow.
  The stage is \<open>stageOrdered\<close> when every iteration follows the order of that coin flip.
\<close>

definition stageEvents :: "int \<times> bool \<times> Event list list \<Rightarrow> Event list" where
  "stageEvents s = (case s of (n, playerFirst, rounds) \<Rightarrow>
     StageStart n # CoinFlipped playerFirst # concat rounds)"

definition stageOrdered :: "int \<times> bool \<times> Event list list \<Rightarrow> bool" where
  "stageOrdered s = (case s of (n, playerFirst, rounds) \<Rightarrow> list_all (roundOf playerFirst) rounds)"

text \<open>
  The turn of a side, as both branches of the combat loop run it: the side acts (or skips
  the action when stunned), then its own status effects tick. The first component of the
  result says that the turn has ended the iteration at once (the \<^verbatim>\<open>continue\<close> of the
  player's turn, which ticks before it leaves).
\<close>

definition sideTurn :: "Side \<Rightarrow> Unit \<Rightarrow> Unit \<Rightarrow> Console \<Rightarrow> (bool \<times> Unit \<times> Unit \<times> Console) option" where
  "sideTurn side player boss io =
     (case side of
        PlayerSide \<Rightarrow>
          (case playerTurn player boss io of
             None \<Rightarrow> None
           | Some (continued, player1, boss1, io1) \<Rightarrow>
               Some (continued, (if continued then player1 else processStatusEffects player1),
                     boss1, io1))
      | BossSide \<Rightarrow>
          (case bossTurn player boss io of
             None \<Rightarrow> None
           | Some (player1, boss1, io1) \<Rightarrow> Some (False, player1, processStatusEffects boss1, io1)))"

definition sideAlive :: "Side \<Rightarrow> Unit \<Rightarrow> Unit \<Rightarrow> bool" where
  "sideAlive side player boss = (case side of PlayerSide \<Rightarrow> isAlive player | BossSide \<Rightarrow> isAlive boss)"

text \<open>
  One iteration of the combat loop written from the order alone, to be compared with
  \<open>combatRound\<close>: the turn of the first side; the iteration ends there when that turn
  says so or leaves the second side dead; otherwise the turn of the second side follows.
  The two branches of the source differ beside the order in two points, kept here: with
  the boss first both logs are cleared after its turn, and a dead player then ends
  \<^verbatim>\<open>gameLoop\<close> (\<^verbatim>\<open>return\<close>) where a dead boss ends the loop (\<^verbatim>\<open>break\<close>).
\<close>

definition orderedRound :: "bool \<Rightarrow> BattleState \<Rightarrow> (LoopCtl \<times> BattleState) option" where
  "orderedRound playerFirst st =
     (case st of (player0, boss0, io, tr0) \<Rightarrow>
        (let first = firstSide playerFirst; second = firstSide (\<not> playerFirst) in
         case sideTurn first (clearBattleLog player0) (clearBattleLog boss0) io of
           None \<Rightarrow> None
         | Some (ended, player1, boss1, io1) \<Rightarrow>
             (let player2 = (if playerFirst then player1 else clearBattleLog player1);
                  boss2 = (if playerFirst then boss1 else clearBattleLog boss1);
                  tr1 = tr0 @ [RoundStart, Turn first]
              in
              if ended then Some (NextIteration, player2, boss2, io1, tr1)
              else if \<not> sideAlive second player2 boss2
              then Some ((if playerFirst then Break else Return), player2, boss2, io1, tr1)
              else
                (case sideTurn second player2 boss2 io1 of
                   None \<Rightarrow> None
                 | Some (ended2, player3, boss3, io3) \<Rightarrow>
                     Some (NextIteration, player3, boss3, io3, tr1 @ [Turn second])))))"

subsection \<open>Status effects and the bounds on the stats\<close>

text \<open>The underlying value of an enumerator of \<^verbatim>\<open>StatusEffect\<close>.\<close>

fun ordinal :: "StatusEffect \<Rightarrow> nat" where
  "ordinal NONE = 0"
| "ordinal POISON = 1"
| "ordinal BLEED = 2"
| "ordinal STUN = 3"
| "ordinal STRENGTH_UP = 4"
| "ordinal WEAKNESS = 5"

text \<open>An entry that the next call of \<^verbatim>\<open>processStatusEffects\<close> removes.\<close>

definition expiring :: "Unit \<Rightarrow> StatusEffect \<Rightarrow> bool" where
  "expiring u e = (case statusEffects u e of None \<Rightarrow> False | Some d \<Rightarrow> d - 1 \<le> 0)"

text \<open>With neither attack modifier in the table, the attack is the base attack.\<close>

definition settled :: "Unit \<Rightarrow> bool" where
  "settled u = (statusEffects u STRENGTH_UP = None \<and> statusEffects u WEAKNESS = None
                  \<longrightarrow> currentAttack u = baseAttack u)"

text \<open>The invariant of the vital stats.\<close>

definition vitals_ok :: "Unit \<Rightarrow> bool" where
  "vitals_ok u = (0 \<le> health u \<and> health u \<le> maxHealth u \<and> 0 \<le> mana u \<and> mana u \<le> maxMana u)"

text \<open>
  The invariant with what it needs to be kept by every step of the game, for a bound
  \<open>B\<close> on the stats: the maxima and the base attack are at most \<open>B\<close>, the attack values
  are not negative, the current attack is at most \<open>B + 10\<close> (the bonus of STRENGTH_UP),
  and every potion held restores between 0 and 30 points (the two potions of the game
  restore 30 and 20).
\<close>

definition unit_inv :: "int \<Rightarrow> Unit \<Rightarrow> bool" where
  "unit_inv B u = (vitals_ok u \<and> maxHealth u \<le> B \<and> maxMana u \<le> B
                     \<and> 0 \<le> baseAttack u \<and> baseAttack u \<le> B
                     \<and> 0 \<le> currentAttack u \<and> currentAttack u \<le> B + 10
                     \<and> list_all (\<lambda>p. 0 \<le> amount p \<and> amount p \<le> 30) (potions u))"

section \<open>Properties\<close>

subsection \<open>32-bit arithmetic\<close>

lemma int32_id: "- 2147483648 \<le> x \<Longrightarrow> x < 2147483648 \<Longrightarrow> int32 x = x"
  by (simp add: int32_def)

lemma int32_range: "- 2147483648 \<le> int32 x" "int32 x < 2147483648"
  by (simp_all add: int32_def)

subsection \<open>Damage\<close>

lemma takeDamage_health_raw:
  "health (takeDamage u d sb src) = max 0 (int32 (health u - max 1 (int32 (d - defense u))))"
  by (simp add: takeDamage_def addToBattleLog_def Let_def)

lemma takeDamage_fields [simp]:
  "maxHealth (takeDamage u d sb src) = maxHealth u"
  "mana (takeDamage u d sb src) = mana u"
  "maxMana (takeDamage u d sb src) = maxMana u"
  "baseAttack (takeDamage u d sb src) = baseAttack u"
  "currentAttack (takeDamage u d sb src) = currentAttack u"
  "defense (takeDamage u d sb src) = defense u"
  "statusEffects (takeDamage u d sb src) = statusEffects u"
  "equipment (takeDamage u d sb src) = equipment u"
  "potions (takeDamage u d sb src) = potions u"
  "name (takeDamage u d sb src) = name u"
  "cls (takeDamage u d sb src) = cls u"
  by (simp_all add: takeDamage_def addToBattleLog_def Let_def)

text \<open>
  The damage that lands is between 1 and the greatest \<^verbatim>\<open>int\<close>, so for a health within
  \<open>[0, 2^31 - 1]\<close> the second subtraction of \<^verbatim>\<open>takeDamage\<close> never wraps.
\<close>

lemma takeDamage_health:
  assumes "0 \<le> health u" and "health u < 2147483648"
  shows "health (takeDamage u d sb src) = max 0 (health u - max 1 (int32 (d - defense u)))"
proof -
  have "1 \<le> max 1 (int32 (d - defense u))" "max 1 (int32 (d - defense u)) < 2147483648"
    using int32_range(2) [of "d - defense u"] by simp_all
  then have "int32 (health u - max 1 (int32 (d - defense u))) = health u - max 1 (int32 (d - defense u))"
    using assms by (intro int32_id) linarith+
  then show ?thesis by (simp add: takeDamage_health_raw)
qed

text \<open>
  The first subtraction does wrap: a Warrior (defense 2) that is dealt the least \<^verbatim>\<open>int\<close>
  loses all its health.
\<close>

lemma takeDamage_wraps_example:
  "health (takeDamage (new_Warrior ''Hero'') (- 2147483648) True []) = 0"
  by (simp add: takeDamage_health_raw int32_def new_Warrior_def new_Unit_def)

text \<open>
  C1. For a unit with \<open>0 \<le> health \<le> maxHealth\<close>, \<^verbatim>\<open>takeDamage(d)\<close> leaves
  \<open>health = max 0 (health - max 1 (d - defense))\<close>, the difference \<open>d - defense\<close> being the
  32-bit one; it is the mathematical difference whenever that fits in an \<^verbatim>\<open>int\<close>. The
  damage that lands is at least 1 whatever the defense (the health drops by at least 1 or
  reaches 0), the health never becomes negative and it stays within \<open>[0, maxHealth]\<close>.
\<close>

theorem C1_takeDamage_health:
  assumes "0 \<le> health u" and "health u \<le> maxHealth u" and "maxHealth u < 2147483648"
  shows "(- 2147483648 \<le> d - defense u \<and> d - defense u < 2147483648 \<longrightarrow>
            health (takeDamage u d sb src) = max 0 (health u - max 1 (d - defense u)))
       \<and> health (takeDamage u d sb src) = max 0 (health u - max 1 (int32 (d - defense u)))
       \<and> 1 \<le> max 1 (int32 (d - defense u))
       \<and> health (takeDamage u d sb src) \<le> max 0 (health u - 1)
       \<and> 0 \<le> health (takeDamage u d sb src)
       \<and> health (takeDamage u d sb src) \<le> maxHealth (takeDamage u d sb src)"
proof -
  have h: "health (takeDamage u d sb src) = max 0 (health u - max 1 (int32 (d - defense u)))"
    using assms by (intro takeDamage_health) linarith+
  have "health (takeDamage u d sb src) = max 0 (health u - max 1 (d - defense u))"
    if "- 2147483648 \<le> d - defense u \<and> d - defense u < 2147483648"
    using that h by (simp add: int32_id)
  moreover have "health (takeDamage u d sb src) \<le> max 0 (health u - 1)"
    "0 \<le> health (takeDamage u d sb src)"
    "health (takeDamage u d sb src) \<le> maxHealth (takeDamage u d sb src)"
    using assms unfolding h by (simp_all add: max_def)
  ultimately show ?thesis using h by simp
qed

theorem C1_takeDamage_health_witness:
  "0 \<le> health (new_Warrior ''Hero'') \<and> health (new_Warrior ''Hero'') \<le> maxHealth (new_Warrior ''Hero'')
   \<and> maxHealth (new_Warrior ''Hero'') < 2147483648
   \<and> - 2147483648 \<le> 12 - defense (new_Warrior ''Hero'') \<and> 12 - defense (new_Warrior ''Hero'') < 2147483648
   \<and> health (takeDamage (new_Warrior ''Hero'') 12 True []) = 110"
  using C1_takeDamage_health [of "new_Warrior ''Hero''" 12 True "[]"]
  by (simp add: new_Warrior_def new_Unit_def)

subsection \<open>Skills without enough mana\<close>

text \<open>
  C2. For every unit and each of its three skills: when the mana is below the skill's cost,
  the call returns \<open>False\<close>, appends the insufficient-MP entry to the caller's battle log
  and changes nothing else of the caller (so the mana stays) and nothing of the target;
  calling the skill again on the result fails again with the mana and the target unchanged.
\<close>

theorem C2_skill_without_mana_fails:
  "(mana self < getSkill1Cost (cls self) \<longrightarrow>
      (case useSkill1 self target of (ok1, self1, target1) \<Rightarrow>
         \<not> ok1 \<and> target1 = target \<and> mana self1 = mana self
         \<and> self1 = self\<lparr>battleLog := battleLog self @ [insufficientMP self (getSkill1Name (cls self))]\<rparr>
         \<and> (case useSkill1 self1 target1 of (ok2, self2, target2) \<Rightarrow>
               \<not> ok2 \<and> target2 = target \<and> mana self2 = mana self)))
 \<and> (mana self < getSkill2Cost (cls self) \<longrightarrow>
      (case useSkill2 self target of (ok1, self1, target1) \<Rightarrow>
         \<not> ok1 \<and> target1 = target \<and> mana self1 = mana self
         \<and> self1 = self\<lparr>battleLog := battleLog self @ [insufficientMP self (getSkill2Name (cls self))]\<rparr>
         \<and> (case useSkill2 self1 target1 of (ok2, self2, target2) \<Rightarrow>
               \<not> ok2 \<and> target2 = target \<and> mana self2 = mana self)))
 \<and> (mana self < getSkill3Cost (cls self) \<longrightarrow>
      (case useSkill3 self target of (ok1, self1, target1) \<Rightarrow>
         \<not> ok1 \<and> target1 = target \<and> mana self1 = mana self
         \<and> self1 = self\<lparr>battleLog := battleLog self @ [insufficientMP self (getSkill3Name (cls self))]\<rparr>
         \<and> (case useSkill3 self1 target1 of (ok2, self2, target2) \<Rightarrow>
               \<not> ok2 \<and> target2 = target \<and> mana self2 = mana self)))"
proof (intro conjI)
  show "mana self < getSkill1Cost (cls self) \<longrightarrow>
      (case useSkill1 self target of (ok1, self1, target1) \<Rightarrow>
         \<not> ok1 \<and> target1 = target \<and> mana self1 = mana self
         \<and> self1 = self\<lparr>battleLog := battleLog self @ [insufficientMP self (getSkill1Name (cls self))]\<rparr>
         \<and> (case useSkill1 self1 target1 of (ok2, self2, target2) \<Rightarrow>
               \<not> ok2 \<and> target2 = target \<and> mana self2 = mana self))"
    by (cases "cls self")
       (simp_all add: useSkill1_def Warrior_useSkill1_def Archer_useSkill1_def Mage_useSkill1_def
          BossUnit_useSkill1_def skillCost1_def insufficientMP_def addToBattleLog_def)
  show "mana self < getSkill2Cost (cls self) \<longrightarrow>
      (case useSkill2 self target of (ok1, self1, target1) \<Rightarrow>
         \<not> ok1 \<and> target1 = target \<and> mana self1 = mana self
         \<and> self1 = self\<lparr>battleLog := battleLog self @ [insufficientMP self (getSkill2Name (cls self))]\<rparr>
         \<and> (case useSkill2 self1 target1 of (ok2, self2, target2) \<Rightarrow>
               \<not> ok2 \<and> target2 = target \<and> mana self2 = mana self))"
    by (cases "cls self")
       (simp_all add: useSkill2_def Warrior_useSkill2_def Archer_useSkill2_def Mage_useSkill2_def
          BossUnit_useSkill2_def skillCost2_def insufficientMP_def addToBattleLog_def)
  show "mana self < getSkill3Cost (cls self) \<longrightarrow>
      (case useSkill3 self target of (ok1, self1, target1) \<Rightarrow>
         \<not> ok1 \<and> target1 = target \<and> mana self1 = mana self
         \<and> self1 = self\<lparr>battleLog := battleLog self @ [insufficientMP self (getSkill3Name (cls self))]\<rparr>
         \<and> (case useSkill3 self1 target1 of (ok2, self2, target2) \<Rightarrow>
               \<not> ok2 \<and> target2 = target \<and> mana self2 = mana self))"
    by (cases "cls self")
       (simp_all add: useSkill3_def Warrior_useSkill3_def Archer_useSkill3_def Mage_useSkill3_def
          BossUnit_useSkill3_def skillCost3_def insufficientMP_def addToBattleLog_def)
qed

theorem C2_skill_without_mana_fails_witness:
  "mana ((new_Warrior ''Hero'')\<lparr>mana := 5\<rparr>) < getSkill1Cost (cls ((new_Warrior ''Hero'')\<lparr>mana := 5\<rparr>))
   \<and> mana ((new_Warrior ''Hero'')\<lparr>mana := 5\<rparr>) < getSkill2Cost (cls ((new_Warrior ''Hero'')\<lparr>mana := 5\<rparr>))
   \<and> mana ((new_Warrior ''Hero'')\<lparr>mana := 5\<rparr>) < getSkill3Cost (cls ((new_Warrior ''Hero'')\<lparr>mana := 5\<rparr>))
   \<and> useSkill1 ((new_Warrior ''Hero'')\<lparr>mana := 5\<rparr>) (createBoss 1)
       = (False, (new_Warrior ''Hero'')\<lparr>mana := 5, battleLog := [''Not enough MP for Power Strike!'']\<rparr>,
          createBoss 1)
   \<and> useSkill2 ((new_Warrior ''Hero'')\<lparr>mana := 5\<rparr>) (createBoss 1)
       = (False, (new_Warrior ''Hero'')\<lparr>mana := 5, battleLog := [''Not enough MP for Demoralizing Shout!'']\<rparr>,
          createBoss 1)
   \<and> useSkill3 ((new_Warrior ''Hero'')\<lparr>mana := 5\<rparr>) (createBoss 1)
       = (False, (new_Warrior ''Hero'')\<lparr>mana := 5, battleLog := [''Not enough MP for Battle Rage!'']\<rparr>,
          createBoss 1)"
  using C2_skill_without_mana_fails [of "(new_Warrior ''Hero'')\<lparr>mana := 5\<rparr>" "createBoss 1"]
  by (simp add: new_Warrior_def new_Unit_def insufficientMP_def split: prod.splits)

lemma boss_skill_without_mana_example:
  "useSkill1 ((createBoss 1)\<lparr>mana := 10\<rparr>) (new_Mage ''Hero'')
       = (False, (createBoss 1)\<lparr>mana := 10, battleLog := [''Goblin King doesn't have enough MP for Goblin Smash!'']\<rparr>,
          new_Mage ''Hero'')"
  by (simp add: useSkill1_def createBoss_def new_BossUnit_def new_Unit_def BossUnit_useSkill1_def
        skillCost1_def addToBattleLog_def bossNames_def bossSkill1_def)

subsection \<open>Status effects\<close>

lemma addToBattleLog_fields [simp]:
  "health (addToBattleLog u m) = health u"
  "maxHealth (addToBattleLog u m) = maxHealth u"
  "mana (addToBattleLog u m) = mana u"
  "maxMana (addToBattleLog u m) = maxMana u"
  "baseAttack (addToBattleLog u m) = baseAttack u"
  "currentAttack (addToBattleLog u m) = currentAttack u"
  "defense (addToBattleLog u m) = defense u"
  "statusEffects (addToBattleLog u m) = statusEffects u"
  "equipment (addToBattleLog u m) = equipment u"
  "potions (addToBattleLog u m) = potions u"
  "name (addToBattleLog u m) = name u"
  "cls (addToBattleLog u m) = cls u"
  "battleLog (addToBattleLog u m) = battleLog u @ [m]"
  by (simp_all add: addToBattleLog_def)

lemma applyTick_fields [simp]:
  "baseAttack (applyTick e u) = baseAttack u"
  "statusEffects (applyTick e u) = statusEffects u"
  "maxHealth (applyTick e u) = maxHealth u"
  "mana (applyTick e u) = mana u"
  "maxMana (applyTick e u) = maxMana u"
  "defense (applyTick e u) = defense u"
  "name (applyTick e u) = name u"
  "cls (applyTick e u) = cls u"
  "potions (applyTick e u) = potions u"
  "equipment (applyTick e u) = equipment u"
  by (cases e; simp)+

lemma applyTick_currentAttack:
  "e \<noteq> STRENGTH_UP \<Longrightarrow> e \<noteq> WEAKNESS \<Longrightarrow> currentAttack (applyTick e u) = currentAttack u"
  by (cases e) simp_all

lemma tickEntry_absent: "statusEffects u e = None \<Longrightarrow> tickEntry e (u, rm) = (u, rm)"
  by (simp add: tickEntry_def)

lemma tickEntry_present:
  assumes "statusEffects u e = Some d"
  shows "statusEffects (fst (tickEntry e (u, rm))) = (statusEffects u)(e \<mapsto> d - 1)"
    and "snd (tickEntry e (u, rm)) = rm @ (if d - 1 \<le> 0 then [e] else [])"
    and "baseAttack (fst (tickEntry e (u, rm))) = baseAttack u"
    and "e \<noteq> STRENGTH_UP \<Longrightarrow> e \<noteq> WEAKNESS \<Longrightarrow> currentAttack (fst (tickEntry e (u, rm))) = currentAttack u"
  using assms by (simp_all add: tickEntry_def Let_def applyTick_currentAttack)

lemma tick_loop:
  assumes "distinct ks"
  shows "statusEffects (fst (fold tickEntry ks (u, rm))) e
           = (if e \<in> set ks then map_option (\<lambda>d. d - 1) (statusEffects u e) else statusEffects u e)
       \<and> snd (fold tickEntry ks (u, rm)) = rm @ filter (expiring u) ks
       \<and> baseAttack (fst (fold tickEntry ks (u, rm))) = baseAttack u
       \<and> (STRENGTH_UP \<notin> set ks \<and> WEAKNESS \<notin> set ks \<longrightarrow>
            currentAttack (fst (fold tickEntry ks (u, rm))) = currentAttack u)"
  using assms
proof (induction ks arbitrary: u rm)
  case Nil
  then show ?case by simp
next
  case (Cons k ks)
  obtain u' rm' where step: "tickEntry k (u, rm) = (u', rm')" by (cases "tickEntry k (u, rm)")
  have dk: "k \<notin> set ks" and dks: "distinct ks" using Cons.prems by simp_all
  note IH = Cons.IH [OF dks, of u' rm']
  show ?case
  proof (cases "statusEffects u k")
    case None
    then have eq: "u' = u" "rm' = rm" using step by (simp_all add: tickEntry_absent)
    have nex: "\<not> expiring u k" using None by (simp add: expiring_def)
    show ?thesis using IH None nex dk by (auto simp: step eq)
  next
    case (Some d)
    have st: "statusEffects u' = (statusEffects u)(k \<mapsto> d - 1)"
      and rm: "rm' = rm @ (if d - 1 \<le> 0 then [k] else [])"
      and ba: "baseAttack u' = baseAttack u"
      and ca: "k \<noteq> STRENGTH_UP \<Longrightarrow> k \<noteq> WEAKNESS \<Longrightarrow> currentAttack u' = currentAttack u"
      using tickEntry_present [OF Some, of rm] step by simp_all
    have exp_eq: "filter (expiring u') ks = filter (expiring u) ks"
      using dk by (intro filter_cong) (auto simp: expiring_def st)
    have exk: "expiring u k = (d - 1 \<le> 0)" using Some by (simp add: expiring_def)
    show ?thesis using IH dk ca by (auto simp: step st rm ba exp_eq exk Some)
  qed
qed

lemma remove_loop:
  "statusEffects (fold removeExpired rm u) e = (if e \<in> set rm then None else statusEffects u e)
   \<and> baseAttack (fold removeExpired rm u) = baseAttack u
   \<and> currentAttack (fold removeExpired rm u)
       = (if STRENGTH_UP \<in> set rm \<or> WEAKNESS \<in> set rm then baseAttack u else currentAttack u)"
  by (induction rm arbitrary: u) (auto simp: removeExpired_def Let_def)

lemma distinct_map_keys: "distinct (map_keys m)"
  by (simp add: map_keys_def all_effects_def)

lemma set_map_keys: "set (map_keys m) = dom m"
proof -
  have "e \<in> set all_effects" for e by (cases e) (simp_all add: all_effects_def)
  then show ?thesis by (auto simp: map_keys_def)
qed

lemma process_statusEffects:
  "statusEffects (processStatusEffects u) e
     = (case statusEffects u e of None \<Rightarrow> None | Some d \<Rightarrow> if d - 1 \<le> 0 then None else Some (d - 1))"
proof -
  obtain u1 rm where f: "fold tickEntry (map_keys (statusEffects u)) (u, []) = (u1, rm)"
    by (cases "fold tickEntry (map_keys (statusEffects u)) (u, [])")
  from tick_loop [OF distinct_map_keys, of "statusEffects u" u "[]" e] f
  have st: "statusEffects u1 e = (if e \<in> dom (statusEffects u) then map_option (\<lambda>d. d - 1) (statusEffects u e) else statusEffects u e)"
    and rm: "rm = filter (expiring u) (map_keys (statusEffects u))"
    by (simp_all add: set_map_keys)
  have "statusEffects (processStatusEffects u) e = (if e \<in> set rm then None else statusEffects u1 e)"
    using remove_loop [of rm u1 e] by (simp add: processStatusEffects_def f)
  then show ?thesis
    by (auto simp: st rm set_map_keys expiring_def split: option.splits)
qed

lemma process_baseAttack [simp]: "baseAttack (processStatusEffects u) = baseAttack u"
proof -
  obtain u1 rm where f: "fold tickEntry (map_keys (statusEffects u)) (u, []) = (u1, rm)"
    by (cases "fold tickEntry (map_keys (statusEffects u)) (u, [])")
  from tick_loop [OF distinct_map_keys, of "statusEffects u" u "[]" NONE] f
  have "baseAttack u1 = baseAttack u" by simp
  then show ?thesis using remove_loop [of rm u1 NONE] by (simp add: processStatusEffects_def f)
qed

lemma process_currentAttack:
  "currentAttack (processStatusEffects u)
     = (if expiring u STRENGTH_UP \<or> expiring u WEAKNESS then baseAttack u
        else currentAttack (fst (fold tickEntry (map_keys (statusEffects u)) (u, []))))"
proof -
  obtain u1 rm where f: "fold tickEntry (map_keys (statusEffects u)) (u, []) = (u1, rm)"
    by (cases "fold tickEntry (map_keys (statusEffects u)) (u, [])")
  from tick_loop [OF distinct_map_keys, of "statusEffects u" u "[]" NONE] f
  have ba: "baseAttack u1 = baseAttack u"
    and rm: "rm = filter (expiring u) (map_keys (statusEffects u))"
    by simp_all
  have mem: "e \<in> set rm \<longleftrightarrow> expiring u e" for e
    by (auto simp: rm set_map_keys expiring_def split: option.splits)
  show ?thesis
    using remove_loop [of rm u1 NONE] by (simp add: processStatusEffects_def f mem ba)
qed

lemma process_currentAttack_idle:
  assumes "statusEffects u STRENGTH_UP = None" "statusEffects u WEAKNESS = None"
  shows "currentAttack (processStatusEffects u) = currentAttack u"
proof -
  have nk: "STRENGTH_UP \<notin> set (map_keys (statusEffects u)) \<and> WEAKNESS \<notin> set (map_keys (statusEffects u))"
    using assms by (simp add: set_map_keys dom_def)
  have ne: "\<not> expiring u STRENGTH_UP" "\<not> expiring u WEAKNESS" using assms by (simp_all add: expiring_def)
  from tick_loop [OF distinct_map_keys, of "statusEffects u" u "[]" NONE] nk
  have "currentAttack (fst (fold tickEntry (map_keys (statusEffects u)) (u, []))) = currentAttack u"
    by blast
  then show ?thesis by (simp add: process_currentAttack ne)
qed


lemma ticks_statusEffects:
  "1 \<le> n \<Longrightarrow> statusEffects ((processStatusEffects ^^ n) u) e
     = (case statusEffects u e of None \<Rightarrow> None | Some d \<Rightarrow> if d \<le> int n then None else Some (d - int n))"
proof (induction n rule: nat_induct_at_least)
  case base
  show ?case by (simp add: process_statusEffects split: option.splits)
next
  case (Suc n)
  show ?case by (simp add: process_statusEffects Suc.IH split: option.splits)
qed

lemma settled_after_active:
  assumes "statusEffects u STRENGTH_UP \<noteq> None \<or> statusEffects u WEAKNESS \<noteq> None"
  shows "settled (processStatusEffects u)"
  unfolding settled_def
proof
  assume gone: "statusEffects (processStatusEffects u) STRENGTH_UP = None
              \<and> statusEffects (processStatusEffects u) WEAKNESS = None"
  have "expiring u STRENGTH_UP \<or> expiring u WEAKNESS"
    using assms gone
    by (auto simp: process_statusEffects expiring_def split: option.splits if_splits)
  then show "currentAttack (processStatusEffects u) = baseAttack (processStatusEffects u)"
    by (simp add: process_currentAttack)
qed

lemma settled_step: "settled u \<Longrightarrow> settled (processStatusEffects u)"
proof (cases "statusEffects u STRENGTH_UP = None \<and> statusEffects u WEAKNESS = None")
  case True
  assume "settled u"
  with True have "currentAttack u = baseAttack u" by (simp add: settled_def)
  with True show ?thesis by (simp add: settled_def process_currentAttack_idle)
next
  case False
  then have "statusEffects u STRENGTH_UP \<noteq> None \<or> statusEffects u WEAKNESS \<noteq> None" by auto
  then show ?thesis by (rule settled_after_active)
qed

lemma settled_ticks:
  assumes "statusEffects u STRENGTH_UP \<noteq> None \<or> statusEffects u WEAKNESS \<noteq> None" and "1 \<le> n"
  shows "settled ((processStatusEffects ^^ n) u)"
  using assms(2)
proof (induction n rule: nat_induct_at_least)
  case base
  show ?case using settled_after_active [OF assms(1)] by simp
next
  case (Suc n)
  then show ?case by (simp add: settled_step)
qed

lemma ticks_baseAttack [simp]: "baseAttack ((processStatusEffects ^^ n) u) = baseAttack u"
  by (induction n) simp_all

lemma addStatus_fields [simp]:
  "statusEffects (addStatus u e d s) = (statusEffects u)(e \<mapsto> d)"
  "baseAttack (addStatus u e d s) = baseAttack u"
  "currentAttack (addStatus u e d s) = currentAttack u"
  "health (addStatus u e d s) = health u"
  "maxHealth (addStatus u e d s) = maxHealth u"
  "mana (addStatus u e d s) = mana u"
  "maxMana (addStatus u e d s) = maxMana u"
  "defense (addStatus u e d s) = defense u"
  "name (addStatus u e d s) = name u"
  "cls (addStatus u e d s) = cls u"
  "potions (addStatus u e d s) = potions u"
  "equipment (addStatus u e d s) = equipment u"
  by (simp_all add: addStatus_def)

text \<open>
  C8. Apply STRENGTH_UP (duration \<open>d1\<close>) and WEAKNESS (duration \<open>d2\<close>) to a unit in
  either order and call \<^verbatim>\<open>processStatusEffects\<close> repeatedly. Both entries are gone
  exactly from the \<open>max 1 (max d1 d2)\<close>-th call on, and from then on \<open>currentAttack\<close> is
  exactly the \<open>baseAttack\<close> the unit had before: the buff and the debuff leave no residue.
\<close>

theorem C8_buff_debuff_round_trip:
  assumes "u1 = addStatus (addStatus u STRENGTH_UP d1 s1) WEAKNESS d2 s2
         \<or> u1 = addStatus (addStatus u WEAKNESS d2 s2) STRENGTH_UP d1 s1"
  shows "(\<forall>n. (statusEffects ((processStatusEffects ^^ n) u1) STRENGTH_UP = None
               \<and> statusEffects ((processStatusEffects ^^ n) u1) WEAKNESS = None)
              \<longleftrightarrow> nat (max 1 (max d1 d2)) \<le> n)
       \<and> (\<forall>n. nat (max 1 (max d1 d2)) \<le> n
              \<longrightarrow> currentAttack ((processStatusEffects ^^ n) u1) = baseAttack u)"
proof -
  have su: "statusEffects u1 STRENGTH_UP = Some d1" and wk: "statusEffects u1 WEAKNESS = Some d2"
    and ba: "baseAttack u1 = baseAttack u"
    using assms by auto
  have gone: "(statusEffects ((processStatusEffects ^^ n) u1) STRENGTH_UP = None
               \<and> statusEffects ((processStatusEffects ^^ n) u1) WEAKNESS = None)
              \<longleftrightarrow> nat (max 1 (max d1 d2)) \<le> n" for n
  proof (cases "n = 0")
    case True
    then show ?thesis using su by simp
  next
    case False
    then have "1 \<le> n" by simp
    then show ?thesis by (auto simp: ticks_statusEffects su wk)
  qed
  have "currentAttack ((processStatusEffects ^^ n) u1) = baseAttack u"
    if n: "nat (max 1 (max d1 d2)) \<le> n" for n
  proof -
    have "1 \<le> n" using n by linarith
    then have "settled ((processStatusEffects ^^ n) u1)"
      using settled_ticks [of u1 n] su by simp
    then show ?thesis using gone [of n] n by (simp add: settled_def ba)
  qed
  with gone show ?thesis by blast
qed


theorem C8_buff_debuff_round_trip_witness:
  "currentAttack (processStatusEffects
      (addStatus (addStatus (new_Warrior ''Hero'') STRENGTH_UP 3 ''Hero'') WEAKNESS 3 ''Foe'')) = 15
   \<and> statusEffects ((processStatusEffects ^^ 3)
        (addStatus (addStatus (new_Warrior ''Hero'') STRENGTH_UP 3 ''Hero'') WEAKNESS 3 ''Foe'')) STRENGTH_UP = None
   \<and> statusEffects ((processStatusEffects ^^ 3)
        (addStatus (addStatus (new_Warrior ''Hero'') STRENGTH_UP 3 ''Hero'') WEAKNESS 3 ''Foe'')) WEAKNESS = None
   \<and> currentAttack ((processStatusEffects ^^ 3)
        (addStatus (addStatus (new_Warrior ''Hero'') STRENGTH_UP 3 ''Hero'') WEAKNESS 3 ''Foe'')) = 20"
proof -
  let ?u = "new_Warrior ''Hero''"
  let ?u1 = "addStatus (addStatus ?u STRENGTH_UP 3 ''Hero'') WEAKNESS 3 ''Foe''"
  have h: "?u1 = addStatus (addStatus ?u STRENGTH_UP 3 ''Hero'') WEAKNESS 3 ''Foe''
         \<or> ?u1 = addStatus (addStatus ?u WEAKNESS 3 ''Foe'') STRENGTH_UP 3 ''Hero''"
    by simp
  note r = C8_buff_debuff_round_trip [OF h]
  have gone: "statusEffects ((processStatusEffects ^^ 3) ?u1) STRENGTH_UP = None
            \<and> statusEffects ((processStatusEffects ^^ 3) ?u1) WEAKNESS = None"
    using r [THEN conjunct1, rule_format, of 3] by simp
  have restored: "currentAttack ((processStatusEffects ^^ 3) ?u1) = 20"
    using r [THEN conjunct2, rule_format, of 3] by (simp add: new_Warrior_def new_Unit_def)
  have mid: "currentAttack (processStatusEffects ?u1) = 15"
    by code_simp
  from mid gone restored show ?thesis by simp
qed

lemma once_in_distinct:
  "distinct xs \<Longrightarrow> x \<in> set xs \<Longrightarrow> length (filter (\<lambda>k. k = x) xs) = 1"
  by (induction xs) (auto simp: filter_empty_conv)

text \<open>
  C10. \<^verbatim>\<open>addStatus\<close> sets the remaining duration of the effect kind to the duration
  supplied, whatever the table held for that kind before (durations do not add up), and
  touches no other kind; when the kind is already in the table no entry is added. The
  table holds exactly one entry of that kind afterwards, and never two entries of one kind.
\<close>

theorem C10_addStatus_overwrites:
  "statusEffects (addStatus u e d s) e = Some d
   \<and> (\<forall>e'. e' \<noteq> e \<longrightarrow> statusEffects (addStatus u e d s) e' = statusEffects u e')
   \<and> (statusEffects u e \<noteq> None \<longrightarrow>
        map_keys (statusEffects (addStatus u e d s)) = map_keys (statusEffects u))
   \<and> length (filter (\<lambda>k. k = e) (map_keys (statusEffects (addStatus u e d s)))) = 1
   \<and> distinct (map_keys (statusEffects (addStatus u e d s)))"
proof -
  have keep: "map_keys (statusEffects (addStatus u e d s)) = map_keys (statusEffects u)"
    if "statusEffects u e \<noteq> None"
    using that unfolding map_keys_def by (intro filter_cong) auto
  have "e \<in> set (map_keys (statusEffects (addStatus u e d s)))"
    by (simp add: set_map_keys)
  then have one: "length (filter (\<lambda>k. k = e) (map_keys (statusEffects (addStatus u e d s)))) = 1"
    by (rule once_in_distinct [OF distinct_map_keys])
  show ?thesis using keep one by (simp add: distinct_map_keys)
qed

theorem C10_addStatus_overwrites_witness:
  "statusEffects (addStatus (new_Warrior ''Hero'') POISON 3 ''Foe'') POISON = Some 3
   \<and> statusEffects (addStatus (addStatus (new_Warrior ''Hero'') POISON 3 ''Foe'') POISON 2 ''Foe'') POISON = Some 2
   \<and> statusEffects (addStatus (addStatus (new_Warrior ''Hero'') POISON 3 ''Foe'') POISON 2 ''Foe'') STUN = None
   \<and> map_keys (statusEffects (addStatus (addStatus (new_Warrior ''Hero'') POISON 3 ''Foe'') POISON 2 ''Foe''))
       = [POISON]"
proof -
  let ?u = "addStatus (new_Warrior ''Hero'') POISON 3 ''Foe''"
  note r = C10_addStatus_overwrites [of ?u POISON 2 "''Foe''"]
  have a: "statusEffects (addStatus ?u POISON 2 ''Foe'') POISON = Some 2" using r by blast
  have "STUN \<noteq> POISON" by simp
  with r have "statusEffects (addStatus ?u POISON 2 ''Foe'') STUN = statusEffects ?u STUN" by blast
  then have b: "statusEffects (addStatus ?u POISON 2 ''Foe'') STUN = None"
    by (simp add: new_Warrior_def new_Unit_def)
  have "statusEffects ?u POISON \<noteq> None" by simp
  with r have "map_keys (statusEffects (addStatus ?u POISON 2 ''Foe'')) = map_keys (statusEffects ?u)"
    by blast
  then have c: "map_keys (statusEffects (addStatus ?u POISON 2 ''Foe'')) = [POISON]"
    by (simp add: map_keys_def all_effects_def new_Warrior_def new_Unit_def)
  from a b c show ?thesis by simp
qed

text \<open>
  C9 as stated (iteration in insertion order) does not hold. The stage-1 boss receives
  BLEED first and POISON second; the table is visited as POISON, BLEED, and the poison
  damage is logged before the bleed damage. The same happens in a battle: an Archer opens
  with Piercing Shot (BLEED) and follows with Poison Arrow (POISON) in the next iteration;
  the boss's tick of that iteration logs the poison damage first.
\<close>

theorem C9_insertion_order_counterexample:
  "map_keys (statusEffects (addStatus (addStatus (createBoss 1) BLEED 2 ''Hero'') POISON 3 ''Hero''))
     = [POISON, BLEED]
   \<and> battleLog (processStatusEffects (clearBattleLog
        (addStatus (addStatus (createBoss 1) BLEED 2 ''Hero'') POISON 3 ''Hero'')))
     = [''Goblin King took 5 damage from Poison! [90 -> 85/90 HP]'',
        ''Goblin King took 3 damage from Bleed! [85 -> 82/90 HP]'']
   \<and> (case combatRound True
            (new_Archer ''Hero'', createBoss 1, \<lparr>cin = [2, 2, 2, 1], rng = [3, 3]\<rparr>, []) of
        None \<Rightarrow> False
      | Some (ctl1, p1, b1, io1, tr1) \<Rightarrow>
          statusEffects b1 BLEED = Some 1 \<and> statusEffects b1 POISON = None
          \<and> (case combatRound True (p1, b1, io1, tr1) of
                None \<Rightarrow> False
              | Some (ctl2, p2, b2, io2, tr2) \<Rightarrow>
                  take 2 (battleLog b2)
                    = [''Goblin King took 30 damage! [47 -> 17/90 HP]'',
                       ''Hero applied Poison to Goblin King!'']
                  \<and> drop 4 (battleLog b2)
                    = [''Goblin King took 5 damage from Poison! [17 -> 12/90 HP]'',
                       ''Goblin King took 3 damage from Bleed! [12 -> 9/90 HP]'',
                       ''Goblin King's Bleed wore off!'']))"
  by code_simp

lemma tickEntry_keeps_keys:
  "statusEffects (fst (tickEntry e (u, rm))) k = None \<longleftrightarrow> statusEffects u k = None"
  by (cases "statusEffects u e") (simp_all add: tickEntry_absent tickEntry_present(1))

lemma tick_loop_over_all:
  "fold tickEntry (filter (\<lambda>e. statusEffects u e \<noteq> None) ks) (u, rm) = fold tickEntry ks (u, rm)"
proof (induction ks arbitrary: u rm)
  case Nil
  show ?case by simp
next
  case (Cons k ks)
  obtain u' rm' where step: "tickEntry k (u, rm) = (u', rm')" by (cases "tickEntry k (u, rm)")
  have keys: "filter (\<lambda>e. statusEffects u e \<noteq> None) ks = filter (\<lambda>e. statusEffects u' e \<noteq> None) ks"
    using tickEntry_keeps_keys [of k u rm] step by (intro filter_cong) simp_all
  show ?case
  proof (cases "statusEffects u k")
    case None
    then show ?thesis using Cons.IH [of u rm] by (simp add: tickEntry_absent)
  next
    case (Some d)
    then have "fold tickEntry (filter (\<lambda>e. statusEffects u e \<noteq> None) (k # ks)) (u, rm)
             = fold tickEntry (filter (\<lambda>e. statusEffects u e \<noteq> None) ks) (u', rm')"
      by (simp add: step)
    also have "\<dots> = fold tickEntry (filter (\<lambda>e. statusEffects u' e \<noteq> None) ks) (u', rm')"
      by (simp only: keys)
    also have "\<dots> = fold tickEntry ks (u', rm')"
      by (rule Cons.IH)
    also have "\<dots> = fold tickEntry (k # ks) (u, rm)"
      by (simp add: step)
    finally show ?thesis .
  qed
qed

text \<open>
  C9, amended. \<^verbatim>\<open>processStatusEffects\<close> visits the active effects in ascending order of
  the effect kind (the key order of the table): POISON, BLEED, STUN, STRENGTH_UP, WEAKNESS,
  one after the other, an absent kind being skipped. The order in which two effects were
  applied to the unit makes no difference to the table, to the order of the visit or to
  what the tick does.
\<close>

theorem C9_key_order:
  "sorted_wrt (\<lambda>a b. ordinal a < ordinal b) (map_keys (statusEffects u))
   \<and> processStatusEffects u =
       (case tickEntry WEAKNESS (tickEntry STRENGTH_UP (tickEntry STUN (tickEntry BLEED
               (tickEntry POISON (tickEntry NONE (u, [])))))) of
          (u1, toRemove) \<Rightarrow> fold removeExpired toRemove u1)
   \<and> (e1 \<noteq> e2 \<longrightarrow>
        map_keys (statusEffects (addStatus (addStatus u e1 d1 s1) e2 d2 s2))
          = map_keys (statusEffects (addStatus (addStatus u e2 d2 s2) e1 d1 s1))
      \<and> processStatusEffects (clearBattleLog (addStatus (addStatus u e1 d1 s1) e2 d2 s2))
          = processStatusEffects (clearBattleLog (addStatus (addStatus u e2 d2 s2) e1 d1 s1)))"
proof -
  have "sorted_wrt (\<lambda>a b. ordinal a < ordinal b) all_effects" by (simp add: all_effects_def)
  then have srt: "sorted_wrt (\<lambda>a b. ordinal a < ordinal b) (map_keys (statusEffects u))"
    unfolding map_keys_def by (rule sorted_wrt_filter)
  have "fold tickEntry (map_keys (statusEffects u)) (u, []) = fold tickEntry all_effects (u, [])"
    unfolding map_keys_def by (rule tick_loop_over_all)
  then have seq: "processStatusEffects u =
       (case tickEntry WEAKNESS (tickEntry STRENGTH_UP (tickEntry STUN (tickEntry BLEED
               (tickEntry POISON (tickEntry NONE (u, [])))))) of
          (u1, toRemove) \<Rightarrow> fold removeExpired toRemove u1)"
    by (simp add: processStatusEffects_def all_effects_def)
  have same: "clearBattleLog (addStatus (addStatus u e1 d1 s1) e2 d2 s2)
            = clearBattleLog (addStatus (addStatus u e2 d2 s2) e1 d1 s1)" if "e1 \<noteq> e2"
    using that by (simp add: clearBattleLog_def addStatus_def addToBattleLog_def fun_upd_twist)
  have tw: "(statusEffects u)(e1 \<mapsto> d1, e2 \<mapsto> d2) = (statusEffects u)(e2 \<mapsto> d2, e1 \<mapsto> d1)" if "e1 \<noteq> e2"
    using that by (simp add: fun_upd_twist)
  show ?thesis using srt seq same tw by simp
qed

theorem C9_key_order_witness:
  "BLEED \<noteq> POISON
   \<and> map_keys (statusEffects (addStatus (addStatus (new_Warrior ''Hero'') BLEED 2 ''Foe'') POISON 3 ''Foe''))
       = map_keys (statusEffects (addStatus (addStatus (new_Warrior ''Hero'') POISON 3 ''Foe'') BLEED 2 ''Foe''))
   \<and> processStatusEffects (clearBattleLog
         (addStatus (addStatus (new_Warrior ''Hero'') BLEED 2 ''Foe'') POISON 3 ''Foe''))
       = processStatusEffects (clearBattleLog
         (addStatus (addStatus (new_Warrior ''Hero'') POISON 3 ''Foe'') BLEED 2 ''Foe''))"
  using C9_key_order [of "new_Warrior ''Hero''" BLEED POISON 2 "''Foe''" 3 "''Foe''"]
  by simp

subsection \<open>The bounds on health and mana\<close>

lemma heal_fields [simp]:
  "health (heal u a) = min (maxHealth u) (int32 (health u + a))"
  "maxHealth (heal u a) = maxHealth u"
  "mana (heal u a) = mana u"
  "maxMana (heal u a) = maxMana u"
  "baseAttack (heal u a) = baseAttack u"
  "currentAttack (heal u a) = currentAttack u"
  "defense (heal u a) = defense u"
  "statusEffects (heal u a) = statusEffects u"
  "potions (heal u a) = potions u"
  by (simp_all add: heal_def Let_def)

lemma restoreMana_fields [simp]:
  "health (restoreMana u a) = health u"
  "maxHealth (restoreMana u a) = maxHealth u"
  "mana (restoreMana u a) = min (maxMana u) (int32 (mana u + a))"
  "maxMana (restoreMana u a) = maxMana u"
  "baseAttack (restoreMana u a) = baseAttack u"
  "currentAttack (restoreMana u a) = currentAttack u"
  "defense (restoreMana u a) = defense u"
  "statusEffects (restoreMana u a) = statusEffects u"
  "potions (restoreMana u a) = potions u"
  by (simp_all add: restoreMana_def Let_def)

text \<open>
  Each operation keeps the bounds as long as the sum it forms stays below \<open>2^31\<close>;
  \<^verbatim>\<open>takeDamage\<close> keeps them for every argument.
\<close>

lemma vitals_takeDamage:
  assumes "vitals_ok u" and "maxHealth u < 2147483648"
  shows "vitals_ok (takeDamage u d sb src)"
proof -
  have r: "0 \<le> health u" "health u < 2147483648" using assms by (simp_all add: vitals_ok_def)
  show ?thesis using assms(1) by (simp add: vitals_ok_def takeDamage_health [OF r] max_def)
qed

lemma vitals_heal:
  assumes "vitals_ok u" and "0 \<le> a" and "health u + a < 2147483648"
  shows "vitals_ok (heal u a)"
proof -
  have "int32 (health u + a) = health u + a"
    using assms by (intro int32_id) (simp_all add: vitals_ok_def)
  then show ?thesis using assms by (simp add: vitals_ok_def)
qed

lemma vitals_restoreMana:
  assumes "vitals_ok u" and "0 \<le> a" and "mana u + a < 2147483648"
  shows "vitals_ok (restoreMana u a)"
proof -
  have "int32 (mana u + a) = mana u + a"
    using assms by (intro int32_id) (simp_all add: vitals_ok_def)
  then show ?thesis using assms by (simp add: vitals_ok_def)
qed

text \<open>
  Beyond that the sum wraps: a Mage with 55 of 70 health that is healed by the greatest
  \<^verbatim>\<open>int\<close> ends with a negative health.
\<close>

lemma heal_wraps_example:
  "health (heal ((new_Mage ''Hero'')\<lparr>health := 55\<rparr>) 2147483647) = - 2147483594"
  by (simp add: int32_def new_Mage_def new_Unit_def)

lemma vitals_log [simp]: "vitals_ok (addToBattleLog u m) = vitals_ok u"
  by (simp add: vitals_ok_def)

lemma vitals_addStatus [simp]: "vitals_ok (addStatus u e d s) = vitals_ok u"
  by (simp add: vitals_ok_def)

lemma vitals_clearStatus [simp]: "vitals_ok (clearStatus u e) = vitals_ok u"
  by (simp add: vitals_ok_def clearStatus_def)

lemma vitals_increaseMaxHealth:
  assumes "vitals_ok u" and "0 \<le> a" and "maxHealth u + a < 2147483648"
  shows "vitals_ok (increaseMaxHealth u a)"
proof -
  have "int32 (maxHealth u + a) = maxHealth u + a" "int32 (health u + a) = health u + a"
    using assms by (auto intro!: int32_id simp: vitals_ok_def)
  then show ?thesis using assms by (simp add: vitals_ok_def increaseMaxHealth_def)
qed

lemma vitals_increaseMaxMana:
  assumes "vitals_ok u" and "0 \<le> a" and "maxMana u + a < 2147483648"
  shows "vitals_ok (increaseMaxMana u a)"
proof -
  have "int32 (maxMana u + a) = maxMana u + a" "int32 (mana u + a) = mana u + a"
    using assms by (auto intro!: int32_id simp: vitals_ok_def)
  then show ?thesis using assms by (simp add: vitals_ok_def increaseMaxMana_def)
qed

lemma vitals_increase:
  "vitals_ok u \<Longrightarrow> vitals_ok (increaseAttack u d)"
  "vitals_ok u \<Longrightarrow> vitals_ok (increaseDefense u d)"
  by (simp_all add: vitals_ok_def increaseAttack_def increaseDefense_def)

lemma vitals_equipment_update [simp]: "vitals_ok (u\<lparr>equipment := x\<rparr>) = vitals_ok u"
  by (simp add: vitals_ok_def)

lemma vitals_potions_update [simp]: "vitals_ok (u\<lparr>potions := x\<rparr>) = vitals_ok u"
  by (simp add: vitals_ok_def)

lemma tick_loop_preserves:
  assumes "\<And>e u rm. P u \<Longrightarrow> P (fst (tickEntry e (u, rm)))" and "P u"
  shows "P (fst (fold tickEntry ks (u, rm)))"
  using assms(2)
proof (induction ks arbitrary: u rm)
  case Nil
  then show ?case by simp
next
  case (Cons k ks)
  obtain u' rm' where step: "tickEntry k (u, rm) = (u', rm')" by (cases "tickEntry k (u, rm)")
  have "P u'" using assms(1) [OF Cons.prems, of k rm] step by simp
  then show ?case using Cons.IH [of u' rm'] by (simp add: step)
qed

lemma remove_loop_preserves:
  assumes "\<And>e u. P u \<Longrightarrow> P (removeExpired e u)" and "P u"
  shows "P (fold removeExpired rm u)"
  using assms(2) by (induction rm arbitrary: u) (simp_all add: assms(1))

lemma process_preserves:
  assumes "\<And>e u rm. P u \<Longrightarrow> P (fst (tickEntry e (u, rm)))"
    and "\<And>e u. P u \<Longrightarrow> P (removeExpired e u)" and "P u"
  shows "P (processStatusEffects u)"
proof -
  obtain u1 rm where f: "fold tickEntry (map_keys (statusEffects u)) (u, []) = (u1, rm)"
    by (cases "fold tickEntry (map_keys (statusEffects u)) (u, [])")
  have "P u1"
    using tick_loop_preserves [of P u "map_keys (statusEffects u)" "[]"] assms(1,3) f by simp
  then have "P (fold removeExpired rm u1)" using assms(2) by (rule remove_loop_preserves [rotated])
  then show ?thesis by (simp add: processStatusEffects_def f)
qed

lemma cpp_div_half: "0 \<le> a \<Longrightarrow> cpp_div a 2 = a div 2"
  by (simp add: cpp_div_def sgn_if)

lemmas skill_defs =
  Warrior_useSkill1_def Warrior_useSkill2_def Warrior_useSkill3_def
  Archer_useSkill1_def Archer_useSkill2_def Archer_useSkill3_def
  Mage_useSkill1_def Mage_useSkill2_def Mage_useSkill3_def
  BossUnit_useSkill1_def BossUnit_useSkill2_def BossUnit_useSkill3_def
  skillCost1_def skillCost2_def skillCost3_def

text \<open>
  The invariant \<open>unit_inv B\<close>, for a bound \<open>B\<close> below \<open>2^30\<close>, is kept by every
  operation with the arguments the game passes, so no sum ever wraps.
\<close>

lemma inv_vitals: "unit_inv B u \<Longrightarrow> vitals_ok u"
  by (simp add: unit_inv_def)

lemma inv_mono: "unit_inv B u \<Longrightarrow> B \<le> B' \<Longrightarrow> unit_inv B' u"
  by (simp add: unit_inv_def)

lemma inv_new:
  "unit_inv 170 (new_Warrior n)" "unit_inv 170 (new_Archer n)" "unit_inv 170 (new_Mage n)"
  "1 \<le> stage \<Longrightarrow> stage \<le> 5 \<Longrightarrow> unit_inv 170 (createBoss stage)"
  by (simp_all add: unit_inv_def vitals_ok_def new_Warrior_def new_Archer_def new_Mage_def
        createBoss_def new_BossUnit_def new_Unit_def Let_def)

lemma inv_log [simp]: "unit_inv B (addToBattleLog u m) = unit_inv B u"
  by (simp add: unit_inv_def)

lemma inv_clearLog [simp]: "unit_inv B (clearBattleLog u) = unit_inv B u"
  by (simp add: unit_inv_def vitals_ok_def clearBattleLog_def)

lemma inv_addStatus [simp]: "unit_inv B (addStatus u e d s) = unit_inv B u"
  by (simp add: unit_inv_def)

lemma inv_clearStatus [simp]: "unit_inv B (clearStatus u e) = unit_inv B u"
  by (simp add: unit_inv_def vitals_ok_def clearStatus_def)

lemma inv_equipment_update [simp]: "unit_inv B (u\<lparr>equipment := x\<rparr>) = unit_inv B u"
  by (simp add: unit_inv_def)

lemma inv_takeDamage:
  assumes "unit_inv B u" and "B < 1073741824"
  shows "unit_inv B (takeDamage u d sb src)"
proof -
  have "maxHealth u < 2147483648" using assms by (simp add: unit_inv_def)
  then have "vitals_ok (takeDamage u d sb src)"
    using assms(1) by (intro vitals_takeDamage) (simp_all add: unit_inv_def)
  then show ?thesis using assms(1) by (simp add: unit_inv_def)
qed

lemma inv_heal:
  assumes "unit_inv B u" and "B < 1073741824" and "0 \<le> a" and "a \<le> 1073741824"
  shows "unit_inv B (heal u a)"
proof -
  have "health u + a < 2147483648" using assms by (simp add: unit_inv_def vitals_ok_def)
  then have "vitals_ok (heal u a)"
    using assms by (intro vitals_heal) (simp_all add: unit_inv_def)
  then show ?thesis using assms(1) by (simp add: unit_inv_def)
qed

lemma inv_restoreMana:
  assumes "unit_inv B u" and "B < 1073741824" and "0 \<le> a" and "a \<le> 1073741824"
  shows "unit_inv B (restoreMana u a)"
proof -
  have "mana u + a < 2147483648" using assms by (simp add: unit_inv_def vitals_ok_def)
  then have "vitals_ok (restoreMana u a)"
    using assms by (intro vitals_restoreMana) (simp_all add: unit_inv_def)
  then show ?thesis using assms(1) by (simp add: unit_inv_def)
qed

lemma inv_increaseAttack:
  assumes "unit_inv B u" and "B < 1073741824" and "0 \<le> a" and "a \<le> 30"
  shows "unit_inv (B + a) (increaseAttack u a)"
proof -
  have "int32 (baseAttack u + a) = baseAttack u + a"
    using assms by (intro int32_id) (simp_all add: unit_inv_def)
  then show ?thesis using assms by (simp add: unit_inv_def vitals_ok_def increaseAttack_def)
qed

lemma inv_increaseDefense: "unit_inv B u \<Longrightarrow> unit_inv B (increaseDefense u a)"
  by (simp add: unit_inv_def vitals_ok_def increaseDefense_def)

lemma inv_increaseMaxHealth:
  assumes "unit_inv B u" and "B < 1073741824" and "0 \<le> a" and "a \<le> 30"
  shows "unit_inv (B + a) (increaseMaxHealth u a)"
proof -
  have "maxHealth u + a < 2147483648" using assms by (simp add: unit_inv_def)
  then have v: "vitals_ok (increaseMaxHealth u a)"
    using assms by (intro vitals_increaseMaxHealth) (simp_all add: unit_inv_def)
  have "0 \<le> maxHealth u" using assms(1) by (simp add: unit_inv_def vitals_ok_def)
  then have "int32 (maxHealth u + a) = maxHealth u + a"
    using assms \<open>maxHealth u + a < 2147483648\<close> by (intro int32_id) simp_all
  then have "maxHealth (increaseMaxHealth u a) \<le> B + a"
    using assms(1) by (simp add: increaseMaxHealth_def unit_inv_def)
  then show ?thesis using v assms by (simp add: unit_inv_def increaseMaxHealth_def)
qed

lemma inv_applyUpgrade:
  assumes "unit_inv B u" and "B < 1073741824"
  shows "unit_inv (B + 5) (applyUpgrade k u)"
proof -
  have "unit_inv (B + 5) (heal u 30)" "unit_inv (B + 5) (restoreMana u 20)"
    using assms by (simp_all add: inv_heal inv_restoreMana inv_mono [of B _ "B + 5"])
  moreover have "unit_inv (B + 5) (increaseAttack u 5)"
    using assms by (intro inv_increaseAttack) simp_all
  moreover have "unit_inv (B + 5) (increaseDefense u 3)" "unit_inv (B + 5) u"
    using assms by (simp_all add: inv_increaseDefense inv_mono [of B _ "B + 5"])
  ultimately show ?thesis by (simp add: applyUpgrade_def)
qed

lemma inv_applyEffect:
  assumes "unit_inv B u" and "B < 1073741824"
  shows "unit_inv (B + 30) (applyEffect item u)"
proof -
  have up: "unit_inv (B + a) v \<Longrightarrow> a \<le> 30 \<Longrightarrow> unit_inv (B + 30) v" for a v
    using inv_mono [of "B + a" v "B + 30"] by simp
  have atk: "unit_inv (B + 30) (increaseAttack u a)" if "0 \<le> a" "a \<le> 30" for a
    using inv_increaseAttack [OF assms that] that(2) by (rule up)
  show ?thesis
  proof (cases item)
    case IceShield
    have "unit_inv (B + 20) (increaseMaxHealth u 20)"
      using assms by (intro inv_increaseMaxHealth) simp_all
    then show ?thesis using IceShield by (simp add: inv_increaseDefense up)
  next
    case DragonScale
    have a: "unit_inv (B + 10) (increaseAttack u 10)"
      using assms by (intro inv_increaseAttack) simp_all
    have v: "vitals_ok (increaseMaxHealth (increaseAttack u 10) 30)"
      using a assms(2) by (intro vitals_increaseMaxHealth) (simp_all add: unit_inv_def)
    have "0 \<le> maxHealth u" using assms(1) by (simp add: unit_inv_def vitals_ok_def)
    moreover have "maxHealth u \<le> B" using assms(1) by (simp add: unit_inv_def)
    ultimately have "int32 (maxHealth u + 30) = maxHealth u + 30"
      using assms(2) by (intro int32_id) simp_all
    then have "unit_inv (B + 30) (increaseMaxHealth (increaseAttack u 10) 30)"
      using a v \<open>maxHealth u \<le> B\<close>
      by (simp add: unit_inv_def increaseMaxHealth_def increaseAttack_def)
    then show ?thesis using DragonScale by (simp add: inv_increaseDefense)
  next
    case HealthPotion
    have "unit_inv B (heal u 30)" using assms by (intro inv_heal) simp_all
    then show ?thesis using HealthPotion by (simp add: inv_mono [of B _ "B + 30"])
  next
    case ManaPotion
    have "unit_inv B (restoreMana u 20)" using assms by (intro inv_restoreMana) simp_all
    then show ?thesis using ManaPotion by (simp add: inv_mono [of B _ "B + 30"])
  qed (simp_all add: atk)
qed

lemma inv_addItem_potion:
  assumes "unit_inv B u" and "getType item = POTION"
  shows "unit_inv B (addItem u item)"
proof -
  have "item = HealthPotion \<or> item = ManaPotion" using assms(2) by (cases item) simp_all
  then show ?thesis using assms(1) by (auto simp: addItem_def unit_inv_def vitals_ok_def)
qed

lemma inv_addItem:
  assumes "unit_inv B u" and "B < 1073741824"
  shows "unit_inv (B + 30) (addItem u item)"
proof (cases "getType item = POTION")
  case True
  then show ?thesis using inv_addItem_potion [OF assms(1)] by (simp add: inv_mono [of B _ "B + 30"])
next
  case False
  have "unit_inv B (u\<lparr>equipment := equipment u @ [item]\<rparr>)" using assms(1) by simp
  then have "unit_inv (B + 30) (applyEffect item (u\<lparr>equipment := equipment u @ [item]\<rparr>))"
    using assms(2) by (rule inv_applyEffect)
  then show ?thesis using False by (simp add: addItem_def Let_def)
qed

lemma inv_usePotion:
  assumes "unit_inv B u" and "B < 1073741824"
  shows "unit_inv B (snd (usePotion u i))"
proof (cases "i < 0 \<or> int (length (potions u)) \<le> i")
  case True
  with assms(1) show ?thesis by (simp add: usePotion_def)
next
  case False
  from False have lt: "nat i < length (potions u)" by linarith
  have all: "list_all (\<lambda>p. 0 \<le> amount p \<and> amount p \<le> 30) (potions u)"
    using assms(1) by (simp add: unit_inv_def)
  then have am: "0 \<le> amount (potions u ! nat i)" "amount (potions u ! nat i) \<le> 1073741824"
    using lt by (auto simp: list_all_length)
  have used: "unit_inv B (if isHealthPotion (potions u ! nat i) then heal u (amount (potions u ! nat i))
                        else restoreMana u (amount (potions u ! nat i)))"
    using assms am by (simp add: inv_heal inv_restoreMana)
  have rest: "list_all (\<lambda>p. 0 \<le> amount p \<and> amount p \<le> 30)
                (take (nat i) (potions u) @ drop (Suc (nat i)) (potions u))"
    using all by (auto simp: list_all_iff dest: in_set_takeD in_set_dropD)
  show ?thesis using False used rest
    by (simp add: usePotion_def Let_def unit_inv_def split: if_splits)
qed

lemma inv_tickEntry:
  assumes "unit_inv B u" and "B < 1073741824"
  shows "unit_inv B (fst (tickEntry e (u, rm)))"
proof (cases "statusEffects u e")
  case None
  then show ?thesis using assms(1) by (simp add: tickEntry_absent)
next
  case (Some d)
  have b: "0 \<le> baseAttack u" "baseAttack u \<le> B" using assms(1) by (simp_all add: unit_inv_def)
  then have up: "int32 (baseAttack u + 10) = baseAttack u + 10"
    and down: "int32 (baseAttack u - 5) = baseAttack u - 5"
    using assms(2) by (auto intro!: int32_id)
  have "unit_inv B (applyTick e u)"
  proof (cases e)
    case POISON
    then show ?thesis using assms by (simp add: inv_takeDamage)
  next
    case BLEED
    then show ?thesis using assms by (simp add: inv_takeDamage)
  next
    case STRENGTH_UP
    then show ?thesis using assms(1) b by (simp add: up unit_inv_def vitals_ok_def)
  next
    case WEAKNESS
    then show ?thesis using assms(1) b by (simp add: down unit_inv_def vitals_ok_def)
  qed (simp_all add: assms(1))
  then show ?thesis using Some
    by (simp add: tickEntry_def Let_def unit_inv_def vitals_ok_def)
qed

lemma inv_removeExpired: "unit_inv B u \<Longrightarrow> unit_inv B (removeExpired e u)"
  by (simp add: removeExpired_def Let_def unit_inv_def vitals_ok_def)

lemma inv_process:
  assumes "unit_inv B u" and "B < 1073741824"
  shows "unit_inv B (processStatusEffects u)"
  using assms(1)
  by (rule process_preserves [where P = "unit_inv B", rotated 2])
     (simp_all add: inv_tickEntry inv_removeExpired assms(2))

lemma inv_attack:
  assumes "unit_inv B u" and "unit_inv B t" and "B < 1073741824"
  shows "unit_inv B (fst (attack u t)) \<and> unit_inv B (snd (attack u t))"
  using assms
  by (simp add: attack_def Unit_attack_def BossUnit_attack_def Let_def inv_takeDamage
      split: UnitClass.splits)

lemma inv_mana_update:
  "unit_inv B u \<Longrightarrow> c \<le> mana u \<Longrightarrow> 0 \<le> c \<Longrightarrow> unit_inv B (u\<lparr>mana := mana u - c\<rparr>)"
  by (simp add: unit_inv_def vitals_ok_def)

lemma inv_useSkill1:
  assumes "unit_inv B u" and "unit_inv B t" and "B < 1073741824"
  shows "unit_inv B (fst (snd (useSkill1 u t))) \<and> unit_inv B (snd (snd (useSkill1 u t)))"
  using assms
  by (cases "cls u")
     (simp_all add: useSkill1_def skill_defs Let_def inv_takeDamage inv_mana_update)

lemma inv_useSkill2:
  assumes "unit_inv B u" and "unit_inv B t" and "B < 1073741824"
  shows "unit_inv B (fst (snd (useSkill2 u t))) \<and> unit_inv B (snd (snd (useSkill2 u t)))"
  using assms
  by (cases "cls u")
     (simp_all add: useSkill2_def skill_defs Let_def inv_takeDamage inv_mana_update)

text \<open>Life Drain heals by half its damage, which is the attack plus 5 and does not wrap.\<close>

lemma life_drain_amount:
  assumes "unit_inv B u" and "B < 1073741824"
  shows "0 \<le> cpp_div (int32 (currentAttack u + 5)) 2"
    and "cpp_div (int32 (currentAttack u + 5)) 2 \<le> 1073741824"
proof -
  have ca: "0 \<le> currentAttack u" "currentAttack u \<le> B + 10"
    using assms(1) by (simp_all add: unit_inv_def)
  then have "int32 (currentAttack u + 5) = currentAttack u + 5"
    using assms(2) by (intro int32_id) simp_all
  then have "cpp_div (int32 (currentAttack u + 5)) 2 = (currentAttack u + 5) div 2"
    using ca by (simp add: cpp_div_half)
  then show "0 \<le> cpp_div (int32 (currentAttack u + 5)) 2"
    and "cpp_div (int32 (currentAttack u + 5)) 2 \<le> 1073741824"
    using ca assms(2) by simp_all
qed

lemma inv_useSkill3:
  assumes "unit_inv B u" and "unit_inv B t" and "B < 1073741824"
  shows "unit_inv B (fst (snd (useSkill3 u t))) \<and> unit_inv B (snd (snd (useSkill3 u t)))"
proof (cases "cls u")
  case Mage
  show ?thesis
  proof (cases "mana u < 25")
    case True
    then show ?thesis using Mage assms by (simp add: useSkill3_def skill_defs)
  next
    case False
    let ?u1 = "u\<lparr>mana := mana u - 25\<rparr>"
    have u1: "unit_inv B ?u1" using assms(1) False by (intro inv_mana_update) simp_all
    have "currentAttack ?u1 = currentAttack u" by simp
    then have "unit_inv B (heal (addToBattleLog ?u1 m) (cpp_div (int32 (currentAttack ?u1 + 5)) 2))" for m
      using life_drain_amount [OF u1 assms(3)] u1 assms(3) by (intro inv_heal) simp_all
    then show ?thesis using Mage False assms
      by (simp add: useSkill3_def skill_defs Let_def inv_takeDamage)
  qed
next
  case (BossUnit n1 n2 n3)
  show ?thesis
  proof (cases "mana u < 25")
    case True
    then show ?thesis using BossUnit assms by (simp add: useSkill3_def skill_defs)
  next
    case False
    let ?u1 = "u\<lparr>mana := mana u - 25\<rparr>"
    have u1: "unit_inv B ?u1" using assms(1) False by (intro inv_mana_update) simp_all
    have "unit_inv B (heal (addToBattleLog ?u1 m) 20)" for m
      using u1 assms(3) by (intro inv_heal) simp_all
    then show ?thesis using BossUnit False assms
      by (simp add: useSkill3_def skill_defs Let_def inv_takeDamage)
  qed
qed (insert assms, simp_all add: useSkill3_def skill_defs Let_def inv_takeDamage inv_mana_update)


text \<open>The same for the steps of the game loop.\<close>

lemma inv_showSkillsMenu:
  assumes "showSkillsMenu p b io = Some (p', b', io')" and "unit_inv B p" and "unit_inv B b"
    and "B < 1073741824"
  shows "unit_inv B p' \<and> unit_inv B b'"
proof -
  from assms(1) obtain k rest where k: "getValidInput 1 3 (cin io) = Some (k, rest)"
    by (cases "getValidInput 1 3 (cin io)") (auto simp: showSkillsMenu_def)
  define r where "r = (if k = 1 then useSkill1 p b else if k = 2 then useSkill2 p b
                       else if k = 3 then useSkill3 p b else (False, p, b))"
  obtain ok p1 b1 where r: "r = (ok, p1, b1)" by (cases r)
  have inv1: "unit_inv B p1 \<and> unit_inv B b1"
    using inv_useSkill1 [OF assms(2,3,4)] inv_useSkill2 [OF assms(2,3,4)]
      inv_useSkill3 [OF assms(2,3,4)] assms(2,3) r
    by (auto simp: r_def split: if_splits)
  show ?thesis
  proof (cases ok)
    case True
    then show ?thesis using assms(1) k r inv1 by (simp add: showSkillsMenu_def r_def)
  next
    case False
    then have "(p', b') = attack p1 b1"
      using assms(1) k r by (auto simp: showSkillsMenu_def r_def split: prod.splits)
    then show ?thesis using inv_attack [of B p1 b1] inv1 assms(4) by (metis fst_conv snd_conv)
  qed
qed

lemma inv_showInventory:
  assumes "showInventory p io = Some (used, p', io')" and "unit_inv B p" and "B < 1073741824"
  shows "unit_inv B p'"
  using assms
  by (auto simp: showInventory_def inv_usePotion split: if_splits option.splits)

lemma inv_playerTurn:
  assumes "playerTurn p b io = Some (c, p', b', io')" and "unit_inv B p" and "unit_inv B b"
    and "B < 1073741824"
  shows "unit_inv B p' \<and> unit_inv B b'"
proof (cases "hasStatus p STUN")
  case True
  then show ?thesis using assms by (auto simp: playerTurn_def)
next
  case False
  let ?p1 = "addToBattleLog p ''\<newline>=== YOUR TURN ===''"
  have p1: "unit_inv B ?p1" using assms(2) by simp
  from assms(1) False obtain a rest where a: "getValidInput 1 4 (cin io) = Some (a, rest)"
    by (cases "getValidInput 1 4 (cin io)") (auto simp: playerTurn_def Let_def)
  consider "a = 1" | "a = 2" | "a = 3" | "a \<noteq> 1 \<and> a \<noteq> 2 \<and> a \<noteq> 3" by blast
  then show ?thesis
  proof cases
    case 1
    then have "(p', b') = attack ?p1 b"
      using assms(1) False a by (auto simp: playerTurn_def Let_def split: prod.splits)
    then show ?thesis using inv_attack [OF p1 assms(3,4)] by (metis fst_conv snd_conv)
  next
    case 2
    then obtain io2 where "showSkillsMenu ?p1 b (io\<lparr>cin := rest\<rparr>) = Some (p', b', io2)"
      using assms(1) False a by (auto simp: playerTurn_def Let_def split: option.splits)
    then show ?thesis using inv_showSkillsMenu p1 assms(3,4) by blast
  next
    case 3
    then obtain used p2 io2 where si: "showInventory ?p1 (io\<lparr>cin := rest\<rparr>) = Some (used, p2, io2)"
      and res: "p' = (if used then processStatusEffects p2 else p2)" "b' = b"
      using assms(1) False a
      by (auto simp: playerTurn_def Let_def split: option.splits if_splits)
    have "unit_inv B p2" using inv_showInventory [OF si p1 assms(4)] .
    then show ?thesis using res assms(3,4) by (simp add: inv_process)
  next
    case 4
    then show ?thesis using assms False a p1
      by (auto simp: playerTurn_def Let_def split: if_splits)
  qed
qed

lemma inv_bossTurn:
  assumes "bossTurn p b io = Some (p', b', io')" and "unit_inv B p" and "unit_inv B b"
    and "B < 1073741824"
  shows "unit_inv B p' \<and> unit_inv B b'"
proof (cases "hasStatus b STUN")
  case True
  then show ?thesis using assms by (auto simp: bossTurn_def Let_def)
next
  case False
  from assms(1) False obtain r rs where r: "rng io = r # rs"
    by (cases "rng io") (auto simp: bossTurn_def Let_def)
  let ?p1 = "addToBattleLog p (''\<newline>=== '' @ name b @ [CHR 0x27] @ ''s TURN ==='')"
  have pl: "unit_inv B (addToBattleLog ?p1 m)" for m using assms(2) by simp
  have p1: "unit_inv B ?p1" using assms(2) by simp
  have "r mod 4 < 4" by simp
  then consider "r mod 4 = 3" | "r mod 4 = 0" | "r mod 4 = 1" | "r mod 4 = 2"
    by linarith
  then show ?thesis
  proof cases
    case 1
    then have "(b', p') = attack b (addToBattleLog ?p1 (name b @ '' chooses to attack!''))"
      using assms(1) False r by (auto simp: bossTurn_def Let_def split: prod.splits)
    then show ?thesis using inv_attack [OF assms(3) pl assms(4)] by (metis fst_conv snd_conv)
  next
    case 2
    then obtain u where "(u, b', p') = useSkill1 b (addToBattleLog ?p1 (name b @ '' uses '' @ getSkill1Name (cls b) @ ''!''))"
      using assms(1) False r by (auto simp: bossTurn_def Let_def split: prod.splits)
    then show ?thesis using inv_useSkill1 [OF assms(3) pl assms(4)] by (metis fst_conv snd_conv)
  next
    case 3
    then obtain u where "(u, b', p') = useSkill2 b (addToBattleLog ?p1 (name b @ '' uses '' @ getSkill2Name (cls b) @ ''!''))"
      using assms(1) False r by (auto simp: bossTurn_def Let_def split: prod.splits)
    then show ?thesis using inv_useSkill2 [OF assms(3) pl assms(4)] by (metis fst_conv snd_conv)
  next
    case 4
    then obtain u where "(u, b', p') = useSkill3 b (addToBattleLog ?p1 (name b @ '' uses '' @ getSkill3Name (cls b) @ ''!''))"
      using assms(1) False r by (auto simp: bossTurn_def Let_def split: prod.splits)
    then show ?thesis using inv_useSkill3 [OF assms(3) pl assms(4)] by (metis fst_conv snd_conv)
  qed
qed

lemma inv_combatRound:
  assumes "combatRound pf (p, b, io, tr) = Some (c, p', b', io', tr')"
    and "unit_inv B p" and "unit_inv B b" and "B < 1073741824"
  shows "unit_inv B p' \<and> unit_inv B b'"
proof -
  have cp: "unit_inv B (clearBattleLog p)" and cb: "unit_inv B (clearBattleLog b)"
    using assms(2,3) by simp_all
  show ?thesis
  proof (cases pf)
    case True
    with assms(1) obtain k p1 b1 io1 where
      pt: "playerTurn (clearBattleLog p) (clearBattleLog b) io = Some (k, p1, b1, io1)"
      by (cases "playerTurn (clearBattleLog p) (clearBattleLog b) io")
         (auto simp: combatRound_def Let_def)
    have i1: "unit_inv B p1 \<and> unit_inv B b1" using inv_playerTurn [OF pt cp cb assms(4)] .
    show ?thesis
    proof (cases "k \<or> \<not> isAlive b1")
      case True
      then show ?thesis using assms(1,4) \<open>pf\<close> pt i1
        by (auto simp: combatRound_def Let_def inv_process split: if_splits)
    next
      case False
      then obtain p3 b3 io3 where
        bt: "bossTurn (processStatusEffects p1) b1 io1 = Some (p3, b3, io3)"
        and res: "p' = p3" "b' = processStatusEffects b3"
        using assms(1) \<open>pf\<close> pt
        by (auto simp: combatRound_def Let_def split: option.splits)
      have "unit_inv B p3 \<and> unit_inv B b3"
        using inv_bossTurn [OF bt] i1 assms(4) by (simp add: inv_process)
      then show ?thesis using res assms(4) by (simp add: inv_process)
    qed
  next
    case False
    with assms(1) obtain p1 b1 io1 where
      bt: "bossTurn (clearBattleLog p) (clearBattleLog b) io = Some (p1, b1, io1)"
      by (cases "bossTurn (clearBattleLog p) (clearBattleLog b) io")
         (auto simp: combatRound_def Let_def)
    have i1: "unit_inv B p1 \<and> unit_inv B b1" using inv_bossTurn [OF bt cp cb assms(4)] .
    let ?b2 = "clearBattleLog (processStatusEffects b1)"
    let ?p2 = "clearBattleLog p1"
    have i2: "unit_inv B ?p2" "unit_inv B ?b2" using i1 assms(4) by (simp_all add: inv_process)
    show ?thesis
    proof (cases "isAlive ?p2")
      case dead: False
      then show ?thesis using assms(1) \<open>\<not> pf\<close> bt i2
        by (auto simp: combatRound_def Let_def)
    next
      case True
      then obtain k p3 b3 io3 where
        pt: "playerTurn ?p2 ?b2 io1 = Some (k, p3, b3, io3)"
        and res: "p' = (if k then p3 else processStatusEffects p3)" "b' = b3"
        using assms(1) \<open>\<not> pf\<close> bt
        by (auto simp: combatRound_def Let_def split: option.splits if_splits)
      have "unit_inv B p3 \<and> unit_inv B b3" using inv_playerTurn [OF pt i2 assms(4)] .
      then show ?thesis using res assms(4) by (simp add: inv_process)
    qed
  qed
qed

lemma inv_battle:
  assumes "battle fuel pf (p, b, io, tr) = Some (c, p', b', io', tr')"
    and "unit_inv B p" and "unit_inv B b" and "B < 1073741824"
  shows "unit_inv B p' \<and> unit_inv B b'"
  using assms(1,2,3)
proof (induction fuel arbitrary: p b io tr)
  case 0
  then show ?case by (auto split: if_splits)
next
  case (Suc fuel)
  show ?case
  proof (cases "\<not> (isAlive p \<and> isAlive b)")
    case True
    then show ?thesis using Suc.prems by simp
  next
    case False
    then obtain k p1 b1 io1 tr1 where
      rd: "combatRound pf (p, b, io, tr) = Some (k, p1, b1, io1, tr1)"
      using Suc.prems(1) by (cases "combatRound pf (p, b, io, tr)") auto
    have i1: "unit_inv B p1 \<and> unit_inv B b1"
      using inv_combatRound [OF rd Suc.prems(2,3) assms(4)] .
    show ?thesis
    proof (cases k)
      case NextIteration
      then have "battle fuel pf (p1, b1, io1, tr1) = Some (c, p', b', io', tr')"
        using Suc.prems(1) False rd by simp
      then show ?thesis using Suc.IH i1 by blast
    next
      case Break
      then show ?thesis using Suc.prems(1) False rd i1 by simp
    next
      case Return
      then show ?thesis using Suc.prems(1) False rd i1 by simp
    qed
  qed
qed

text \<open>
  The rewards of a stage raise the bound by at most 35: the upgrade adds 5 to the attack,
  the item adds at most 15 to the attack or 30 to the maximum health.
\<close>

lemma potionLoop_potions:
  "potionLoop n rs = Some (ps, rs') \<Longrightarrow> list_all (\<lambda>item. getType item = POTION) ps"
proof (induction n arbitrary: rs ps rs')
  case 0
  then show ?case by simp
next
  case (Suc n)
  then show ?case
    by (cases rs) (auto split: option.splits)
qed

lemma inv_fold_potions:
  "list_all (\<lambda>item. getType item = POTION) items \<Longrightarrow> unit_inv B u
     \<Longrightarrow> unit_inv B (fold (\<lambda>potion p. addItem p potion) items u)"
  by (induction items arbitrary: u) (simp_all add: inv_addItem_potion)

lemma inv_stageRewards:
  assumes "stageRewards stage p io = Some (p', io')" and "unit_inv B p" and "B + 35 < 1073741824"
  shows "unit_inv (B + 35) p'"
proof -
  from assms(1) obtain ps rs1 where gp: "generateRandomPotions (rng io) = Some (ps, rs1)"
    by (cases "generateRandomPotions (rng io)") (auto simp: stageRewards_def)
  then have "list_all (\<lambda>item. getType item = POTION) ps"
    by (cases "rng io") (auto simp: generateRandomPotions_def potionLoop_potions)
  then have p1: "unit_inv B (fold (\<lambda>potion p. addItem p potion) ps p)"
    using assms(2) by (rule inv_fold_potions)
  let ?p1 = "fold (\<lambda>potion p. addItem p potion) ps p"
  show ?thesis
  proof (cases "stage < 5")
    case False
    then have "p' = ?p1" using assms(1) gp by (simp add: stageRewards_def)
    then show ?thesis using p1 by (simp add: inv_mono [of B _ "B + 35"])
  next
    case True
    then obtain k item where "p' = addItem (applyUpgrade k ?p1) item"
      using assms(1) gp by (auto simp: stageRewards_def Let_def split: option.splits)
    moreover have "unit_inv (B + 5) (applyUpgrade k ?p1)"
      using p1 assms(3) by (intro inv_applyUpgrade) simp_all
    then have "unit_inv (B + 5 + 30) (addItem (applyUpgrade k ?p1) item)"
      using assms(3) by (intro inv_addItem) simp_all
    then have "unit_inv (B + 35) (addItem (applyUpgrade k ?p1) item)"
      by (simp add: add.assoc)
    ultimately show ?thesis by simp
  qed
qed

lemma inv_stagesLoop:
  assumes "stagesLoop fuel ns p io tr = Some (p', io', tr', fin)" and "unit_inv B p"
    and "170 \<le> B" and "B + 35 * int (length ns) < 1073741824"
    and "\<forall>n \<in> set ns. 1 \<le> n \<and> n \<le> 5"
  shows "unit_inv (B + 35 * int (length ns)) p'"
  using assms
proof (induction ns arbitrary: p io tr B)
  case Nil
  then show ?case by simp
next
  case (Cons n ns)
  from Cons.prems(1) obtain pf io1 where cf: "coinFlip io = Some (pf, io1)"
    by (cases "coinFlip io") auto
  from Cons.prems(1) cf obtain c p1 b1 io2 tr2 where
    bt: "battle fuel pf (p, createBoss n, io1, tr @ [StageStart n, CoinFlipped pf])
           = Some (c, p1, b1, io2, tr2)"
    by (cases "battle fuel pf (p, createBoss n, io1, tr @ [StageStart n, CoinFlipped pf])") auto
  have small: "B < 1073741824" "B + 35 < 1073741824" using Cons.prems(4) by simp_all
  have "unit_inv 170 (createBoss n)" using Cons.prems(5) by (simp add: inv_new)
  then have "unit_inv B (createBoss n)" using Cons.prems(3) by (rule inv_mono)
  then have i1: "unit_inv B p1" using inv_battle [OF bt Cons.prems(2) _ small(1)] by simp
  have grow: "B \<le> B + 35 * int (length (n # ns))" by simp
  show ?case
  proof (cases "c = NextIteration \<or> c = Return \<or> \<not> isAlive p1")
    case True
    then have "p' = p1" using Cons.prems(1) cf bt by (auto split: if_splits)
    then show ?thesis using i1 grow by (simp add: inv_mono)
  next
    case False
    then obtain p2 io3 where rw: "stageRewards n p1 io2 = Some (p2, io3)"
      and rest: "stagesLoop fuel ns p2 io3 tr2 = Some (p', io', tr', fin)"
      using Cons.prems(1) cf bt by (cases "stageRewards n p1 io2") (auto split: if_splits)
    have i2: "unit_inv (B + 35) p2" using inv_stageRewards [OF rw i1 small(2)] .
    have "unit_inv (B + 35 + 35 * int (length ns)) p'"
      using Cons.prems(3,4,5) by (intro Cons.IH [OF rest i2]) simp_all
    then show ?thesis by (simp add: algebra_simps)
  qed
qed

text \<open>
  From the creation of the character on, the player satisfies \<open>0 \<le> health \<le> maxHealth\<close>
  and \<open>0 \<le> mana \<le> maxMana\<close> at every point of the campaign the model can stop at (and,
  by the lemmas above, so do both units after every step on the way); no stat exceeds 345.
\<close>

lemma campaign_keeps_invariant:
  assumes "gameLoop fuel player io = Some (player', io', tr, fin)" and "unit_inv 170 player"
  shows "unit_inv 345 player'"
proof -
  have "stagesLoop fuel [1, 2, 3, 4, 5] player io [] = Some (player', io', tr, fin)"
    using assms(1) by (simp add: gameLoop_def)
  from inv_stagesLoop [OF this assms(2)] show ?thesis by simp
qed


text \<open>
  C7. Every operation that changes a unit (\<^verbatim>\<open>takeDamage\<close>, \<^verbatim>\<open>heal\<close>, \<^verbatim>\<open>restoreMana\<close>, the
  stat increases, the upgrades, equipment, potion use, status changes and ticks, the basic
  attack and the three skills with their mana debits) keeps \<open>0 \<le> health \<le> maxHealth\<close>
  and \<open>0 \<le> mana \<le> maxMana\<close> of the unit and of its target, for every argument the game
  passes: for units within the invariant \<open>unit_inv B\<close> with \<open>B\<close> up to \<open>10^9\<close> (in the game
  no stat exceeds 345), for every damage, and for an amount between 0 and \<open>10^9\<close> given to
  \<^verbatim>\<open>heal\<close>, \<^verbatim>\<open>restoreMana\<close>, \<^verbatim>\<open>increaseMaxHealth\<close> or \<^verbatim>\<open>increaseMaxMana\<close> (the game passes
  20 and 30, the amount of a potion, and half the damage of Life Drain). So do the steps of
  the game that are built from these operations: a turn of either side, a battle of any
  length, the rewards of a stage, and the campaign of a freshly created character.
\<close>

theorem C7_vitals_preserved:
  assumes "unit_inv B u" and "unit_inv B t" and "B \<le> 1000000000"
    and "0 \<le> amt" and "amt \<le> 1000000000"
  shows "vitals_ok (takeDamage u d sb src)
       \<and> vitals_ok (heal u amt) \<and> vitals_ok (restoreMana u amt)
       \<and> vitals_ok (increaseMaxHealth u amt) \<and> vitals_ok (increaseMaxMana u amt)
       \<and> vitals_ok (increaseAttack u d) \<and> vitals_ok (increaseDefense u d)
       \<and> vitals_ok (applyUpgrade k u)
       \<and> vitals_ok (applyEffect item u) \<and> vitals_ok (addItem u item)
       \<and> vitals_ok (snd (usePotion u i))
       \<and> vitals_ok (addStatus u e d s) \<and> vitals_ok (clearStatus u e)
       \<and> vitals_ok (processStatusEffects u)
       \<and> vitals_ok (fst (attack u t)) \<and> vitals_ok (snd (attack u t))
       \<and> vitals_ok (fst (snd (useSkill1 u t))) \<and> vitals_ok (snd (snd (useSkill1 u t)))
       \<and> vitals_ok (fst (snd (useSkill2 u t))) \<and> vitals_ok (snd (snd (useSkill2 u t)))
       \<and> vitals_ok (fst (snd (useSkill3 u t))) \<and> vitals_ok (snd (snd (useSkill3 u t)))
       \<and> (playerTurn u t io = Some (c, u1, t1, io1) \<longrightarrow> vitals_ok u1 \<and> vitals_ok t1)
       \<and> (bossTurn u t io = Some (u2, t2, io2) \<longrightarrow> vitals_ok u2 \<and> vitals_ok t2)
       \<and> (battle fuel pf (u, t, io, tr) = Some (ctl, u3, t3, io3, tr3) \<longrightarrow>
             vitals_ok u3 \<and> vitals_ok t3)
       \<and> (stageRewards stage u io = Some (u4, io4) \<longrightarrow> vitals_ok u4)
       \<and> ((player = new_Warrior nm \<or> player = new_Archer nm \<or> player = new_Mage nm)
            \<and> gameLoop gfuel player gio = Some (player', gio', gtr, fin) \<longrightarrow>
             vitals_ok player' \<and> unit_inv 345 player')"
proof -
  have B: "B < 1073741824" and B35: "B + 35 < 1073741824" using assms(3) by simp_all
  have amt: "amt \<le> 1073741824" using assms(5) by simp
  have mx: "maxHealth u + amt < 2147483648" "maxMana u + amt < 2147483648"
    using assms(1,3,5) by (simp_all add: unit_inv_def)
  have v: "vitals_ok u" using assms(1) by (rule inv_vitals)
  have f1: "vitals_ok (takeDamage u d sb src)"
    using inv_takeDamage [OF assms(1) B] by (rule inv_vitals)
  have f2: "vitals_ok (heal u amt)"
    using inv_heal [OF assms(1) B assms(4) amt] by (rule inv_vitals)
  have f3: "vitals_ok (restoreMana u amt)"
    using inv_restoreMana [OF assms(1) B assms(4) amt] by (rule inv_vitals)
  have f4: "vitals_ok (increaseMaxHealth u amt)"
    using v assms(4) mx(1) by (rule vitals_increaseMaxHealth)
  have f5: "vitals_ok (increaseMaxMana u amt)"
    using v assms(4) mx(2) by (rule vitals_increaseMaxMana)
  have f6: "vitals_ok (increaseAttack u d)" "vitals_ok (increaseDefense u d)"
    using v by (simp_all add: vitals_increase)
  have f7: "vitals_ok (applyUpgrade k u)"
    using inv_applyUpgrade [OF assms(1) B] by (rule inv_vitals)
  have f8: "vitals_ok (applyEffect item u)"
    using inv_applyEffect [OF assms(1) B] by (rule inv_vitals)
  have f9: "vitals_ok (addItem u item)"
    using inv_addItem [OF assms(1) B] by (rule inv_vitals)
  have f10: "vitals_ok (snd (usePotion u i))"
    using inv_usePotion [OF assms(1) B] by (rule inv_vitals)
  have f11: "vitals_ok (addStatus u e d s)" "vitals_ok (clearStatus u e)"
    using v by simp_all
  have f12: "vitals_ok (processStatusEffects u)"
    using inv_process [OF assms(1) B] by (rule inv_vitals)
  have f13: "vitals_ok (fst (attack u t))" "vitals_ok (snd (attack u t))"
    using inv_attack [OF assms(1,2) B] inv_vitals by blast+
  have f14: "vitals_ok (fst (snd (useSkill1 u t)))" "vitals_ok (snd (snd (useSkill1 u t)))"
    using inv_useSkill1 [OF assms(1,2) B] inv_vitals by blast+
  have f15: "vitals_ok (fst (snd (useSkill2 u t)))" "vitals_ok (snd (snd (useSkill2 u t)))"
    using inv_useSkill2 [OF assms(1,2) B] inv_vitals by blast+
  have f16: "vitals_ok (fst (snd (useSkill3 u t)))" "vitals_ok (snd (snd (useSkill3 u t)))"
    using inv_useSkill3 [OF assms(1,2) B] inv_vitals by blast+
  have f17: "playerTurn u t io = Some (c, u1, t1, io1) \<longrightarrow> vitals_ok u1 \<and> vitals_ok t1"
    using inv_playerTurn [OF _ assms(1,2) B] inv_vitals by blast
  have f18: "bossTurn u t io = Some (u2, t2, io2) \<longrightarrow> vitals_ok u2 \<and> vitals_ok t2"
    using inv_bossTurn [OF _ assms(1,2) B] inv_vitals by blast
  have f19: "battle fuel pf (u, t, io, tr) = Some (ctl, u3, t3, io3, tr3) \<longrightarrow>
             vitals_ok u3 \<and> vitals_ok t3"
    using inv_battle [OF _ assms(1,2) B] inv_vitals by blast
  have f20: "stageRewards stage u io = Some (u4, io4) \<longrightarrow> vitals_ok u4"
    using inv_stageRewards [OF _ assms(1) B35] inv_vitals by blast
  have f21: "(player = new_Warrior nm \<or> player = new_Archer nm \<or> player = new_Mage nm)
            \<and> gameLoop gfuel player gio = Some (player', gio', gtr, fin) \<longrightarrow>
             vitals_ok player' \<and> unit_inv 345 player'"
    using campaign_keeps_invariant [of gfuel player gio player' gio' gtr fin] inv_new(1,2,3) [of nm]
      inv_vitals [of 345 player']
    by blast
  show ?thesis
    by (intro conjI) (rule f1 f2 f3 f4 f5 f6 f7 f8 f9 f10 f11 f12 f13 f14 f15 f16 f17 f18 f19 f20 f21)+
qed

theorem C7_vitals_preserved_witness:
  "unit_inv 170 (addItem (new_Mage ''Hero'') HealthPotion) \<and> unit_inv 170 (createBoss 1)
   \<and> (170::int) \<le> 1000000000 \<and> (0::int) \<le> 30 \<and> (30::int) \<le> 1000000000
   \<and> vitals_ok (takeDamage (addItem (new_Mage ''Hero'') HealthPotion) 1000 True [])
   \<and> vitals_ok (heal (addItem (new_Mage ''Hero'') HealthPotion) 30)
   \<and> vitals_ok (snd (usePotion (addItem (new_Mage ''Hero'') HealthPotion) 0))
   \<and> vitals_ok (fst (snd (useSkill3 (addItem (new_Mage ''Hero'') HealthPotion) (createBoss 1))))
   \<and> vitals_ok (snd (snd (useSkill3 (addItem (new_Mage ''Hero'') HealthPotion) (createBoss 1))))
   \<and> map_option (\<lambda>(ctl, p, b, io, tr). (ctl, health p, maxHealth p, mana p, maxMana p, health b, maxHealth b))
        (battle 2 True (addItem (new_Mage ''Hero'') HealthPotion, createBoss 1,
                        \<lparr>cin = [2, 3, 3, 1], rng = [0]\<rparr>, []))
      = Some (NextIteration, 65, 70, 55, 80, 60, 90)
   \<and> (\<exists>ctl p b io tr.
         battle 2 True (addItem (new_Mage ''Hero'') HealthPotion, createBoss 1,
                        \<lparr>cin = [2, 3, 3, 1], rng = [0]\<rparr>, []) = Some (ctl, p, b, io, tr)
         \<and> vitals_ok p \<and> vitals_ok b)
   \<and> (\<exists>player' io' tr fin.
         gameLoop 5 (new_Mage ''Hero'')
           \<lparr>cin = [1, 2, 1, 2, 1, 3, 1, 1, 4], rng = [0, 3, 0, 0, 0, 1, 2, 1, 0, 0]\<rparr>
           = Some (player', io', tr, fin)
         \<and> vitals_ok player' \<and> unit_inv 345 player')"
proof -
  let ?u = "addItem (new_Mage ''Hero'') HealthPotion"
  let ?io = "\<lparr>cin = [2, 3, 3, 1], rng = [0]\<rparr>"
  let ?gio = "\<lparr>cin = [1, 2, 1, 2, 1, 3, 1, 1, 4], rng = [0, 3, 0, 0, 0, 1, 2, 1, 0, 0]\<rparr>"
  have a: "unit_inv 170 ?u" "unit_inv 170 (createBoss 1)" "(170::int) \<le> 1000000000"
    "(0::int) \<le> 30" "(30::int) \<le> 1000000000"
    by (simp_all add: inv_addItem_potion inv_new)
  have run: "map_option (\<lambda>(ctl, p, b, io, tr). (ctl, health p, maxHealth p, mana p, maxMana p, health b, maxHealth b))
               (battle 2 True (?u, createBoss 1, ?io, []))
             = Some (NextIteration, 65, 70, 55, 80, 60, 90)"
    by code_simp
  then obtain ctl p b io' tr' where bt: "battle 2 True (?u, createBoss 1, ?io, []) = Some (ctl, p, b, io', tr')"
    by (cases "battle 2 True (?u, createBoss 1, ?io, [])") auto
  have "gameLoop 5 (new_Mage ''Hero'') ?gio \<noteq> None"
    by code_simp
  then obtain player' gio' gtr fin where
    gl: "gameLoop 5 (new_Mage ''Hero'') ?gio = Some (player', gio', gtr, fin)"
    by (cases "gameLoop 5 (new_Mage ''Hero'') ?gio") auto
  note r = C7_vitals_preserved [OF a, where d = 1000 and sb = True and src = "[]" and i = 0
      and io = ?io and fuel = 2 and pf = True and tr = "[]" and ctl = ctl and ?u3.0 = p and ?t3.0 = b
      and ?io3.0 = io' and ?tr3.0 = tr' and player = "new_Mage ''Hero''" and nm = "''Hero''"
      and gfuel = 5 and gio = ?gio and player' = player' and gio' = gio' and gtr = gtr and fin = fin]
  have b1: "vitals_ok p \<and> vitals_ok b" using r bt by blast
  have g1: "vitals_ok player' \<and> unit_inv 345 player'" using r gl by blast
  have ops: "vitals_ok (takeDamage ?u 1000 True [])" "vitals_ok (heal ?u 30)"
    "vitals_ok (snd (usePotion ?u 0))"
    "vitals_ok (fst (snd (useSkill3 ?u (createBoss 1))))"
    "vitals_ok (snd (snd (useSkill3 ?u (createBoss 1))))"
    using r by blast+
  from a run ops bt b1 gl g1 show ?thesis by blast
qed

subsection \<open>Dead units\<close>

lemma dead_takeDamage: "health u = 0 \<Longrightarrow> health (takeDamage u d sb src) = 0"
proof -
  assume dead: "health u = 0"
  then have "health (takeDamage u d sb src) = max 0 (health u - max 1 (int32 (d - defense u)))"
    by (intro takeDamage_health) simp_all
  then show ?thesis using dead by simp
qed

lemma dead_tickEntry: "health u = 0 \<Longrightarrow> health (fst (tickEntry e (u, rm))) = 0"
  by (cases e) (auto simp: tickEntry_def Let_def dead_takeDamage split: option.splits)

lemma dead_removeExpired: "health u = 0 \<Longrightarrow> health (removeExpired e u) = 0"
  by (simp add: removeExpired_def Let_def)

lemma dead_process: "health u = 0 \<Longrightarrow> health (processStatusEffects u) = 0"
  by (rule process_preserves [where P = "\<lambda>u. health u = 0"])
     (simp_all add: dead_tickEntry dead_removeExpired)

lemma dead_attack: "health t = 0 \<Longrightarrow> health (snd (attack u t)) = 0"
  by (simp add: attack_def Unit_attack_def BossUnit_attack_def Let_def dead_takeDamage
      split: UnitClass.splits)

lemma dead_useSkill:
  assumes "health t = 0"
  shows "health (snd (snd (useSkill1 u t))) = 0"
    and "health (snd (snd (useSkill2 u t))) = 0"
    and "health (snd (snd (useSkill3 u t))) = 0"
  using assms
  by (cases "cls u";
      simp add: useSkill1_def useSkill2_def useSkill3_def skill_defs Let_def dead_takeDamage)+

text \<open>
  C4 as stated does not hold. An Archer (attack 30) uses Double Shot on a boss with 30
  health and no defense: the first hit takes the boss to 0, and the second hit is still
  dealt to the dead boss (it is logged as \<^verbatim>\<open>[0 -> 0/90 HP]\<close>). A stage-1 battle reaches
  this: two basic attacks, then Double Shot.
\<close>

theorem C4_double_shot_counterexample:
  "health (takeDamage ((createBoss 1)\<lparr>health := 30\<rparr>) 30 True []) = 0
   \<and> battleLog (snd (snd (useSkill3 (new_Archer ''Hero'') ((createBoss 1)\<lparr>health := 30\<rparr>))))
       = [''Goblin King took 30 damage! [30 -> 0/90 HP]'',
          ''Goblin King took 30 damage! [0 -> 0/90 HP]'']
   \<and> map_option (\<lambda>(ctl, p, b, io, tr). (ctl, health b, battleLog b))
       (battle 3 True (new_Archer ''Hero'', createBoss 1, \<lparr>cin = [1, 1, 2, 3], rng = [3, 3]\<rparr>, []))
     = Some (Break, 0,
             [''Goblin King took 30 damage! [30 -> 0/90 HP]'',
              ''Goblin King took 30 damage! [0 -> 0/90 HP]''])"
  by code_simp

lemma isAlive_clearBattleLog [simp]: "isAlive (clearBattleLog u) = isAlive u"
  by (simp add: isAlive_def clearBattleLog_def)

lemma battle_over:
  "\<not> (isAlive player \<and> isAlive boss) \<Longrightarrow>
     battle fuel playerFirst (player, boss, io, tr) = Some (Break, player, boss, io, tr)"
  by (cases fuel) simp_all

text \<open>
  What the combat loop does when a turn leaves the other side dead. After the turn of the
  first side the iteration is left at once, before the turn of the second side; after
  the turn of the second side the iteration is over and the loop condition fails.
\<close>

lemma first_turn_kills:
  "playerTurn (clearBattleLog p) (clearBattleLog b) io = Some (False, p1, b1, io1)
     \<Longrightarrow> \<not> isAlive b1
     \<Longrightarrow> combatRound True (p, b, io, tr)
           = Some (Break, processStatusEffects p1, b1, io1, tr @ [RoundStart, Turn PlayerSide])"
  "bossTurn (clearBattleLog p) (clearBattleLog b) io = Some (p1, b1, io1)
     \<Longrightarrow> \<not> isAlive p1
     \<Longrightarrow> combatRound False (p, b, io, tr)
           = Some (Return, clearBattleLog p1, clearBattleLog (processStatusEffects b1), io1,
                   tr @ [RoundStart, Turn BossSide])"
  by (simp_all add: combatRound_def Let_def)

lemma second_turn_kills:
  "playerTurn (clearBattleLog p) (clearBattleLog b) io = Some (False, p1, b1, io1)
     \<Longrightarrow> isAlive b1
     \<Longrightarrow> bossTurn (processStatusEffects p1) b1 io1 = Some (p3, b3, io3)
     \<Longrightarrow> combatRound True (p, b, io, tr)
           = Some (NextIteration, p3, processStatusEffects b3, io3,
                   tr @ [RoundStart, Turn PlayerSide, Turn BossSide])"
  "bossTurn (clearBattleLog p) (clearBattleLog b) io = Some (p1, b1, io1)
     \<Longrightarrow> isAlive p1
     \<Longrightarrow> playerTurn (clearBattleLog p1) (clearBattleLog (processStatusEffects b1)) io1
           = Some (k, p3, b3, io3)
     \<Longrightarrow> combatRound False (p, b, io, tr)
           = Some (NextIteration, (if k then p3 else processStatusEffects p3), b3, io3,
                   tr @ [RoundStart, Turn BossSide, Turn PlayerSide])"
  by (simp_all add: combatRound_def Let_def)

text \<open>
  C4, amended. A unit that is dead when a turn of its opponent ends is not targeted again
  in that battle: the unit leaves the battle exactly as that turn left it (with its log
  cleared when the boss acts first). If the turn was the first of the iteration, the
  iteration is left at once (\<^verbatim>\<open>break\<close> for a dead boss, \<^verbatim>\<open>return\<close> for a dead player),
  before the turn and the status tick of the dead unit; if it was the second, the
  iteration is over; and the loop starts no iteration with a dead unit on either side.
  Within the turn that kills it the unit can still be hit (the second hit of Double
  Shot): whatever damage is dealt to a unit with health 0, by \<^verbatim>\<open>takeDamage\<close>, a status
  tick, a basic attack or a skill, leaves the health at 0.
\<close>

theorem C4_dead_unit_not_targeted_again:
  "(health t = 0 \<longrightarrow>
        health (takeDamage t d sb src) = 0
      \<and> health (processStatusEffects t) = 0
      \<and> health (snd (attack u t)) = 0
      \<and> health (snd (snd (useSkill1 u t))) = 0
      \<and> health (snd (snd (useSkill2 u t))) = 0
      \<and> health (snd (snd (useSkill3 u t))) = 0)
   \<and> (\<not> (isAlive p \<and> isAlive b) \<longrightarrow>
        battle fuel playerFirst (p, b, io, tr) = Some (Break, p, b, io, tr))
   \<and> (isAlive p \<and> isAlive b
        \<and> playerTurn (clearBattleLog p) (clearBattleLog b) io = Some (False, pA, bA, ioA)
        \<and> \<not> isAlive bA \<longrightarrow>
        combatRound True (p, b, io, tr)
          = Some (Break, processStatusEffects pA, bA, ioA, tr @ [RoundStart, Turn PlayerSide])
      \<and> battle (Suc fuel) True (p, b, io, tr)
          = Some (Break, processStatusEffects pA, bA, ioA, tr @ [RoundStart, Turn PlayerSide]))
   \<and> (isAlive p \<and> isAlive b
        \<and> bossTurn (clearBattleLog p) (clearBattleLog b) io = Some (pB, bB, ioB)
        \<and> \<not> isAlive pB \<longrightarrow>
        combatRound False (p, b, io, tr)
          = Some (Return, clearBattleLog pB, clearBattleLog (processStatusEffects bB), ioB,
                  tr @ [RoundStart, Turn BossSide])
      \<and> battle (Suc fuel) False (p, b, io, tr)
          = Some (Return, clearBattleLog pB, clearBattleLog (processStatusEffects bB), ioB,
                  tr @ [RoundStart, Turn BossSide]))
   \<and> (isAlive p \<and> isAlive b
        \<and> playerTurn (clearBattleLog p) (clearBattleLog b) io = Some (False, pC, bC, ioC)
        \<and> isAlive bC
        \<and> bossTurn (processStatusEffects pC) bC ioC = Some (pC', bC', ioC')
        \<and> \<not> isAlive pC' \<longrightarrow>
        battle (Suc fuel) True (p, b, io, tr)
          = Some (Break, pC', processStatusEffects bC', ioC',
                  tr @ [RoundStart, Turn PlayerSide, Turn BossSide]))
   \<and> (isAlive p \<and> isAlive b
        \<and> bossTurn (clearBattleLog p) (clearBattleLog b) io = Some (pD, bD, ioD)
        \<and> isAlive pD
        \<and> playerTurn (clearBattleLog pD) (clearBattleLog (processStatusEffects bD)) ioD
            = Some (k, pD', bD', ioD')
        \<and> \<not> isAlive bD' \<longrightarrow>
        battle (Suc fuel) False (p, b, io, tr)
          = Some (Break, (if k then pD' else processStatusEffects pD'), bD', ioD',
                  tr @ [RoundStart, Turn BossSide, Turn PlayerSide]))"
proof -
  have c1: "health t = 0 \<longrightarrow>
        health (takeDamage t d sb src) = 0
      \<and> health (processStatusEffects t) = 0
      \<and> health (snd (attack u t)) = 0
      \<and> health (snd (snd (useSkill1 u t))) = 0
      \<and> health (snd (snd (useSkill2 u t))) = 0
      \<and> health (snd (snd (useSkill3 u t))) = 0"
    by (simp add: dead_takeDamage dead_process dead_attack dead_useSkill)
  have c2: "\<not> (isAlive p \<and> isAlive b) \<longrightarrow>
        battle fuel playerFirst (p, b, io, tr) = Some (Break, p, b, io, tr)"
    using battle_over [of p b fuel playerFirst io tr] by blast
  have c3: "isAlive p \<and> isAlive b
        \<and> playerTurn (clearBattleLog p) (clearBattleLog b) io = Some (False, pA, bA, ioA)
        \<and> \<not> isAlive bA \<longrightarrow>
        combatRound True (p, b, io, tr)
          = Some (Break, processStatusEffects pA, bA, ioA, tr @ [RoundStart, Turn PlayerSide])
      \<and> battle (Suc fuel) True (p, b, io, tr)
          = Some (Break, processStatusEffects pA, bA, ioA, tr @ [RoundStart, Turn PlayerSide])"
    by (simp add: first_turn_kills(1))
  have c4: "isAlive p \<and> isAlive b
        \<and> bossTurn (clearBattleLog p) (clearBattleLog b) io = Some (pB, bB, ioB)
        \<and> \<not> isAlive pB \<longrightarrow>
        combatRound False (p, b, io, tr)
          = Some (Return, clearBattleLog pB, clearBattleLog (processStatusEffects bB), ioB,
                  tr @ [RoundStart, Turn BossSide])
      \<and> battle (Suc fuel) False (p, b, io, tr)
          = Some (Return, clearBattleLog pB, clearBattleLog (processStatusEffects bB), ioB,
                  tr @ [RoundStart, Turn BossSide])"
    by (simp add: first_turn_kills(2))
  have c5: "isAlive p \<and> isAlive b
        \<and> playerTurn (clearBattleLog p) (clearBattleLog b) io = Some (False, pC, bC, ioC)
        \<and> isAlive bC
        \<and> bossTurn (processStatusEffects pC) bC ioC = Some (pC', bC', ioC')
        \<and> \<not> isAlive pC' \<longrightarrow>
        battle (Suc fuel) True (p, b, io, tr)
          = Some (Break, pC', processStatusEffects bC', ioC',
                  tr @ [RoundStart, Turn PlayerSide, Turn BossSide])"
    by (simp add: second_turn_kills(1) battle_over)
  have c6: "isAlive p \<and> isAlive b
        \<and> bossTurn (clearBattleLog p) (clearBattleLog b) io = Some (pD, bD, ioD)
        \<and> isAlive pD
        \<and> playerTurn (clearBattleLog pD) (clearBattleLog (processStatusEffects bD)) ioD
            = Some (k, pD', bD', ioD')
        \<and> \<not> isAlive bD' \<longrightarrow>
        battle (Suc fuel) False (p, b, io, tr)
          = Some (Break, (if k then pD' else processStatusEffects pD'), bD', ioD',
                  tr @ [RoundStart, Turn BossSide, Turn PlayerSide])"
    by (simp add: second_turn_kills(2) battle_over)
  show ?thesis by (intro conjI) (rule c1 c2 c3 c4 c5 c6)+
qed

theorem C4_dead_unit_not_targeted_again_witness:
  "health ((createBoss 1)\<lparr>health := 0\<rparr>) = 0
   \<and> health (snd (snd (useSkill3 (new_Archer ''Hero'') ((createBoss 1)\<lparr>health := 0\<rparr>)))) = 0
   \<and> map_option (\<lambda>(ctl, p, b, io, tr). (ctl, health b, io, tr))
        (battle (Suc 4) True
           (new_Archer ''Hero'', (createBoss 1)\<lparr>health := 30\<rparr>, \<lparr>cin = [2, 3], rng = [3]\<rparr>, []))
      = Some (Break, 0, \<lparr>cin = [], rng = [3]\<rparr>, [RoundStart, Turn PlayerSide])
   \<and> map_option (\<lambda>(ctl, p, b, io, tr). (ctl, health p, io, tr))
        (battle (Suc 4) False
           ((new_Mage ''Hero'')\<lparr>health := 10\<rparr>, createBoss 1, \<lparr>cin = [1], rng = [3]\<rparr>, []))
      = Some (Return, 0, \<lparr>cin = [1], rng = []\<rparr>, [RoundStart, Turn BossSide])
   \<and> map_option (\<lambda>(ctl, p, b, io, tr). (ctl, health p, io, tr))
        (battle (Suc 4) True
           ((new_Mage ''Hero'')\<lparr>health := 10\<rparr>, createBoss 1, \<lparr>cin = [4, 1], rng = [3]\<rparr>, []))
      = Some (Break, 0, \<lparr>cin = [1], rng = []\<rparr>, [RoundStart, Turn PlayerSide, Turn BossSide])
   \<and> map_option (\<lambda>(ctl, p, b, io, tr). (ctl, health b, io, tr))
        (battle (Suc 4) False
           (new_Archer ''Hero'', (createBoss 1)\<lparr>health := 30\<rparr>, \<lparr>cin = [1, 1], rng = [3, 3]\<rparr>, []))
      = Some (Break, 0, \<lparr>cin = [1], rng = [3]\<rparr>, [RoundStart, Turn BossSide, Turn PlayerSide])"
proof -
  let ?archer = "new_Archer ''Hero''" and ?mage = "(new_Mage ''Hero'')\<lparr>health := 10\<rparr>"
  let ?boss = "createBoss 1" and ?boss30 = "(createBoss 1)\<lparr>health := 30\<rparr>"
  let ?dead = "(createBoss 1)\<lparr>health := 0\<rparr>"
  note r = C4_dead_unit_not_targeted_again
  have alive: "isAlive ?archer" "isAlive ?mage" "isAlive ?boss" "isAlive ?boss30"
    by (simp_all add: isAlive_def new_Archer_def new_Unit_def createBoss_def new_BossUnit_def)
  have d0: "health ?dead = 0" by simp
  have d1: "health (snd (snd (useSkill3 ?archer ?dead))) = 0"
    using r [THEN conjunct1, rule_format, OF d0, of _ _ _ ?archer] by blast
  \<comment> \<open>the player acts first and Double Shot kills the boss\<close>
  let ?ioA = "\<lparr>cin = [2, 3], rng = [3]\<rparr>"
  have "map_option (\<lambda>(k, p, b, io). (k, health b, io))
          (playerTurn (clearBattleLog ?archer) (clearBattleLog ?boss30) ?ioA)
        = Some (False, 0, \<lparr>cin = [], rng = [3]\<rparr>)"
    by code_simp
  then obtain pA bA where
    tA: "playerTurn (clearBattleLog ?archer) (clearBattleLog ?boss30) ?ioA
           = Some (False, pA, bA, \<lparr>cin = [], rng = [3]\<rparr>)"
    and hA: "health bA = 0"
    by (cases "playerTurn (clearBattleLog ?archer) (clearBattleLog ?boss30) ?ioA") auto
  have "\<not> isAlive bA" using hA by (simp add: isAlive_def)
  then have "battle (Suc 4) True (?archer, ?boss30, ?ioA, [])
               = Some (Break, processStatusEffects pA, bA, \<lparr>cin = [], rng = [3]\<rparr>,
                       [] @ [RoundStart, Turn PlayerSide])"
    using r [where p = ?archer and b = ?boss30 and io = ?ioA and tr = "[]" and fuel = 4
               and pA = pA and bA = bA and ioA = "\<lparr>cin = [], rng = [3]\<rparr>",
               THEN conjunct2, THEN conjunct2, THEN conjunct1]
      alive tA by blast
  then have wA: "map_option (\<lambda>(ctl, p, b, io, tr). (ctl, health b, io, tr))
        (battle (Suc 4) True (?archer, ?boss30, ?ioA, []))
      = Some (Break, 0, \<lparr>cin = [], rng = [3]\<rparr>, [RoundStart, Turn PlayerSide])"
    by (simp add: hA)
  \<comment> \<open>the boss acts first and its attack kills the player\<close>
  let ?ioB = "\<lparr>cin = [1], rng = [3]\<rparr>"
  have "map_option (\<lambda>(p, b, io). (health p, io))
          (bossTurn (clearBattleLog ?mage) (clearBattleLog ?boss) ?ioB)
        = Some (0, \<lparr>cin = [1], rng = []\<rparr>)"
    by code_simp
  then obtain pB bB where
    tB: "bossTurn (clearBattleLog ?mage) (clearBattleLog ?boss) ?ioB
           = Some (pB, bB, \<lparr>cin = [1], rng = []\<rparr>)"
    and hB: "health pB = 0"
    by (cases "bossTurn (clearBattleLog ?mage) (clearBattleLog ?boss) ?ioB") auto
  have "\<not> isAlive pB" using hB by (simp add: isAlive_def)
  then have "battle (Suc 4) False (?mage, ?boss, ?ioB, [])
               = Some (Return, clearBattleLog pB, clearBattleLog (processStatusEffects bB),
                       \<lparr>cin = [1], rng = []\<rparr>, [] @ [RoundStart, Turn BossSide])"
    using r [where p = ?mage and b = ?boss and io = ?ioB and tr = "[]" and fuel = 4
               and pB = pB and bB = bB and ioB = "\<lparr>cin = [1], rng = []\<rparr>",
               THEN conjunct2, THEN conjunct2, THEN conjunct2, THEN conjunct1]
      alive tB by blast
  then have wB: "map_option (\<lambda>(ctl, p, b, io, tr). (ctl, health p, io, tr))
        (battle (Suc 4) False (?mage, ?boss, ?ioB, []))
      = Some (Return, 0, \<lparr>cin = [1], rng = []\<rparr>, [RoundStart, Turn BossSide])"
    by (simp add: hB clearBattleLog_def)
  \<comment> \<open>the player acts first and passes, the boss's attack kills the player\<close>
  let ?ioC = "\<lparr>cin = [4, 1], rng = [3]\<rparr>"
  have "map_option (\<lambda>(k, p, b, io). (k, isAlive b, io))
          (playerTurn (clearBattleLog ?mage) (clearBattleLog ?boss) ?ioC)
        = Some (False, True, \<lparr>cin = [1], rng = [3]\<rparr>)"
    by code_simp
  then obtain pC bC where
    tC: "playerTurn (clearBattleLog ?mage) (clearBattleLog ?boss) ?ioC
           = Some (False, pC, bC, \<lparr>cin = [1], rng = [3]\<rparr>)"
    and aC: "isAlive bC"
    by (cases "playerTurn (clearBattleLog ?mage) (clearBattleLog ?boss) ?ioC") auto
  have "map_option (\<lambda>(k, p, b, io). map_option (\<lambda>(p', b', io'). (health p', io'))
                      (bossTurn (processStatusEffects p) b io))
          (playerTurn (clearBattleLog ?mage) (clearBattleLog ?boss) ?ioC)
        = Some (Some (0, \<lparr>cin = [1], rng = []\<rparr>))"
    by code_simp
  then obtain pC' bC' where
    tC': "bossTurn (processStatusEffects pC) bC \<lparr>cin = [1], rng = [3]\<rparr>
            = Some (pC', bC', \<lparr>cin = [1], rng = []\<rparr>)"
    and hC: "health pC' = 0"
    unfolding tC by (cases "bossTurn (processStatusEffects pC) bC \<lparr>cin = [1], rng = [3]\<rparr>") auto
  have "\<not> isAlive pC'" using hC by (simp add: isAlive_def)
  then have "battle (Suc 4) True (?mage, ?boss, ?ioC, [])
               = Some (Break, pC', processStatusEffects bC', \<lparr>cin = [1], rng = []\<rparr>,
                       [] @ [RoundStart, Turn PlayerSide, Turn BossSide])"
    using r [where p = ?mage and b = ?boss and io = ?ioC and tr = "[]" and fuel = 4
               and pC = pC and bC = bC and ioC = "\<lparr>cin = [1], rng = [3]\<rparr>"
               and pC' = pC' and bC' = bC' and ioC' = "\<lparr>cin = [1], rng = []\<rparr>",
               THEN conjunct2, THEN conjunct2, THEN conjunct2, THEN conjunct2, THEN conjunct1]
      alive tC aC tC' by blast
  then have wC: "map_option (\<lambda>(ctl, p, b, io, tr). (ctl, health p, io, tr))
        (battle (Suc 4) True (?mage, ?boss, ?ioC, []))
      = Some (Break, 0, \<lparr>cin = [1], rng = []\<rparr>, [RoundStart, Turn PlayerSide, Turn BossSide])"
    by (simp add: hC)
  \<comment> \<open>the boss acts first, the player's attack kills the boss\<close>
  let ?ioD = "\<lparr>cin = [1, 1], rng = [3, 3]\<rparr>"
  have "map_option (\<lambda>(p, b, io). (isAlive p, io))
          (bossTurn (clearBattleLog ?archer) (clearBattleLog ?boss30) ?ioD)
        = Some (True, \<lparr>cin = [1, 1], rng = [3]\<rparr>)"
    by code_simp
  then obtain pD bD where
    tD: "bossTurn (clearBattleLog ?archer) (clearBattleLog ?boss30) ?ioD
           = Some (pD, bD, \<lparr>cin = [1, 1], rng = [3]\<rparr>)"
    and aD: "isAlive pD"
    by (cases "bossTurn (clearBattleLog ?archer) (clearBattleLog ?boss30) ?ioD") auto
  have "map_option (\<lambda>(p, b, io). map_option (\<lambda>(k, p', b', io'). (k, health b', io'))
                      (playerTurn (clearBattleLog p) (clearBattleLog (processStatusEffects b)) io))
          (bossTurn (clearBattleLog ?archer) (clearBattleLog ?boss30) ?ioD)
        = Some (Some (False, 0, \<lparr>cin = [1], rng = [3]\<rparr>))"
    by code_simp
  then obtain pD' bD' where
    tD': "playerTurn (clearBattleLog pD) (clearBattleLog (processStatusEffects bD))
            \<lparr>cin = [1, 1], rng = [3]\<rparr>
            = Some (False, pD', bD', \<lparr>cin = [1], rng = [3]\<rparr>)"
    and hD: "health bD' = 0"
    unfolding tD
    by (cases "playerTurn (clearBattleLog pD) (clearBattleLog (processStatusEffects bD))
                 \<lparr>cin = [1, 1], rng = [3]\<rparr>") auto
  have "\<not> isAlive bD'" using hD by (simp add: isAlive_def)
  then have "battle (Suc 4) False (?archer, ?boss30, ?ioD, [])
               = Some (Break, (if False then pD' else processStatusEffects pD'), bD',
                       \<lparr>cin = [1], rng = [3]\<rparr>, [] @ [RoundStart, Turn BossSide, Turn PlayerSide])"
    using r [where p = ?archer and b = ?boss30 and io = ?ioD and tr = "[]" and fuel = 4
               and pD = pD and bD = bD and ioD = "\<lparr>cin = [1, 1], rng = [3]\<rparr>" and k = False
               and pD' = pD' and bD' = bD' and ioD' = "\<lparr>cin = [1], rng = [3]\<rparr>",
               THEN conjunct2, THEN conjunct2, THEN conjunct2, THEN conjunct2, THEN conjunct2]
      alive tD aD tD' by blast
  then have wD: "map_option (\<lambda>(ctl, p, b, io, tr). (ctl, health b, io, tr))
        (battle (Suc 4) False (?archer, ?boss30, ?ioD, []))
      = Some (Break, 0, \<lparr>cin = [1], rng = [3]\<rparr>, [RoundStart, Turn BossSide, Turn PlayerSide])"
    by (simp add: hD)
  from d0 d1 wA wB wC wD show ?thesis by (intro conjI)
qed

subsection \<open>Turn order\<close>

text \<open>
  Both branches of the loop body are the same iteration, with the sides exchanged: the
  turn of the side that the flag puts first, then, unless the iteration ends there, the
  turn of the other side.
\<close>

lemma round_is_ordered: "combatRound playerFirst st = orderedRound playerFirst st"
proof (cases st)
  case (fields player boss io tr)
  show ?thesis
  proof (cases playerFirst)
    case True
    then show ?thesis
      by (simp add: fields combatRound_def orderedRound_def sideTurn_def sideAlive_def
            firstSide_def Let_def split: option.splits)
  next
    case False
    then show ?thesis
      by (simp add: fields combatRound_def orderedRound_def sideTurn_def sideAlive_def
            firstSide_def Let_def split: option.splits)
  qed
qed

text \<open>
  A run of \<open>n + 1\<close> iterations is the run of \<open>n\<close> iterations followed, when the loop
  has not ended, by one more iteration under the same flag.
\<close>

lemma battle_prefix:
  "battle (Suc fuel) playerFirst st =
     (case battle fuel playerFirst st of
        None \<Rightarrow> None
      | Some (NextIteration, st') \<Rightarrow> battle (Suc 0) playerFirst st'
      | Some (Break, st') \<Rightarrow> Some (Break, st')
      | Some (Return, st') \<Rightarrow> Some (Return, st'))"
proof (induction fuel arbitrary: st)
  case 0
  obtain p b io tr where st: "st = (p, b, io, tr)" by (cases st)
  show ?case by (simp add: st)
next
  case (Suc fuel)
  obtain p b io tr where st: "st = (p, b, io, tr)" by (cases st)
  show ?case
  proof (cases "\<not> (isAlive p \<and> isAlive b)")
    case True
    then show ?thesis by (simp add: st)
  next
    case False
    show ?thesis
    proof (cases "combatRound playerFirst (p, b, io, tr)")
      case None
      then show ?thesis using False by (simp add: st)
    next
      case (Some r)
      obtain c st1 where r: "r = (c, st1)" by (cases r)
      show ?thesis
      proof (cases c)
        case NextIteration
        have "battle (Suc (Suc fuel)) playerFirst st = battle (Suc fuel) playerFirst st1"
          using False Some r NextIteration by (simp add: st)
        moreover have "battle (Suc fuel) playerFirst st = battle fuel playerFirst st1"
          using False Some r NextIteration by (simp add: st)
        ultimately show ?thesis using Suc.IH [of st1] by simp
      next
        case Break
        then show ?thesis using False Some r by (simp add: st)
      next
        case Return
        then show ?thesis using False Some r by (simp add: st)
      qed
    qed
  qed
qed

lemma combatRound_trace:
  assumes "combatRound pf (p, b, io, tr0) = Some (ctl, p', b', io', tr)"
  shows "\<exists>r. tr = tr0 @ r \<and> roundOf pf r"
  using assms
  by (auto simp: combatRound_def Let_def roundOf_def firstSide_def
      split: option.splits if_splits prod.splits)

lemma battle_trace:
  assumes "battle fuel pf (p, b, io, tr0) = Some (ctl, p', b', io', tr)"
  shows "\<exists>rounds. tr = tr0 @ concat rounds \<and> list_all (roundOf pf) rounds \<and> length rounds \<le> fuel"
  using assms
proof (induction fuel arbitrary: p b io tr0)
  case 0
  then have "tr = tr0" by (simp split: if_splits)
  then have "tr = tr0 @ concat [] \<and> list_all (roundOf pf) [] \<and> length ([] :: Event list list) \<le> 0"
    by simp
  then show ?case by blast
next
  case (Suc fuel)
  show ?case
  proof (cases "\<not> (isAlive p \<and> isAlive b)")
    case True
    then have "tr = tr0" using Suc.prems by simp
    then have "tr = tr0 @ concat [] \<and> list_all (roundOf pf) []
             \<and> length ([] :: Event list list) \<le> Suc fuel"
      by simp
    then show ?thesis by blast
  next
    case False
    then obtain c p1 b1 io1 tr1 where
      rd: "combatRound pf (p, b, io, tr0) = Some (c, p1, b1, io1, tr1)"
      using Suc.prems by (cases "combatRound pf (p, b, io, tr0)") auto
    from combatRound_trace [OF rd] obtain r where r: "tr1 = tr0 @ r" "roundOf pf r" by blast
    show ?thesis
    proof (cases c)
      case NextIteration
      then have "battle fuel pf (p1, b1, io1, tr1) = Some (ctl, p', b', io', tr)"
        using Suc.prems False rd by simp
      from Suc.IH [OF this] obtain rounds where
        "tr = tr1 @ concat rounds" "list_all (roundOf pf) rounds" "length rounds \<le> fuel" by blast
      then have "tr = tr0 @ concat (r # rounds) \<and> list_all (roundOf pf) (r # rounds)
               \<and> length (r # rounds) \<le> Suc fuel"
        using r by simp
      then show ?thesis by blast
    next
      case Break
      then have "tr = tr1" using Suc.prems False rd by simp
      then have "tr = tr0 @ concat [r] \<and> list_all (roundOf pf) [r] \<and> length [r] \<le> Suc fuel"
        using r by simp
      then show ?thesis by blast
    next
      case Return
      then have "tr = tr1" using Suc.prems False rd by simp
      then have "tr = tr0 @ concat [r] \<and> list_all (roundOf pf) [r] \<and> length [r] \<le> Suc fuel"
        using r by simp
      then show ?thesis by blast
    qed
  qed
qed

lemma stage_uses_coinFlip:
  assumes "stagesLoop fuel (stage # rest) player io tr = Some res"
  shows "\<exists>pf io1 r. coinFlip io = Some (pf, io1)
           \<and> battle fuel pf (player, createBoss stage, io1, tr @ [StageStart stage, CoinFlipped pf])
               = Some r"
  using assms by (auto split: option.splits)

lemma stagesLoop_trace:
  assumes "stagesLoop fuel ns player io tr0 = Some (player', io', tr, fin)"
  shows "\<exists>stages. tr = tr0 @ concat (map stageEvents stages) \<and> list_all stageOrdered stages
           \<and> map fst stages = take (length stages) ns"
  using assms
proof (induction ns arbitrary: player io tr0)
  case Nil
  then have "tr = tr0" by simp
  then have "tr = tr0 @ concat (map stageEvents []) \<and> list_all stageOrdered []
           \<and> map fst ([] :: (int \<times> bool \<times> Event list list) list) = take (length ([] :: (int \<times> bool \<times> Event list list) list)) []"
    by simp
  then show ?case by blast
next
  case (Cons n ns)
  from Cons.prems obtain pf io1 where cf: "coinFlip io = Some (pf, io1)"
    by (cases "coinFlip io") auto
  from Cons.prems cf obtain ctl p1 b1 io2 tr2 where
    bt: "battle fuel pf (player, createBoss n, io1, tr0 @ [StageStart n, CoinFlipped pf])
           = Some (ctl, p1, b1, io2, tr2)"
    by (cases "battle fuel pf (player, createBoss n, io1, tr0 @ [StageStart n, CoinFlipped pf])") auto
  from battle_trace [OF bt] obtain rounds where
    rs: "tr2 = (tr0 @ [StageStart n, CoinFlipped pf]) @ concat rounds" "list_all (roundOf pf) rounds"
    by blast
  have blk: "tr2 = tr0 @ stageEvents (n, pf, rounds)" "stageOrdered (n, pf, rounds)"
    using rs by (simp_all add: stageEvents_def stageOrdered_def)
  show ?case
  proof (cases "ctl = NextIteration \<or> ctl = Return \<or> \<not> isAlive p1")
    case True
    then have "tr = tr2" using Cons.prems cf bt by (auto split: if_splits)
    then have "tr = tr0 @ concat (map stageEvents [(n, pf, rounds)])
             \<and> list_all stageOrdered [(n, pf, rounds)]
             \<and> map fst [(n, pf, rounds)] = take (length [(n, pf, rounds)]) (n # ns)"
      using blk by simp
    then show ?thesis by blast
  next
    case False
    then obtain p2 io3 where rw: "stageRewards n p1 io2 = Some (p2, io3)"
      and rest: "stagesLoop fuel ns p2 io3 tr2 = Some (player', io', tr, fin)"
      using Cons.prems cf bt by (cases "stageRewards n p1 io2") (auto split: if_splits)
    from Cons.IH [OF rest] obtain stages where
      st: "tr = tr2 @ concat (map stageEvents stages)" "list_all stageOrdered stages"
          "map fst stages = take (length stages) ns"
      by blast
    have "tr = tr0 @ concat (map stageEvents ((n, pf, rounds) # stages))
        \<and> list_all stageOrdered ((n, pf, rounds) # stages)
        \<and> map fst ((n, pf, rounds) # stages) = take (length ((n, pf, rounds) # stages)) (n # ns)"
      using st blk by simp
    then show ?thesis by blast
  qed
qed

text \<open>
  C6. The order of a battle is decided once, by the coin flip before its first iteration,
  and the same side acts first in every iteration of that battle.

  \<^item> Every iteration of the combat loop run with the flag \<open>playerFirst\<close> is the turn of
    the side that the flag puts first followed, unless the iteration ends there, by the
    turn of the other side (\<open>orderedRound\<close>): the units, the input consumed and the
    events are those of the two turns in this order.
  \<^item> Every prefix of a battle, ended or still running, consists of such iterations under
    one and the same flag: the run of \<open>fuel + 1\<close> iterations is the run of \<open>fuel\<close>
    iterations followed by one more iteration with that flag, and the trace of any run
    is a sequence of at most \<open>fuel\<close> iterations that each open with the turn of the first
    side.
  \<^item> The flag of a stage's battle is the result of the call of \<^verbatim>\<open>coinFlip\<close> at the start
    of that stage, and the trace of a campaign, ended or still running, is stage by stage
    from stage 1 the start of the stage, one coin flip, and iterations that all follow
    the order of that flip. So each stage's battle has its own coin flip and none in
    between.
\<close>

theorem C6_turn_order_fixed_per_battle:
  "combatRound playerFirst st = orderedRound playerFirst st
   \<and> battle (Suc fuel) playerFirst st =
       (case battle fuel playerFirst st of
          None \<Rightarrow> None
        | Some (NextIteration, st') \<Rightarrow> battle (Suc 0) playerFirst st'
        | Some (Break, st') \<Rightarrow> Some (Break, st')
        | Some (Return, st') \<Rightarrow> Some (Return, st'))
   \<and> (battle fuel playerFirst (p, b, io, tr0) = Some (ctl, p', b', io', tr) \<longrightarrow>
        (\<exists>rounds. tr = tr0 @ concat rounds \<and> list_all (roundOf playerFirst) rounds
           \<and> length rounds \<le> fuel))
   \<and> (stagesLoop fuel (stage # rest) player sio str = Some res \<longrightarrow>
        (\<exists>pf io1 r. coinFlip sio = Some (pf, io1)
           \<and> battle fuel pf (player, createBoss stage, io1, str @ [StageStart stage, CoinFlipped pf])
               = Some r))
   \<and> (gameLoop fuel hero gio = Some (hero', gio', trace, fin) \<longrightarrow>
        (\<exists>stages. trace = concat (map stageEvents stages) \<and> list_all stageOrdered stages
           \<and> map fst stages = take (length stages) [1, 2, 3, 4, 5]))"
proof -
  have c3: "battle fuel playerFirst (p, b, io, tr0) = Some (ctl, p', b', io', tr) \<longrightarrow>
        (\<exists>rounds. tr = tr0 @ concat rounds \<and> list_all (roundOf playerFirst) rounds
           \<and> length rounds \<le> fuel)"
    using battle_trace by blast
  have c4: "stagesLoop fuel (stage # rest) player sio str = Some res \<longrightarrow>
        (\<exists>pf io1 r. coinFlip sio = Some (pf, io1)
           \<and> battle fuel pf (player, createBoss stage, io1, str @ [StageStart stage, CoinFlipped pf])
               = Some r)"
    using stage_uses_coinFlip by blast
  have c5: "gameLoop fuel hero gio = Some (hero', gio', trace, fin) \<longrightarrow>
        (\<exists>stages. trace = concat (map stageEvents stages) \<and> list_all stageOrdered stages
           \<and> map fst stages = take (length stages) [1, 2, 3, 4, 5])"
  proof
    assume "gameLoop fuel hero gio = Some (hero', gio', trace, fin)"
    then have "stagesLoop fuel [1, 2, 3, 4, 5] hero gio [] = Some (hero', gio', trace, fin)"
      by (simp add: gameLoop_def)
    from stagesLoop_trace [OF this]
    show "\<exists>stages. trace = concat (map stageEvents stages) \<and> list_all stageOrdered stages
           \<and> map fst stages = take (length stages) [1, 2, 3, 4, 5]"
      by simp
  qed
  show ?thesis
    by (intro conjI) (rule round_is_ordered battle_prefix c3 c4 c5)+
qed

theorem C6_turn_order_fixed_per_battle_witness:
  "map_option (\<lambda>(ctl, p, b, io, tr). (ctl, health p, tr))
       (battle 1 True (new_Mage ''Hero'', createBoss 1, \<lparr>cin = [4, 4], rng = [0, 0]\<rparr>, []))
     = Some (NextIteration, 35, [RoundStart, Turn PlayerSide, Turn BossSide])
   \<and> (\<exists>rounds. [RoundStart, Turn PlayerSide, Turn BossSide] = [] @ concat rounds
         \<and> list_all (roundOf True) rounds \<and> length rounds \<le> 1)
   \<and> map_option (\<lambda>(ctl, p, b, io, tr). (ctl, health p, tr))
       (battle 2 True (new_Mage ''Hero'', createBoss 1, \<lparr>cin = [4, 4], rng = [0, 0]\<rparr>, []))
     = Some (Break, 0, [RoundStart, Turn PlayerSide, Turn BossSide, RoundStart, Turn PlayerSide, Turn BossSide])
   \<and> (\<exists>rounds. [RoundStart, Turn PlayerSide, Turn BossSide, RoundStart, Turn PlayerSide, Turn BossSide]
                  = [] @ concat rounds \<and> list_all (roundOf True) rounds \<and> length rounds \<le> 2)
   \<and> coinFlip \<lparr>cin = [1, 2, 1, 2, 1, 3, 1, 1, 4], rng = [0, 3, 0, 0, 0, 1, 2, 1, 0, 0]\<rparr>
     = Some (True, \<lparr>cin = [2, 1, 2, 1, 3, 1, 1, 4], rng = [3, 0, 0, 0, 1, 2, 1, 0, 0]\<rparr>)
   \<and> (\<exists>r. battle 5 True
              (new_Mage ''Hero'', createBoss 1,
               \<lparr>cin = [2, 1, 2, 1, 3, 1, 1, 4], rng = [3, 0, 0, 0, 1, 2, 1, 0, 0]\<rparr>,
               [] @ [StageStart 1, CoinFlipped True]) = Some r)
   \<and> map_option (\<lambda>(p, io, tr, fin). (health p, tr, fin))
       (gameLoop 5 (new_Mage ''Hero'')
          \<lparr>cin = [1, 2, 1, 2, 1, 3, 1, 1, 4], rng = [0, 3, 0, 0, 0, 1, 2, 1, 0, 0]\<rparr>)
     = Some (0, [StageStart 1, CoinFlipped True, RoundStart, Turn PlayerSide, Turn BossSide,
                 RoundStart, Turn PlayerSide,
                 StageStart 2, CoinFlipped False, RoundStart, Turn BossSide, Turn PlayerSide,
                 RoundStart, Turn BossSide], True)
   \<and> (\<exists>stages. [StageStart 1, CoinFlipped True, RoundStart, Turn PlayerSide, Turn BossSide,
                  RoundStart, Turn PlayerSide,
                  StageStart 2, CoinFlipped False, RoundStart, Turn BossSide, Turn PlayerSide,
                  RoundStart, Turn BossSide]
                 = concat (map stageEvents stages) \<and> list_all stageOrdered stages
        \<and> map fst stages = take (length stages) [1, 2, 3, 4, 5])
   \<and> map_option (\<lambda>(p, io, tr, fin). (health p, tr, fin))
       (gameLoop 1 (new_Mage ''Hero'')
          \<lparr>cin = [1, 2, 1, 2, 1, 3, 1, 1, 4], rng = [0, 3, 0, 0, 0, 1, 2, 1, 0, 0]\<rparr>)
     = Some (55, [StageStart 1, CoinFlipped True, RoundStart, Turn PlayerSide, Turn BossSide], False)
   \<and> (\<exists>stages. [StageStart 1, CoinFlipped True, RoundStart, Turn PlayerSide, Turn BossSide]
                 = concat (map stageEvents stages) \<and> list_all stageOrdered stages
        \<and> map fst stages = take (length stages) [1, 2, 3, 4, 5])"
proof -
  let ?st = "(new_Mage ''Hero'', createBoss 1, \<lparr>cin = [4, 4], rng = [0, 0]\<rparr>, [])"
  let ?tr1 = "[RoundStart, Turn PlayerSide, Turn BossSide]"
  let ?tr2 = "[RoundStart, Turn PlayerSide, Turn BossSide, RoundStart, Turn PlayerSide, Turn BossSide]"
  let ?gio = "\<lparr>cin = [1, 2, 1, 2, 1, 3, 1, 1, 4], rng = [0, 3, 0, 0, 0, 1, 2, 1, 0, 0]\<rparr>"
  let ?gio1 = "\<lparr>cin = [2, 1, 2, 1, 3, 1, 1, 4], rng = [3, 0, 0, 0, 1, 2, 1, 0, 0]\<rparr>"
  let ?tr5 = "[StageStart 1, CoinFlipped True, RoundStart, Turn PlayerSide, Turn BossSide,
               RoundStart, Turn PlayerSide,
               StageStart 2, CoinFlipped False, RoundStart, Turn BossSide, Turn PlayerSide,
               RoundStart, Turn BossSide]"
  let ?tr6 = "[StageStart 1, CoinFlipped True, RoundStart, Turn PlayerSide, Turn BossSide]"
  note r = C6_turn_order_fixed_per_battle
  note r3 = r [THEN conjunct2, THEN conjunct2, THEN conjunct1, rule_format]
  note r4 = r [THEN conjunct2, THEN conjunct2, THEN conjunct2, THEN conjunct1, rule_format]
  note r5 = r [THEN conjunct2, THEN conjunct2, THEN conjunct2, THEN conjunct2, rule_format]
  \<comment> \<open>a battle that is still running after one iteration, and the same battle at its end\<close>
  have run1: "map_option (\<lambda>(ctl, p, b, io, tr). (ctl, health p, tr)) (battle 1 True ?st)
                = Some (NextIteration, 35, ?tr1)"
    by code_simp
  then obtain p1 b1 io1 where b1: "battle 1 True ?st = Some (NextIteration, p1, b1, io1, ?tr1)"
    by (cases "battle 1 True ?st") auto
  have c1: "\<exists>rounds. ?tr1 = [] @ concat rounds \<and> list_all (roundOf True) rounds \<and> length rounds \<le> 1"
    using r3 [OF b1] .
  have run2: "map_option (\<lambda>(ctl, p, b, io, tr). (ctl, health p, tr)) (battle 2 True ?st)
                = Some (Break, 0, ?tr2)"
    by code_simp
  then obtain p2 b2 io2 where b2: "battle 2 True ?st = Some (Break, p2, b2, io2, ?tr2)"
    by (cases "battle 2 True ?st") auto
  have c2: "\<exists>rounds. ?tr2 = [] @ concat rounds \<and> list_all (roundOf True) rounds \<and> length rounds \<le> 2"
    using r3 [OF b2] .
  \<comment> \<open>a campaign that ends in stage 2, and the same campaign cut after one iteration\<close>
  have run5: "map_option (\<lambda>(p, io, tr, fin). (health p, tr, fin)) (gameLoop 5 (new_Mage ''Hero'') ?gio)
                = Some (0, ?tr5, True)"
    by code_simp
  then obtain q5 io5 where g5: "gameLoop 5 (new_Mage ''Hero'') ?gio = Some (q5, io5, ?tr5, True)"
    by (cases "gameLoop 5 (new_Mage ''Hero'') ?gio") auto
  have c5: "\<exists>stages. ?tr5 = concat (map stageEvents stages) \<and> list_all stageOrdered stages
        \<and> map fst stages = take (length stages) [1, 2, 3, 4, 5]"
    using r5 [OF g5] .
  have run6: "map_option (\<lambda>(p, io, tr, fin). (health p, tr, fin)) (gameLoop 1 (new_Mage ''Hero'') ?gio)
                = Some (55, ?tr6, False)"
    by code_simp
  then obtain q6 io6 where g6: "gameLoop 1 (new_Mage ''Hero'') ?gio = Some (q6, io6, ?tr6, False)"
    by (cases "gameLoop 1 (new_Mage ''Hero'') ?gio") auto
  have c6: "\<exists>stages. ?tr6 = concat (map stageEvents stages) \<and> list_all stageOrdered stages
        \<and> map fst stages = take (length stages) [1, 2, 3, 4, 5]"
    using r5 [OF g6] .
  \<comment> \<open>the battle of stage 1 runs under the result of the coin flip\<close>
  have cf: "coinFlip ?gio = Some (True, ?gio1)"
    by code_simp
  have "stagesLoop 5 (1 # [2, 3, 4, 5]) (new_Mage ''Hero'') ?gio [] = Some (q5, io5, ?tr5, True)"
    using g5 by (simp add: gameLoop_def)
  from r4 [OF this] obtain pf io1' r' where
    flip: "coinFlip ?gio = Some (pf, io1')"
    and bt: "battle 5 pf (new_Mage ''Hero'', createBoss 1, io1', [] @ [StageStart 1, CoinFlipped pf])
               = Some r'"
    by blast
  have "pf = True" "io1' = ?gio1" using flip cf by simp_all
  then have c4: "\<exists>r. battle 5 True (new_Mage ''Hero'', createBoss 1, ?gio1,
                       [] @ [StageStart 1, CoinFlipped True]) = Some r"
    using bt by blast
  from run1 c1 run2 c2 cf c4 run5 c5 run6 c6 show ?thesis by (intro conjI)
qed

subsection \<open>Potions and failed skills in the combat loop\<close>

lemma potion_ends_iteration_when_player_first:
  assumes "\<not> hasStatus player STUN" and "potions player \<noteq> []"
    and "cin io = 3 # k # rest" and "1 \<le> k" and "k \<le> int (length (potions player))"
  shows "combatRound True (player, boss, io, tr)
       = Some (NextIteration,
               processStatusEffects
                 (snd (usePotion (addToBattleLog (clearBattleLog player) ''\<newline>=== YOUR TURN ==='') (k - 1))),
               clearBattleLog boss, io\<lparr>cin := rest\<rparr>, tr @ [RoundStart, Turn PlayerSide])"
  using assms
  by (simp add: combatRound_def playerTurn_def showInventory_def hasStatus_def clearBattleLog_def
      addToBattleLog_def Let_def)

text \<open>
  C3 fails on the code when the player acts first. A Mage clears stage 1 with two
  Fireballs, is left with 55 health and is dropped one Health Potion. At stage 2 the
  player wins the coin flip and enters 3 (inventory) and 1 (the potion). The iteration
  ends right after the potion (\<^verbatim>\<open>continue\<close>): the boss is untouched, no random number
  is drawn for it, and the trace shows no boss turn. The next iteration opens with the
  player's turn again (here an attack), so the player acts twice before the boss acts
  once. With the boss first, the same input gives the boss its turn in the same iteration.
\<close>

theorem C3_potion_skips_boss_turn:
  "(case stagesLoop 5 [1] (new_Mage ''Hero'')
           \<lparr>cin = [1, 2, 1, 2, 1, 3, 1, 1, 3, 1, 1], rng = [0, 3, 0, 0, 0, 1, 2, 0, 3]\<rparr> [] of
      None \<Rightarrow> False
    | Some (player, io, tr, fin) \<Rightarrow>
        fin \<and> health player = 55 \<and> map potionName (potions player) = [''Health Potion'']
        \<and> io = \<lparr>cin = [1, 3, 1, 1], rng = [0, 3]\<rparr>
        \<and> coinFlip io = Some (True, \<lparr>cin = [3, 1, 1], rng = [3]\<rparr>)
        \<and> (case combatRound True (player, createBoss 2, \<lparr>cin = [3, 1, 1], rng = [3]\<rparr>, []) of
              None \<Rightarrow> False
            | Some (ctl1, p1, b1, io1, tr1) \<Rightarrow>
                ctl1 = NextIteration \<and> health p1 = 70 \<and> potions p1 = []
                \<and> battleLog p1 = [''\<newline>=== YOUR TURN ==='', ''Hero healed 15 HP! (70/70)'',
                                  ''Hero used Health Potion!'']
                \<and> health b1 = 110 \<and> mana b1 = 60 \<and> battleLog b1 = []
                \<and> io1 = \<lparr>cin = [1], rng = [3]\<rparr> \<and> tr1 = [RoundStart, Turn PlayerSide]
                \<and> map_option (\<lambda>(ctl, p, b, io, tr). (ctl, health p, health b, io, tr))
                      (combatRound True (p1, b1, io1, tr1))
                    = Some (NextIteration, 50, 66, \<lparr>cin = [], rng = []\<rparr>,
                            [RoundStart, Turn PlayerSide, RoundStart, Turn PlayerSide, Turn BossSide]))
        \<and> map_option (\<lambda>(ctl, p, b, io, tr). (ctl, health p, health b, io, tr))
              (combatRound False (player, createBoss 2, \<lparr>cin = [3, 1, 1], rng = [3]\<rparr>, []))
            = Some (NextIteration, 65, 110, \<lparr>cin = [1], rng = []\<rparr>,
                    [RoundStart, Turn BossSide, Turn PlayerSide]))"
  by code_simp

text \<open>
  C5 fails on the code for the boss. With 10 mana left the stage-1 boss draws skill 1
  (cost 15): the skill fails, the result is discarded, and the Warrior's health stays 120;
  no attack follows (drawing the attack instead costs the Warrior 13 health). The player's
  path does fall back: \<^verbatim>\<open>showSkillsMenu\<close> with 5 mana logs the failure and then attacks.
  The boss reaches that state in a battle: the player passes once, the boss uses skill 3
  twice (mana 60 to 10, stunning the player each time) and then draws skill 1; the third
  iteration leaves the player's health at 74.
\<close>

theorem C5_boss_has_no_fallback:
  "map_option (\<lambda>(p, b, io). (health p, mana b, battleLog b))
       (bossTurn (new_Warrior ''Hero'') ((createBoss 1)\<lparr>mana := 10\<rparr>) \<lparr>cin = [], rng = [0]\<rparr>)
     = Some (120, 10, [''Goblin King doesn't have enough MP for Goblin Smash!''])
   \<and> map_option (\<lambda>(p, b, io). (health p, mana b, battleLog b))
       (bossTurn (new_Warrior ''Hero'') ((createBoss 1)\<lparr>mana := 10\<rparr>) \<lparr>cin = [], rng = [3]\<rparr>)
     = Some (107, 10, [''Goblin King attacks Hero for 15 damage!'', ''Hero's HP: 120 -> 107/120''])
   \<and> map_option (\<lambda>(p, b, io). (battleLog p, health b))
       (showSkillsMenu ((new_Warrior ''Hero'')\<lparr>mana := 5\<rparr>) (createBoss 1) \<lparr>cin = [1], rng = []\<rparr>)
     = Some ([''Not enough MP for Power Strike!'', ''Hero attacks Goblin King for 20 damage!'',
              ''Goblin King's HP: 90 -> 70/90''], 70)
   \<and> (case combatRound True (new_Warrior ''Hero'', createBoss 1, \<lparr>cin = [4], rng = [2, 2, 0]\<rparr>, []) of
        None \<Rightarrow> False
      | Some (ctl1, st1) \<Rightarrow>
          (case combatRound True st1 of
             None \<Rightarrow> False
           | Some (ctl2, p2, b2, io2, tr2) \<Rightarrow>
               health p2 = 74 \<and> mana b2 = 10 \<and> io2 = \<lparr>cin = [], rng = [0]\<rparr>
               \<and> map_option (\<lambda>(ctl, p, b, io, tr). (ctl, health p, mana b, battleLog b, io, tr))
                    (combatRound True (p2, b2, io2, tr2))
                  = Some (NextIteration, 74, 10,
                          [''Goblin King doesn't have enough MP for Goblin Smash!''],
                          \<lparr>cin = [], rng = []\<rparr>,
                          [RoundStart, Turn PlayerSide, Turn BossSide,
                           RoundStart, Turn PlayerSide, Turn BossSide,
                           RoundStart, Turn PlayerSide, Turn BossSide])))"
  by code_simp


end
